theory Spec2Isabelle
  imports Main
begin

section \<open>Strings\<close>

text \<open>
  A TypeScript string is modelled as a \<^typ>\<open>string\<close> holding its UTF-8 bytes. The
  regular expressions of the scrapers consist of the ASCII class \<^verbatim>\<open>\d\<close> and of literal
  characters only, so matching on the bytes finds the same matches as matching on the
  characters; the only lengths the code takes (\<^verbatim>\<open>padStart\<close>) are lengths of digit
  strings. The non-ASCII literals of the source are named here.
\<close>

definition NEN :: string where \<comment> \<open>U+5E74, the year glyph\<close>
  "NEN = [CHR 0xE5, CHR 0xB9, CHR 0xB4]"

definition GATSU :: string where \<comment> \<open>U+6708, the month glyph\<close>
  "GATSU = [CHR 0xE6, CHR 0x9C, CHR 0x88]"

definition NICHI :: string where \<comment> \<open>U+65E5, the day glyph\<close>
  "NICHI = [CHR 0xE6, CHR 0x97, CHR 0xA5]"

definition JI :: string where \<comment> \<open>U+6642, the hour glyph\<close>
  "JI = [CHR 0xE6, CHR 0x99, CHR 0x82]"

definition FUN :: string where \<comment> \<open>U+5206, the minute glyph\<close>
  "FUN = [CHR 0xE5, CHR 0x88, CHR 0x86]"

definition WAVE :: string where \<comment> \<open>U+FF5E, the full-width tilde\<close>
  "WAVE = [CHR 0xEF, CHR 0xBD, CHR 0x9E]"

text \<open>JavaScript truthiness of a string: the empty string is falsy.\<close>

definition truthy :: "string \<Rightarrow> bool" where
  "truthy s = (s \<noteq> [])"

text \<open>\<^verbatim>\<open>s.padStart(2, "0")\<close>\<close>

definition padStart2 :: "string \<Rightarrow> string" where
  "padStart2 s = (if length s < 2 then replicate (2 - length s) (CHR ''0'') @ s else s)"

text \<open>\<^verbatim>\<open>s.startsWith(p)\<close>\<close>

definition startsWith :: "string \<Rightarrow> string \<Rightarrow> bool" where
  "startsWith s p = (take (length p) s = p)"

section \<open>The regular expressions of the scrapers\<close>

text \<open>
  Each pattern is a sequence of digit groups and literals. A matcher takes the text at
  one position and returns the captured groups; \<open>search\<close> tries the positions from left
  to right, as \<^verbatim>\<open>String.prototype.match\<close> does for a pattern without the \<^verbatim>\<open>g\<close> flag.
  The greedy group \<^verbatim>\<open>\d{1,2}\<close> offers two digits first and one digit on backtracking.
\<close>

definition is_digit :: "char \<Rightarrow> bool" where
  "is_digit c = (c \<in> set ''0123456789'')"

fun lit :: "string \<Rightarrow> string \<Rightarrow> string option" where
  "lit [] s = Some s"
| "lit (p # ps) [] = None"
| "lit (p # ps) (c # cs) = (if p = c then lit ps cs else None)"

fun digits_exact :: "nat \<Rightarrow> string \<Rightarrow> (string \<times> string) option" where
  "digits_exact 0 s = Some ([], s)"
| "digits_exact (Suc n) [] = None"
| "digits_exact (Suc n) (c # cs) =
     (if is_digit c
      then (case digits_exact n cs of None \<Rightarrow> None | Some (d, r) \<Rightarrow> Some (c # d, r))
      else None)"

definition digits_1_2 :: "string \<Rightarrow> (string \<times> string) list" where
  "digits_1_2 s =
     (case digits_exact (Suc (Suc 0)) s of None \<Rightarrow> [] | Some x \<Rightarrow> [x]) @
     (case digits_exact (Suc 0) s of None \<Rightarrow> [] | Some x \<Rightarrow> [x])"

fun first_some :: "('a \<Rightarrow> 'b option) \<Rightarrow> 'a list \<Rightarrow> 'b option" where
  "first_some f [] = None"
| "first_some f (x # xs) = (case f x of Some r \<Rightarrow> Some r | None \<Rightarrow> first_some f xs)"

fun search :: "(string \<Rightarrow> 'a option) \<Rightarrow> string \<Rightarrow> 'a option" where
  "search re [] = re []"
| "search re (c # cs) = (case re (c # cs) of Some r \<Rightarrow> Some r | None \<Rightarrow> search re cs)"

text \<open>
  The date pattern, at one position: four digits, the year glyph, one or two digits, the
  month glyph, one or two digits, the day glyph. The groups are year, month and day.
\<close>

definition date_re_here :: "string \<Rightarrow> (string \<times> string \<times> string) option" where
  "date_re_here s =
     (case digits_exact 4 s of None \<Rightarrow> None | Some (y, s1) \<Rightarrow>
      (case lit NEN s1 of None \<Rightarrow> None | Some s2 \<Rightarrow>
        first_some (\<lambda>(m, s3).
          (case lit GATSU s3 of None \<Rightarrow> None | Some s4 \<Rightarrow>
            first_some (\<lambda>(d, s5).
              (case lit NICHI s5 of None \<Rightarrow> None | Some s6 \<Rightarrow> Some (y, m, d)))
              (digits_1_2 s4)))
          (digits_1_2 s2)))"

definition date_re :: "string \<Rightarrow> (string \<times> string \<times> string) option" where
  "date_re = search date_re_here"

text \<open>The character class of the range sign: the full-width tilde or the ASCII one.\<close>

definition tilde :: "string \<Rightarrow> string option" where
  "tilde s = (case lit WAVE s of Some r \<Rightarrow> Some r | None \<Rightarrow> lit ''~'' s)"

text \<open>
  The two time-range patterns have the same shape: one or two digits, the hour
  separator, two digits, the minute suffix, the range sign, and the same again. The first
  pattern has the hour glyph and the minute glyph, the second
  (\<^verbatim>\<open>/(\d{1,2}):(\d{2})[..](\d{1,2}):(\d{2})/\<close>) a colon and no suffix. The groups are
  start hour, start minute, end hour and end minute.
\<close>

definition half_range ::
  "string \<Rightarrow> string \<Rightarrow> (string \<times> string \<Rightarrow> string \<Rightarrow> 'a option) \<Rightarrow> string \<Rightarrow> 'a option" where
  "half_range hsep msuf k s =
     first_some (\<lambda>(h, s1).
       (case lit hsep s1 of None \<Rightarrow> None | Some s2 \<Rightarrow>
        (case digits_exact 2 s2 of None \<Rightarrow> None | Some (m, s3) \<Rightarrow>
         (case lit msuf s3 of None \<Rightarrow> None | Some s4 \<Rightarrow> k (h, m) s4))))
       (digits_1_2 s)"

definition time_re_here ::
  "string \<Rightarrow> string \<Rightarrow> string \<Rightarrow> (string \<times> string \<times> string \<times> string) option" where
  "time_re_here hsep msuf s =
     half_range hsep msuf (\<lambda>(h1, m1) s1.
       (case tilde s1 of None \<Rightarrow> None | Some s2 \<Rightarrow>
          half_range hsep msuf (\<lambda>(h2, m2) s3. Some (h1, m1, h2, m2)) s2)) s"

definition timeMatch1 :: "string \<Rightarrow> (string \<times> string \<times> string \<times> string) option" where
  "timeMatch1 = search (time_re_here JI FUN)"

definition timeMatch2 :: "string \<Rightarrow> (string \<times> string \<times> string \<times> string) option" where
  "timeMatch2 = search (time_re_here '':'' [])"

text \<open>A number in a template string: its decimal digits.\<close>

fun show_nat :: "nat \<Rightarrow> string" where
  "show_nat n =
     (if n < 10 then [''0123456789'' ! n]
      else show_nat (n div 10) @ [''0123456789'' ! (n mod 10)])"

declare show_nat.simps [simp del]

section \<open>The normalized meeting record\<close>

record MeetingData =
  name :: string
  date :: string
  time :: string
  agenda :: string
  detailUrl :: string

section \<open>What the scrapers read from the web\<close>

text \<open>
  The HTML and JSON libraries are outside the model: a response body is given by what the
  scrapers' selectors and \<^verbatim>\<open>JSON.parse\<close> read from it.

  \<^item> An item of the OCCTO news feed, as the interface \<^verbatim>\<open>OcctoNewsItem\<close> declares it.
  \<^item> A row of the METI list table: the trimmed text of its first \<^verbatim>\<open>th\<close>, the trimmed
    text of its first link and the link's \<^verbatim>\<open>href\<close> attribute (\<open>None\<close> when there is none).
  \<^item> An OCCTO detail page: the trimmed text of the first \<^verbatim>\<open>h1\<close>, the trimmed text of
    the paragraph after the date/time heading (the variable \<^verbatim>\<open>dateTimeText\<close>) and the
    trimmed agenda items.
  \<^item> A METI detail page: the time and the agenda that the walk over its \<^verbatim>\<open>h3\<close>
    headings yields. That walk is not modelled further.
\<close>

record category =
  cat_id :: string
  parent_id :: string

record OcctoNewsItem =
  title :: string
  published_date :: string
  url :: string
  categories :: "category list"

record list_row =
  dateText :: string
  linkText :: string
  href :: "string option"

record detail_dom =
  h1_text :: string
  dateTimeText :: string
  agendaItems :: "string list"

datatype body =
    FeedJson "OcctoNewsItem list"
  | MetiListHtml "list_row list"
  | OcctoDetailHtml detail_dom
  | MetiDetailHtml string string
  | OtherText

text \<open>
  A thrown value: an \<^verbatim>\<open>Error\<close> with its message, or something that is not an
  \<^verbatim>\<open>Error\<close>, with what \<^verbatim>\<open>String(error)\<close> gives for it.
\<close>

datatype thrown = Error string | NonError string

datatype http_response =
    NetworkFailure thrown
  | Response nat string body

section \<open>The runtime's dates\<close>

text \<open>
  A time value of the runtime (what a \<^verbatim>\<open>Date\<close> holds) is given by its calendar date in
  UTC and the milliseconds since the midnight of that date in UTC. The calendar is the
  proleptic Gregorian one, as in ECMAScript; months are numbered from 1 to 12 here, and
  \<^verbatim>\<open>getMonth()\<close> gives the month less one.
\<close>

record time_value =
  tv_year :: int
  tv_month :: int
  tv_day :: int
  tv_ms :: int

definition msPerDay :: int where
  "msPerDay = 86400000"

definition leap_year :: "int \<Rightarrow> bool" where
  "leap_year y = ((y mod 4 = 0 \<and> y mod 100 \<noteq> 0) \<or> y mod 400 = 0)"

definition days_in_month :: "int \<Rightarrow> int \<Rightarrow> int" where
  "days_in_month y m =
     (if m = 2 then (if leap_year y then 29 else 28)
      else if m = 4 \<or> m = 6 \<or> m = 9 \<or> m = 11 then 30
      else 31)"


definition next_day :: "time_value \<Rightarrow> time_value" where
  "next_day t =
     (if tv_day t < days_in_month (tv_year t) (tv_month t) then t\<lparr>tv_day := tv_day t + 1\<rparr>
      else if tv_month t < 12 then t\<lparr>tv_month := tv_month t + 1, tv_day := 1\<rparr>
      else t\<lparr>tv_year := tv_year t + 1, tv_month := 1, tv_day := 1\<rparr>)"

definition prev_day :: "time_value \<Rightarrow> time_value" where
  "prev_day t =
     (if 1 < tv_day t then t\<lparr>tv_day := tv_day t - 1\<rparr>
      else if 1 < tv_month t
        then t\<lparr>tv_month := tv_month t - 1, tv_day := days_in_month (tv_year t) (tv_month t - 1)\<rparr>
      else t\<lparr>tv_year := tv_year t - 1, tv_month := 12, tv_day := 31\<rparr>)"

fun repeat :: "nat \<Rightarrow> ('a \<Rightarrow> 'a) \<Rightarrow> 'a \<Rightarrow> 'a" where
  "repeat 0 f x = x"
| "repeat (Suc n) f x = repeat n f (f x)"

definition shift_days :: "int \<Rightarrow> time_value \<Rightarrow> time_value" where
  "shift_days k t = (if 0 \<le> k then repeat (nat k) next_day t else repeat (nat (- k)) prev_day t)"

text \<open>The time value that lies \<open>k\<close> milliseconds after \<open>t\<close> (before it when \<open>k\<close> is negative).\<close>

definition add_ms :: "int \<Rightarrow> time_value \<Rightarrow> time_value" where
  "add_ms k t =
     shift_days ((tv_ms t + k) div msPerDay) (t\<lparr>tv_ms := (tv_ms t + k) mod msPerDay\<rparr>)"

definition utc_midnight :: "int \<Rightarrow> int \<Rightarrow> int \<Rightarrow> time_value" where
  "utc_midnight y m d = \<lparr>tv_year = y, tv_month = m, tv_day = d, tv_ms = 0\<rparr>"

text \<open>
  The date-only form \<^verbatim>\<open>YYYY-MM-DD\<close> of the ECMAScript date-time string format, with a
  month from 01 to 12 and a day of that month: the year, the month and the day. A string
  in this form is parsed as the midnight of that date in UTC; what \<^verbatim>\<open>new Date(string)\<close>
  gives for any other string is left to the runtime.
\<close>

text \<open>The value of a decimal digit is its position in the string of the ten digits.\<close>

definition digit_value :: "char \<Rightarrow> int" where
  "digit_value c = int (length (takeWhile (\<lambda>d. d \<noteq> c) ''0123456789''))"

definition number :: "string \<Rightarrow> int" where
  "number s = foldl (\<lambda>n c. 10 * n + digit_value c) 0 s"

definition iso_date_only :: "string \<Rightarrow> (int \<times> int \<times> int) option" where
  "iso_date_only s =
     (case digits_exact 4 s of None \<Rightarrow> None | Some (y, s1) \<Rightarrow>
      (case lit ''-'' s1 of None \<Rightarrow> None | Some s2 \<Rightarrow>
       (case digits_exact 2 s2 of None \<Rightarrow> None | Some (m, s3) \<Rightarrow>
        (case lit ''-'' s3 of None \<Rightarrow> None | Some s4 \<Rightarrow>
         (case digits_exact 2 s4 of None \<Rightarrow> None | Some (d, s5) \<Rightarrow>
            if s5 = [] \<and> 1 \<le> number m \<and> number m \<le> 12 \<and>
               1 \<le> number d \<and> number d \<le> days_in_month (number y) (number m)
            then Some (number y, number m, number d)
            else None)))))"

section \<open>The process and its surroundings\<close>

text \<open>
  The state that the program reads and writes:
  \<^item> \<open>SPREADSHEET_ID\<close>: the environment variable of that name;
  \<^item> \<open>sheets\<close>: the spreadsheet, a map from a tab's title to its rows, row 1 first;
  \<^item> \<open>faults\<close>: the outcome of the coming requests to the spreadsheet service, one
    entry per request in the order they are made: \<open>None\<close> lets the request through,
    \<open>Some e\<close> makes it throw \<open>e\<close>; an exhausted list lets every request through.
    Any pattern of failing requests is some value of this list;
  \<^item> \<open>web\<close>: the response of each URL, and \<open>requests\<close>: the URLs fetched so far;
  \<^item> \<open>stderr\<close>: what \<^verbatim>\<open>console.error\<close> and \<^verbatim>\<open>console.warn\<close> write, one entry per
    call, the first line of its output (the progress lines of \<^verbatim>\<open>console.log\<close> are not
    modelled);
  \<^item> \<open>clock\<close>: the time value of \<^verbatim>\<open>new Date()\<close>;
  \<^item> \<open>toISOString\<close>: the runtime's \<^verbatim>\<open>Date.prototype.toISOString\<close>;
  \<^item> \<open>parseOther\<close>: what \<^verbatim>\<open>new Date(string)\<close> gives for a string that is not in the
    date-only form (\<open>None\<close> for an invalid date);
  \<^item> \<open>LocalTZA\<close>: the offset of local time from UTC at a time value, in milliseconds,
    positive east of Greenwich.
\<close>

record world =
  SPREADSHEET_ID :: "string option"
  sheets :: "string \<rightharpoonup> string list list"
  faults :: "thrown option list"
  web :: "string \<Rightarrow> http_response"
  requests :: "string list"
  stderr :: "string list"
  clock :: time_value
  toISOString :: "time_value \<Rightarrow> string"
  parseOther :: "string \<Rightarrow> time_value option"
  LocalTZA :: "time_value \<Rightarrow> int"

text \<open>
  \<^verbatim>\<open>new Date(string)\<close>, and the pair of \<^verbatim>\<open>getFullYear()\<close> and \<^verbatim>\<open>getMonth()\<close> of a time
  value: the year and the month, from 0 to 11, of the time value in local time.
\<close>

definition dateParse :: "world \<Rightarrow> string \<Rightarrow> time_value option" where
  "dateParse w s =
     (case iso_date_only s of
        Some (y, m, d) \<Rightarrow> Some (utc_midnight y m d)
      | None \<Rightarrow> parseOther w s)"

definition localTime :: "world \<Rightarrow> time_value \<Rightarrow> time_value" where
  "localTime w t = add_ms (LocalTZA w t) t"

definition localYearMonth :: "world \<Rightarrow> time_value \<Rightarrow> int \<times> int" where
  "localYearMonth w t = (tv_year (localTime w t), tv_month (localTime w t) - 1)"

text \<open>
  An asynchronous function is a function from the state to its outcome and the state it
  leaves: \<open>Inl e\<close> when it throws \<open>e\<close>, \<open>Inr x\<close> when it returns \<open>x\<close>.
\<close>

type_synonym 'a io = "world \<Rightarrow> (thrown + 'a) \<times> world"

definition io_return :: "'a \<Rightarrow> 'a io" where
  "io_return x w = (Inr x, w)"

definition io_throw :: "thrown \<Rightarrow> 'a io" where
  "io_throw e w = (Inl e, w)"

definition io_bind :: "'a io \<Rightarrow> ('a \<Rightarrow> 'b io) \<Rightarrow> 'b io" where
  "io_bind m f w = (case m w of (Inl e, w') \<Rightarrow> (Inl e, w') | (Inr x, w') \<Rightarrow> f x w')"

definition io_catch :: "'a io \<Rightarrow> (thrown \<Rightarrow> 'a io) \<Rightarrow> 'a io" where
  "io_catch m h w = (case m w of (Inl e, w') \<Rightarrow> h e w' | (Inr x, w') \<Rightarrow> (Inr x, w'))"

text \<open>
  How \<^verbatim>\<open>console.error(prefix, error)\<close> prints the thrown value: of an \<^verbatim>\<open>Error\<close>, the
  first line of what the runtime prints, its name and message; the lines of the stack
  that follow are not modelled.
\<close>

definition render :: "thrown \<Rightarrow> string" where
  "render e = (case e of Error m \<Rightarrow> ''Error: '' @ m | NonError s \<Rightarrow> s)"

definition console_error :: "string \<Rightarrow> unit io" where
  "console_error line w = (Inr (), w\<lparr>stderr := stderr w @ [line]\<rparr>)"

definition console_lines :: "string list \<Rightarrow> unit io" where
  "console_lines lines w = (Inr (), w\<lparr>stderr := stderr w @ lines\<rparr>)"

section \<open>utils/http.ts\<close>

text \<open>
  \<open>fetchWithUserAgent\<close>: a network failure throws; a response whose status is not in
  200 to 299 throws an \<^verbatim>\<open>Error\<close> naming the URL and the status; otherwise the body
  is returned.
\<close>

definition fetchWithUserAgent :: "string \<Rightarrow> body io" where
  "fetchWithUserAgent u w =
     (let w' = w\<lparr>requests := requests w @ [u]\<rparr> in
      case web w u of
        NetworkFailure e \<Rightarrow> (Inl e, w')
      | Response status statusText b \<Rightarrow>
          if \<not> (200 \<le> status \<and> status \<le> 299)
          then (Inl (Error (''Failed to fetch '' @ u @ '': '' @ show_nat status @ '' '' @ statusText)), w')
          else (Inr b, w'))"

section \<open>features/scrape/occto/scraper.ts\<close>

definition JSON_URL :: string where
  "JSON_URL = ''https://www.occto.or.jp/_include/json/news-list.json''"

definition OCCTO_BASE_URL :: string where
  "OCCTO_BASE_URL = ''https://www.occto.or.jp''"

definition TARGET_CATEGORY_ID :: string where
  "TARGET_CATEGORY_ID = ''50''"

definition TARGET_CATEGORY_PARENT_ID :: string where
  "TARGET_CATEGORY_PARENT_ID = ''0''"

text \<open>The category filter of \<open>parseNewsJson\<close> (lines 32 to 38).\<close>

definition filteredItems :: "OcctoNewsItem list \<Rightarrow> OcctoNewsItem list" where
  "filteredItems newsItems =
     filter (\<lambda>item. list_ex (\<lambda>cat. cat_id cat = TARGET_CATEGORY_ID \<and>
                                    parent_id cat = TARGET_CATEGORY_PARENT_ID)
                             (categories item))
            newsItems"

text \<open>
  The three target months (lines 46 to 56). \<open>currentMonth\<close> is a value of
  \<^verbatim>\<open>getMonth()\<close>, from 0 to 11, so \<^verbatim>\<open>Math.floor(x / 12)\<close> and \<^verbatim>\<open>x % 12\<close> are taken
  of numbers that are not negative, where they are \<open>div\<close> and \<open>mod\<close>.
\<close>

definition targetMonths :: "int \<Rightarrow> int \<Rightarrow> (int \<times> int) list" where
  "targetMonths currentYear currentMonth =
     [(currentYear, currentMonth),
      (currentYear + (currentMonth + 1) div 12, (currentMonth + 1) mod 12),
      (currentYear + (currentMonth + 2) div 12, (currentMonth + 2) mod 12)]"

text \<open>
  The test of the date filter (lines 59 to 65) on the year and month of an item. An
  invalid date has \<^verbatim>\<open>NaN\<close> for both, which is equal to nothing.
\<close>

definition in_targets :: "(int \<times> int) list \<Rightarrow> (int \<times> int) option \<Rightarrow> bool" where
  "in_targets targets itemYM =
     (case itemYM of
        None \<Rightarrow> False
      | Some (itemYear, itemMonth) \<Rightarrow>
          list_ex (\<lambda>(year, month). year = itemYear \<and> month = itemMonth) targets)"

definition itemYearMonth :: "world \<Rightarrow> OcctoNewsItem \<Rightarrow> (int \<times> int) option" where
  "itemYearMonth w item = map_option (localYearMonth w) (dateParse w (published_date item))"

definition filteredByDate :: "world \<Rightarrow> OcctoNewsItem list \<Rightarrow> OcctoNewsItem list" where
  "filteredByDate w items =
     (let (currentYear, currentMonth) = localYearMonth w (clock w) in
      filter (\<lambda>item. in_targets (targetMonths currentYear currentMonth) (itemYearMonth w item))
             items)"

text \<open>The URL normalisation and the mapping to entries (lines 69 to 87).\<close>

definition occto_entry :: "OcctoNewsItem \<Rightarrow> string \<times> string" where
  "occto_entry item =
     (title item,
      if startsWith (url item) ''http'' then url item
      else if startsWith (url item) ''/'' then OCCTO_BASE_URL @ url item
      else OCCTO_BASE_URL @ ''/'' @ url item)"

text \<open>
  \<open>parseNewsJson\<close>: a body that is not the feed makes \<^verbatim>\<open>JSON.parse\<close> or the filters
  throw. Whatever the try block throws is thrown again as an \<^verbatim>\<open>Error\<close> with the
  prefixed message.
\<close>

definition parseNewsJson :: "(string \<times> string) list io" where
  "parseNewsJson =
     io_catch
       (io_bind (fetchWithUserAgent JSON_URL) (\<lambda>jsonText.
          (case jsonText of
             FeedJson newsItems \<Rightarrow>
               (\<lambda>w. (Inr (map occto_entry (filteredByDate w (filteredItems newsItems))), w))
           | _ \<Rightarrow> io_throw (Error ''Unexpected token in JSON''))))
       (\<lambda>error.
          (case error of
             Error m \<Rightarrow> io_throw (Error (''Failed to parse OCCTO news JSON: '' @ m))
           | NonError x \<Rightarrow> io_throw (Error ''Failed to parse OCCTO news JSON: Unknown error'')))"

record detail_fields =
  d_name :: string
  d_date :: string
  d_time :: string
  d_agenda :: string

text \<open>The date branch of \<open>parseDetailPage\<close> (lines 118 to 124).\<close>

definition occto_date :: "string \<Rightarrow> string" where
  "occto_date t =
     (case date_re t of
        None \<Rightarrow> []
      | Some (year, month, day) \<Rightarrow>
          (if truthy year \<and> truthy month \<and> truthy day
           then year @ ''-'' @ padStart2 month @ ''-'' @ padStart2 day
           else []))"

text \<open>The time branch (lines 129 to 145).\<close>

definition occto_time :: "string \<Rightarrow> string" where
  "occto_time t =
     (case timeMatch1 t of
        Some (startHour, startMin, endHour, endMin) \<Rightarrow>
          startHour @ JI @ startMin @ FUN @ WAVE @ endHour @ JI @ endMin @ FUN
      | None \<Rightarrow>
        (case timeMatch2 t of
           Some (startHour, startMin, endHour, endMin) \<Rightarrow>
             startHour @ '':'' @ startMin @ WAVE @ endHour @ '':'' @ endMin
         | None \<Rightarrow> t))"

text \<open>\<^verbatim>\<open>items.join("\n")\<close>\<close>

fun join_lines :: "string list \<Rightarrow> string" where
  "join_lines [] = []"
| "join_lines [x] = x"
| "join_lines (x # y # ys) = x @ [CHR 0x0A] @ join_lines (y # ys)"

text \<open>The body of the try block of \<open>parseDetailPage\<close>, after the page is loaded.\<close>

definition occto_parse_dom :: "detail_dom \<Rightarrow> detail_fields" where
  "occto_parse_dom pg =
     \<lparr>d_name = h1_text pg,
      d_date = (if truthy (dateTimeText pg) then occto_date (dateTimeText pg) else []),
      d_time = (if truthy (dateTimeText pg) then occto_time (dateTimeText pg) else []),
      d_agenda = (if length (agendaItems pg) > 0 then join_lines (agendaItems pg) else [])\<rparr>"

text \<open>
  What the selectors find in a body: in a page that is not an OCCTO detail page they find
  nothing.
\<close>

definition occto_load :: "body \<Rightarrow> detail_dom" where
  "occto_load b =
     (case b of
        OcctoDetailHtml pg \<Rightarrow> pg
      | _ \<Rightarrow> \<lparr>h1_text = [], dateTimeText = [], agendaItems = []\<rparr>)"

definition occto_parseDetailPage :: "string \<Rightarrow> detail_fields io" where
  "occto_parseDetailPage u =
     io_catch
       (io_bind (fetchWithUserAgent u) (\<lambda>html. io_return (occto_parse_dom (occto_load html))))
       (\<lambda>error.
          io_bind (console_error (''Failed to parse detail page '' @ u @ '': '' @ render error))
            (\<lambda>_. io_return \<lparr>d_name = [], d_date = [], d_time = [], d_agenda = []\<rparr>))"

text \<open>The loop of \<open>scrapeMeetings\<close> (lines 182 to 203), with the list built so far.\<close>

fun occto_loop :: "(string \<times> string) list \<Rightarrow> MeetingData list \<Rightarrow> MeetingData list io" where
  "occto_loop [] meetings w = (Inr meetings, w)"
| "occto_loop (entry # entries) meetings w =
     (case occto_parseDetailPage (snd entry) w of
        (Inl e, w') \<Rightarrow> (Inl e, w')
      | (Inr d, w') \<Rightarrow>
          if \<not> truthy (d_date d) then occto_loop entries meetings w'
          else occto_loop entries
                 (meetings @ [\<lparr>name = d_name d, date = d_date d, time = d_time d,
                               agenda = d_agenda d, detailUrl = snd entry\<rparr>]) w')"

definition occto_scrapeMeetings :: "MeetingData list io" where
  "occto_scrapeMeetings = io_bind parseNewsJson (\<lambda>entries. occto_loop entries [])"

section \<open>features/scrape/meti/scraper.ts\<close>

definition METI_BASE_URL :: string where
  "METI_BASE_URL = ''https://wwws.meti.go.jp/interface/honsho/committee/index.cgi''"

definition LIST_URL :: string where
  "LIST_URL = METI_BASE_URL @ ''/committee''"

text \<open>
  \<open>parseDate\<close>: the text itself is returned when the pattern does not match, and a
  warning is written then; \<open>parseDate_warning\<close> gives the lines that a call writes.
\<close>

definition parseDate :: "string \<Rightarrow> string" where
  "parseDate dateStr =
     (case date_re dateStr of
        None \<Rightarrow> dateStr
      | Some (year, month, day) \<Rightarrow>
          (if \<not> truthy year \<or> \<not> truthy month \<or> \<not> truthy day then dateStr
           else year @ ''-'' @ padStart2 month @ ''-'' @ padStart2 day))"

definition parseDate_warning :: "string \<Rightarrow> string list" where
  "parseDate_warning dateStr =
     (case date_re dateStr of
        None \<Rightarrow> [''Failed to parse date: '' @ dateStr]
      | Some (year, month, day) \<Rightarrow>
          (if \<not> truthy year \<or> \<not> truthy month \<or> \<not> truthy day
           then [''Failed to parse date: '' @ dateStr]
           else []))"

text \<open>
  \<open>parseListPage\<close>: one entry (name, date, detail URL) per row that has all three texts;
  \<open>parseListPage_warnings\<close> gives the lines that its calls of \<open>parseDate\<close> write.
\<close>

fun parseListPage :: "list_row list \<Rightarrow> (string \<times> string \<times> string) list" where
  "parseListPage [] = []"
| "parseListPage (row # rows) =
     (case href row of
        None \<Rightarrow> parseListPage rows
      | Some h \<Rightarrow>
          if truthy (linkText row) \<and> truthy h \<and> truthy (dateText row)
          then (linkText row, parseDate (dateText row),
                if startsWith h ''http'' then h
                else if startsWith h ''/'' then ''https://wwws.meti.go.jp'' @ h
                else METI_BASE_URL @ ''/'' @ h) # parseListPage rows
          else parseListPage rows)"

fun parseListPage_warnings :: "list_row list \<Rightarrow> string list" where
  "parseListPage_warnings [] = []"
| "parseListPage_warnings (row # rows) =
     (case href row of
        None \<Rightarrow> parseListPage_warnings rows
      | Some h \<Rightarrow>
          if truthy (linkText row) \<and> truthy h \<and> truthy (dateText row)
          then parseDate_warning (dateText row) @ parseListPage_warnings rows
          else parseListPage_warnings rows)"

definition meti_load_list :: "body \<Rightarrow> list_row list" where
  "meti_load_list b = (case b of MetiListHtml rows \<Rightarrow> rows | _ \<Rightarrow> [])"

definition meti_parseDetailPage :: "string \<Rightarrow> (string \<times> string) io" where
  "meti_parseDetailPage u =
     io_catch
       (io_bind (fetchWithUserAgent u) (\<lambda>html.
          io_return (case html of MetiDetailHtml t a \<Rightarrow> (t, a) | _ \<Rightarrow> ([], []))))
       (\<lambda>error.
          io_bind (console_error (''Failed to parse detail page '' @ u @ '': '' @ render error))
            (\<lambda>_. io_return ([], [])))"

text \<open>The loop of \<open>scrapeMeetings\<close> (lines 154 to 169): every entry is kept.\<close>

fun meti_loop ::
  "(string \<times> string \<times> string) list \<Rightarrow> MeetingData list \<Rightarrow> MeetingData list io" where
  "meti_loop [] meetings w = (Inr meetings, w)"
| "meti_loop (entry # entries) meetings w =
     (case meti_parseDetailPage (snd (snd entry)) w of
        (Inl e, w') \<Rightarrow> (Inl e, w')
      | (Inr ta, w') \<Rightarrow>
          meti_loop entries
            (meetings @ [\<lparr>name = fst entry, date = fst (snd entry), time = fst ta,
                          agenda = snd ta, detailUrl = snd (snd entry)\<rparr>]) w')"

definition meti_scrapeMeetings :: "MeetingData list io" where
  "meti_scrapeMeetings =
     io_bind (fetchWithUserAgent LIST_URL) (\<lambda>listHtml.
     io_bind (console_lines (parseListPage_warnings (meti_load_list listHtml))) (\<lambda>_.
       meti_loop (parseListPage (meti_load_list listHtml)) []))"

section \<open>The spreadsheet service\<close>

text \<open>
  One request to the spreadsheet service or to the credential service: the next entry of
  the fault schedule decides whether it throws.
\<close>

definition remote :: "'a io \<Rightarrow> 'a io" where
  "remote act w =
     (case faults w of
        [] \<Rightarrow> act w
      | None # fs \<Rightarrow> act (w\<lparr>faults := fs\<rparr>)
      | Some e # fs \<Rightarrow> (Inl e, w\<lparr>faults := fs\<rparr>))"

text \<open>
  The requests the editor makes, on a spreadsheet that is a map from titles to rows.
  \<^item> \<^verbatim>\<open>spreadsheets.get\<close> gives the titles of the tabs.
  \<^item> \<^verbatim>\<open>spreadsheets.batchUpdate\<close> with \<^verbatim>\<open>addSheet\<close> creates an empty tab; a title
    that exists is refused.
  \<^item> \<^verbatim>\<open>values.get\<close> of \<^verbatim>\<open>A2:E\<close> gives the rows from row 2 on, five columns of each.
  \<^item> \<^verbatim>\<open>values.update\<close> of the row range \<^verbatim>\<open>A<k>:...<k>\<close> writes the given cells from
    column A on and leaves the cells to their right; rows up to \<open>k\<close> come into being.
  \<^item> \<^verbatim>\<open>values.append\<close> adds a row after the last one.
  A request that names a tab that does not exist is refused.
\<close>

definition api_spreadsheets_get :: "string \<Rightarrow> (string \<Rightarrow> bool) io" where
  "api_spreadsheets_get spreadsheetId = remote (\<lambda>w. (Inr (\<lambda>t. sheets w t \<noteq> None), w))"

definition api_addSheet :: "string \<Rightarrow> string \<Rightarrow> unit io" where
  "api_addSheet spreadsheetId t =
     remote (\<lambda>w. case sheets w t of
                    Some rows \<Rightarrow> (Inl (Error (''A sheet with the name '' @ t @ '' already exists'')), w)
                  | None \<Rightarrow> (Inr (), w\<lparr>sheets := (sheets w)(t \<mapsto> [])\<rparr>))"

definition write_row :: "string list list \<Rightarrow> nat \<Rightarrow> string list \<Rightarrow> string list list" where
  "write_row rows i cells =
     (let rows' = rows @ replicate (Suc i - length rows) [] in
      rows'[i := cells @ drop (length cells) (rows' ! i)])"

definition api_values_update :: "string \<Rightarrow> string \<Rightarrow> nat \<Rightarrow> string list \<Rightarrow> unit io" where
  "api_values_update spreadsheetId t k cells =
     remote (\<lambda>w. case sheets w t of
                    None \<Rightarrow> (Inl (Error (''Unable to parse range: '' @ t)), w)
                  | Some rows \<Rightarrow>
                      if k = 0 then (Inl (Error (''Unable to parse range: '' @ t)), w)
                      else (Inr (), w\<lparr>sheets := (sheets w)(t \<mapsto> write_row rows (k - 1) cells)\<rparr>))"

definition api_values_append :: "string \<Rightarrow> string \<Rightarrow> string list \<Rightarrow> unit io" where
  "api_values_append spreadsheetId t cells =
     remote (\<lambda>w. case sheets w t of
                    None \<Rightarrow> (Inl (Error (''Unable to parse range: '' @ t)), w)
                  | Some rows \<Rightarrow> (Inr (), w\<lparr>sheets := (sheets w)(t \<mapsto> rows @ [cells])\<rparr>))"

definition api_values_get_A2E :: "string \<Rightarrow> string \<Rightarrow> string list list io" where
  "api_values_get_A2E spreadsheetId t =
     remote (\<lambda>w. case sheets w t of
                    None \<Rightarrow> (Inl (Error (''Unable to parse range: '' @ t)), w)
                  | Some rows \<Rightarrow> (Inr (map (take 5) (drop 1 rows)), w))"

section \<open>features/sheets/editor.ts\<close>

definition getSpreadsheetId :: "string io" where
  "getSpreadsheetId w =
     (case SPREADSHEET_ID w of
        None \<Rightarrow> (Inl (Error ''SPREADSHEET_ID is not set''), w)
      | Some s \<Rightarrow> if \<not> truthy s then (Inl (Error ''SPREADSHEET_ID is not set''), w)
                  else (Inr s, w))"

text \<open>\<open>getSheetsClient\<close>: obtaining the credentials is one request, which may throw.\<close>

definition getSheetsClient :: "unit io" where
  "getSheetsClient = remote (io_return ())"

definition getExistingData :: "string \<Rightarrow> string list list io" where
  "getExistingData sheetName =
     io_catch
       (io_bind getSpreadsheetId (\<lambda>spreadsheetId.
          api_values_get_A2E spreadsheetId sheetName))
       (\<lambda>error.
          io_bind (console_error (''Failed to get existing data: '' @ render error))
            (\<lambda>_. io_return []))"

definition MAIN_HEADER :: "string list" where
  "MAIN_HEADER =
     [[CHR 0xE5, CHR 0xAF, CHR 0xA9, CHR 0xE8, CHR 0xAD, CHR 0xB0, CHR 0xE4, CHR 0xBC, CHR 0x9A,
       CHR 0xE5, CHR 0x90, CHR 0x8D],
      [CHR 0xE9, CHR 0x96, CHR 0x8B, CHR 0xE5, CHR 0x82, CHR 0xAC, CHR 0xE6, CHR 0x97, CHR 0xA5],
      [CHR 0xE9, CHR 0x96, CHR 0x8B, CHR 0xE5, CHR 0x82, CHR 0xAC, CHR 0xE6, CHR 0x99, CHR 0x82,
       CHR 0xE9, CHR 0x96, CHR 0x93],
      [CHR 0xE8, CHR 0xAD, CHR 0xB0, CHR 0xE9, CHR 0xA1, CHR 0x8C],
      [CHR 0xE8, CHR 0xA9, CHR 0xB3, CHR 0xE7, CHR 0xB4, CHR 0xB0] @ ''URL'']"

definition HISTORY_HEADER :: "string list" where
  "HISTORY_HEADER =
     [[CHR 0xE5, CHR 0xAE, CHR 0x9F, CHR 0xE8, CHR 0xA1, CHR 0x8C, CHR 0xE6, CHR 0x97, CHR 0xA5,
       CHR 0xE6, CHR 0x99, CHR 0x82],
      [CHR 0xE3, CHR 0x82, CHR 0xB9, CHR 0xE3, CHR 0x83, CHR 0x86, CHR 0xE3, CHR 0x83, CHR 0xBC,
       CHR 0xE3, CHR 0x82, CHR 0xBF, CHR 0xE3, CHR 0x82, CHR 0xB9],
      [CHR 0xE5, CHR 0x87, CHR 0xA6, CHR 0xE7, CHR 0x90, CHR 0x86, CHR 0xE4, CHR 0xBB, CHR 0xB6,
       CHR 0xE6, CHR 0x95, CHR 0xB0],
      [CHR 0xE3, CHR 0x82, CHR 0xA8, CHR 0xE3, CHR 0x83, CHR 0xA9, CHR 0xE3, CHR 0x83, CHR 0xBC,
       CHR 0xE8, CHR 0xA9, CHR 0xB3, CHR 0xE7, CHR 0xB4, CHR 0xB0]]"

text \<open>
  \<open>ensureMainSheetExists\<close> and \<open>ensureHistorySheetExists\<close> differ in the header they write
  only. Whatever the try block throws is written to the diagnostic output and not thrown
  again.
\<close>

definition ensureSheetExists :: "string list \<Rightarrow> string \<Rightarrow> string \<Rightarrow> unit io" where
  "ensureSheetExists header what sheetName =
     io_catch
       (io_bind getSpreadsheetId (\<lambda>spreadsheetId.
        io_bind (api_spreadsheets_get spreadsheetId) (\<lambda>titles.
          if \<not> titles sheetName
          then io_bind getSpreadsheetId (\<lambda>spreadsheetId.
               io_bind (api_addSheet spreadsheetId sheetName) (\<lambda>_.
               io_bind getSpreadsheetId (\<lambda>spreadsheetId.
               api_values_update spreadsheetId sheetName 1 header)))
          else io_return ())))
       (\<lambda>error. console_error (''Failed to ensure '' @ what @ '' sheet exists: '' @ render error))"

definition ensureMainSheetExists :: "string \<Rightarrow> unit io" where
  "ensureMainSheetExists = ensureSheetExists MAIN_HEADER ''main''"

definition ensureHistorySheetExists :: "string \<Rightarrow> unit io" where
  "ensureHistorySheetExists = ensureSheetExists HISTORY_HEADER ''history''"

text \<open>\<^verbatim>\<open>row[i]\<close>, which is \<^verbatim>\<open>undefined\<close> (\<open>None\<close>) beyond the end of the row.\<close>

definition cell :: "string list \<Rightarrow> nat \<Rightarrow> string option" where
  "cell row i = (if i < length row then Some (row ! i) else None)"

text \<open>
  The \<^verbatim>\<open>forEach\<close> that fills the map \<open>urlToRowIndex\<close> (lines 114 to 120): the rows in
  order, \<open>index\<close> counting from 0; a row whose fifth cell is missing or empty sets nothing.
\<close>

fun fill_urlToRowIndex ::
  "string list list \<Rightarrow> nat \<Rightarrow> (string \<rightharpoonup> nat) \<Rightarrow> (string \<rightharpoonup> nat)" where
  "fill_urlToRowIndex [] index m = m"
| "fill_urlToRowIndex (row # rows) index m =
     fill_urlToRowIndex rows (Suc index)
       (case cell row 4 of
          None \<Rightarrow> m
        | Some u \<Rightarrow> if truthy u then m(u \<mapsto> index + 2) else m)"

definition urlToRowIndex :: "string list list \<Rightarrow> (string \<rightharpoonup> nat)" where
  "urlToRowIndex existingData = fill_urlToRowIndex existingData 0 Map.empty"

definition rowData :: "MeetingData \<Rightarrow> string list" where
  "rowData meeting = [name meeting, date meeting, time meeting, agenda meeting, detailUrl meeting]"

text \<open>
  The write loop (lines 126 to 162), with the two counters. The map is the one built
  before the loop.
\<close>

fun upsert_loop ::
  "(string \<rightharpoonup> nat) \<Rightarrow> string \<Rightarrow> MeetingData list \<Rightarrow> nat \<times> nat \<Rightarrow> (nat \<times> nat) io" where
  "upsert_loop m sheetName [] (updated, inserted) w = (Inr (updated, inserted), w)"
| "upsert_loop m sheetName (meeting # meetings) (updated, inserted) w =
     (case m (detailUrl meeting) of
        Some existingRowIndex \<Rightarrow>
          (case io_bind getSpreadsheetId (\<lambda>spreadsheetId.
                  api_values_update spreadsheetId sheetName existingRowIndex (rowData meeting)) w of
             (Inl e, w') \<Rightarrow> (Inl e, w')
           | (Inr _, w') \<Rightarrow> upsert_loop m sheetName meetings (updated + 1, inserted) w')
      | None \<Rightarrow>
          (case io_bind getSpreadsheetId (\<lambda>spreadsheetId.
                  api_values_append spreadsheetId sheetName (rowData meeting)) w of
             (Inl e, w') \<Rightarrow> (Inl e, w')
           | (Inr _, w') \<Rightarrow> upsert_loop m sheetName meetings (updated, inserted + 1) w'))"

text \<open>\<open>upsertMeetings\<close> returns the pair (updated, inserted).\<close>

definition upsertMeetings :: "MeetingData list \<Rightarrow> string \<Rightarrow> (nat \<times> nat) io" where
  "upsertMeetings meetings sheetName =
     io_bind getSheetsClient (\<lambda>_.
     io_bind (ensureMainSheetExists sheetName) (\<lambda>_.
     io_bind (getExistingData sheetName) (\<lambda>existingData.
       upsert_loop (urlToRowIndex existingData) sheetName meetings (0, 0))))"

datatype status = Success | Failure

definition status_text :: "status \<Rightarrow> string" where
  "status_text st =
     (case st of
        Success \<Rightarrow> [CHR 0xE6, CHR 0x88, CHR 0x90, CHR 0xE5, CHR 0x8A, CHR 0x9F]
      | Failure \<Rightarrow> [CHR 0xE5, CHR 0xA4, CHR 0xB1, CHR 0xE6, CHR 0x95, CHR 0x97])"

text \<open>\<^verbatim>\<open>s.replace("T", " ")\<close>: the first \<^verbatim>\<open>T\<close> only.\<close>

fun replace_T :: "string \<Rightarrow> string" where
  "replace_T [] = []"
| "replace_T (c # cs) = (if c = CHR ''T'' then CHR '' '' # cs else c # replace_T cs)"

definition timestamp :: "world \<Rightarrow> string" where
  "timestamp w = take 19 (replace_T (toISOString w (add_ms (9 * 60 * 60 * 1000) (clock w))))"

text \<open>The try block of \<open>logExecution\<close> (lines 227 to 247).\<close>

definition logExecution_try :: "string \<Rightarrow> status \<Rightarrow> string \<Rightarrow> string \<Rightarrow> unit io" where
  "logExecution_try sheetName st processedCount errorDetail =
     io_bind getSheetsClient (\<lambda>_.
     io_bind (ensureHistorySheetExists sheetName) (\<lambda>_.
     io_bind (\<lambda>w. (Inr (timestamp w), w)) (\<lambda>ts.
     io_bind getSpreadsheetId (\<lambda>spreadsheetId.
       api_values_append spreadsheetId sheetName
         [ts, status_text st, processedCount, errorDetail]))))"

definition logExecution :: "string \<Rightarrow> status \<Rightarrow> string \<Rightarrow> string \<Rightarrow> unit io" where
  "logExecution sheetName st processedCount errorDetail =
     io_catch (logExecution_try sheetName st processedCount errorDetail)
       (\<lambda>error. console_error (''Failed to log execution: '' @ render error))"

section \<open>index.ts, the two-source orchestrator\<close>

definition METI_SHEET_NAME :: string where
  "METI_SHEET_NAME =
     [CHR 0xE7, CHR 0xB5, CHR 0x8C, CHR 0xE6, CHR 0xB8, CHR 0x88, CHR 0xE7, CHR 0x94, CHR 0xA3,
      CHR 0xE6, CHR 0xA5, CHR 0xAD, CHR 0xE7, CHR 0x9C, CHR 0x81]"

definition HISTORY_SUFFIX :: string where
  "HISTORY_SUFFIX =
     ''_'' @ [CHR 0xE5, CHR 0xAE, CHR 0x9F, CHR 0xE8, CHR 0xA1, CHR 0x8C, CHR 0xE5, CHR 0xB1,
              CHR 0xA5, CHR 0xE6, CHR 0xAD, CHR 0xB4]"

definition METI_HISTORY_SHEET_NAME :: string where
  "METI_HISTORY_SHEET_NAME = METI_SHEET_NAME @ HISTORY_SUFFIX"

definition OCCTO_SHEET_NAME :: string where
  "OCCTO_SHEET_NAME =
     [CHR 0xE9, CHR 0x9B, CHR 0xBB, CHR 0xE5, CHR 0x8A, CHR 0x9B, CHR 0xE5, CHR 0xBA, CHR 0x83,
      CHR 0xE5, CHR 0x9F, CHR 0x9F, CHR 0xE7, CHR 0x9A, CHR 0x84, CHR 0xE9, CHR 0x81, CHR 0x8B,
      CHR 0xE5, CHR 0x96, CHR 0xB6, CHR 0xE6, CHR 0x8E, CHR 0xA8, CHR 0xE9, CHR 0x80, CHR 0xB2,
      CHR 0xE6, CHR 0xA9, CHR 0x9F, CHR 0xE9, CHR 0x96, CHR 0xA2]"

definition OCCTO_HISTORY_SHEET_NAME :: string where
  "OCCTO_HISTORY_SHEET_NAME = OCCTO_SHEET_NAME @ HISTORY_SUFFIX"

definition KEN :: string where \<comment> \<open>U+4EF6, the counter for items\<close>
  "KEN = [CHR 0xE4, CHR 0xBB, CHR 0xB6]"

text \<open>The summary \<^verbatim>\<open>processedCount\<close> of a run that wrote rows.\<close>

definition processedCount :: "nat \<Rightarrow> nat \<Rightarrow> string" where
  "processedCount updated inserted =
     [CHR 0xE6, CHR 0x9B, CHR 0xB4, CHR 0xE6, CHR 0x96, CHR 0xB0] @ show_nat updated @ KEN @
     [CHR 0xE3, CHR 0x80, CHR 0x81, CHR 0xE6, CHR 0x96, CHR 0xB0, CHR 0xE8, CHR 0xA6, CHR 0x8F] @
     show_nat inserted @ KEN"

text \<open>
  One source inside the try block of \<open>main\<close>: scrape; log success with a count of zero
  when nothing was found, else upsert and log success with the counts.
\<close>

definition run_source ::
  "MeetingData list io \<Rightarrow> string \<Rightarrow> string \<Rightarrow> string \<Rightarrow> unit io" where
  "run_source scrape label mainSheet historySheet =
     io_bind scrape (\<lambda>meetings.
       if length meetings = 0
       then io_bind (console_error
                       ([CHR 0xE2, CHR 0x9A, CHR 0xA0, CHR 0xEF, CHR 0xB8, CHR 0x8F] @
                        '' No '' @ label @ '' meetings found''))
              (\<lambda>_. logExecution historySheet Success (''0'' @ KEN) ''-'')
       else io_bind (upsertMeetings meetings mainSheet) (\<lambda>(updated, inserted).
              logExecution historySheet Success (processedCount updated inserted) ''-''))"

definition main_try :: "unit io" where
  "main_try =
     io_bind (run_source meti_scrapeMeetings ''METI'' METI_SHEET_NAME METI_HISTORY_SHEET_NAME)
       (\<lambda>_. run_source occto_scrapeMeetings ''OCCTO'' OCCTO_SHEET_NAME OCCTO_HISTORY_SHEET_NAME)"

definition errorMessage :: "thrown \<Rightarrow> string" where
  "errorMessage e = (case e of Error m \<Rightarrow> m | NonError s \<Rightarrow> s)"

text \<open>The catch block of \<open>main\<close> (lines 130 to 145), up to \<^verbatim>\<open>process.exit(1)\<close>.\<close>

definition main_catch :: "thrown \<Rightarrow> unit io" where
  "main_catch error =
     io_bind (console_error ([CHR 0x0A, CHR 0xE2, CHR 0x9D, CHR 0x8C] @ '' Scraping failed!'')) (\<lambda>_.
     io_bind (console_error (''Error details: '' @ render error)) (\<lambda>_.
       io_catch
         (io_bind (logExecution METI_HISTORY_SHEET_NAME Failure (errorMessage error) ''-'') (\<lambda>_.
            logExecution OCCTO_HISTORY_SHEET_NAME Failure (errorMessage error) ''-''))
         (\<lambda>logError.
            console_error (''Failed to log error to history sheets: '' @ render logError))))"

text \<open>
  \<open>main\<close>: the exit status of the process and the state it leaves. The status is 0 when
  the try block ends; the catch block ends in \<^verbatim>\<open>process.exit(1)\<close>.
\<close>

definition main :: "world \<Rightarrow> nat \<times> world" where
  "main w =
     (case main_try w of
        (Inr _, w') \<Rightarrow> (0, w')
      | (Inl error, w') \<Rightarrow> (1, snd (main_catch error w')))"

section \<open>Notions used in the statements\<close>

text \<open>The environment variable \<open>SPREADSHEET_ID\<close> is set to a string that is not empty.\<close>

definition configured :: "world \<Rightarrow> bool" where
  "configured w = (case SPREADSHEET_ID w of None \<Rightarrow> False | Some s \<Rightarrow> truthy s)"

text \<open>
  The spreadsheet service is in order: the environment variable is set and no coming
  request is scheduled to fail.
\<close>

definition healthy :: "world \<Rightarrow> bool" where
  "healthy w = (configured w \<and> faults w = [])"

text \<open>The row at a 1-based row index of a tab's rows.\<close>

definition row_at :: "string list list \<Rightarrow> nat \<Rightarrow> string list option" where
  "row_at rows k = (if 1 \<le> k \<and> k \<le> length rows then Some (rows ! (k - 1)) else None)"

text \<open>The rows of the data region that carry a URL in their fifth cell.\<close>

definition carries :: "string \<Rightarrow> string list \<Rightarrow> bool" where
  "carries u row = (cell row 4 = Some u)"

text \<open>
  What the write loop does to the rows of the tab when every request goes through: the
  records in order, each written over the row that the map gives or added at the end.
\<close>

fun apply_writes ::
  "(string \<rightharpoonup> nat) \<Rightarrow> string list list \<Rightarrow> MeetingData list \<Rightarrow> string list list" where
  "apply_writes m rows [] = rows"
| "apply_writes m rows (x # xs) =
     apply_writes m
       (case m (detailUrl x) of
          Some k \<Rightarrow> write_row rows (k - Suc 0) (rowData x)
        | None \<Rightarrow> rows @ [rowData x]) xs"

text \<open>
  A map from URLs to row indices fits the rows of a tab: every index it gives is the
  index of a row below the header, and that row carries the URL.
\<close>

definition fits :: "(string \<rightharpoonup> nat) \<Rightarrow> string list list \<Rightarrow> bool" where
  "fits m rows =
     (\<forall>u k. m u = Some k \<longrightarrow>
        2 \<le> k \<and> k \<le> length rows \<and> carries u (rows ! (k - Suc 0)))"

text \<open>
  An action touches only the tabs \<open>T\<close>: whatever its outcome, it fetches no URL, and it
  leaves the environment, the web, the clock and every tab outside \<open>T\<close> as they were.
\<close>

definition touches_only :: "string set \<Rightarrow> 'a io \<Rightarrow> bool" where
  "touches_only T m =
     (\<forall>w r w'. m w = (r, w') \<longrightarrow>
        requests w' = requests w \<and> web w' = web w \<and> SPREADSHEET_ID w' = SPREADSHEET_ID w \<and>
        clock w' = clock w \<and> toISOString w' = toISOString w \<and>
        (\<forall>t. t \<notin> T \<longrightarrow> sheets w' t = sheets w t))"

text \<open>
  An OCCTO detail page yields a date: the page is fetched and its date/time text matches
  the date pattern.
\<close>

definition occto_dated :: "world \<Rightarrow> string \<Rightarrow> bool" where
  "occto_dated w u =
     (case web w u of
        Response status statusText (OcctoDetailHtml pg) \<Rightarrow>
          200 \<le> status \<and> status \<le> 299 \<and> date_re (dateTimeText pg) \<noteq> None
      | _ \<Rightarrow> False)"

text \<open>
  Strings of digits, as the groups of the patterns capture them, and the two range signs
  that the character class of the time patterns accepts.
\<close>

definition digit_string :: "string \<Rightarrow> bool" where
  "digit_string s = list_all is_digit s"

definition digits_1_or_2 :: "string \<Rightarrow> bool" where
  "digits_1_or_2 s = (digit_string s \<and> (length s = 1 \<or> length s = 2))"

definition digits_n :: "nat \<Rightarrow> string \<Rightarrow> bool" where
  "digits_n n s = (digit_string s \<and> length s = n)"

definition range_sign :: "string \<Rightarrow> bool" where
  "range_sign s = (s = WAVE \<or> s = ''~'')"

text \<open>
  In the text \<open>pre @ rest\<close> the pattern \<open>re\<close> matches at no position inside \<open>pre\<close>, so
  that a match at the start of \<open>rest\<close> is the first match of the text.
\<close>

definition unmatched_before :: "(string \<Rightarrow> 'a option) \<Rightarrow> string \<Rightarrow> string \<Rightarrow> bool" where
  "unmatched_before re pre rest =
     list_all (\<lambda>i. Option.is_none (re (drop i (pre @ rest)))) [0..<length pre]"

section \<open>Example data\<close>

text \<open>The two date/time texts of the specification's examples.\<close>

definition example_glyph_text :: string where
  "example_glyph_text =
     ''2026'' @ NEN @ ''2'' @ GATSU @ ''17'' @ NICHI @
     [CHR 0xEF, CHR 0xBC, CHR 0x88, CHR 0xE7, CHR 0x81, CHR 0xAB, CHR 0xE6, CHR 0x9B, CHR 0x9C,
      CHR 0xE6, CHR 0x97, CHR 0xA5, CHR 0xEF, CHR 0xBC, CHR 0x89] @
     ''18'' @ JI @ ''00'' @ FUN @ WAVE @ ''20'' @ JI @ ''00'' @ FUN"

definition example_colon_text :: string where
  "example_colon_text = ''2026/3/1 15:00'' @ WAVE @ ''17:00''"

text \<open>
  A world for the examples: the environment variable is set, the spreadsheet has no tabs,
  every request goes through, and the web serves the pages of \<open>example_web\<close>. The
  clock reads the midnight of 15 December 2025 in UTC, and local time is UTC, as on the
  server that runs the program.
\<close>

definition example_detail_a :: detail_dom where
  "example_detail_a =
     \<lparr>h1_text = ''Committee A'', dateTimeText = example_glyph_text,
      agendaItems = [''item 1'', ''item 2'']\<rparr>"

definition example_detail_b :: detail_dom where
  "example_detail_b =
     \<lparr>h1_text = ''Committee B'', dateTimeText = example_colon_text, agendaItems = []\<rparr>"

definition example_detail_c :: detail_dom where
  "example_detail_c =
     \<lparr>h1_text = ''Committee C'', dateTimeText = ''to be announced'', agendaItems = []\<rparr>"

definition example_feed :: "OcctoNewsItem list" where
  "example_feed =
     [\<lparr>title = ''A'', published_date = ''2026-01-20'', url = ''/a.html'',
       categories = [\<lparr>cat_id = ''50'', parent_id = ''0''\<rparr>]\<rparr>,
      \<lparr>title = ''C'', published_date = ''2025-12-24'', url = ''https://www.occto.or.jp/c.html'',
       categories = [\<lparr>cat_id = ''7'', parent_id = ''0''\<rparr>, \<lparr>cat_id = ''50'', parent_id = ''0''\<rparr>]\<rparr>,
      \<lparr>title = ''D'', published_date = ''2026-04-10'', url = ''/d.html'',
       categories = [\<lparr>cat_id = ''50'', parent_id = ''0''\<rparr>]\<rparr>]"

definition example_list :: "list_row list" where
  "example_list =
     [\<lparr>dateText = ''2026'' @ NEN @ ''1'' @ GATSU @ ''19'' @ NICHI @ ''(Mon)'',
       linkText = ''Council X'', href = Some ''/interface/x.html''\<rparr>,
      \<lparr>dateText = ''TBD'', linkText = ''Council Y'', href = Some ''y.html''\<rparr>]"

definition example_web :: "string \<Rightarrow> http_response" where
  "example_web u =
     (if u = ''https://www.occto.or.jp/a.html'' then Response 200 ''OK'' (OcctoDetailHtml example_detail_a)
      else if u = ''https://www.occto.or.jp/b.html'' then Response 200 ''OK'' (OcctoDetailHtml example_detail_b)
      else if u = ''https://www.occto.or.jp/c.html'' then Response 200 ''OK'' (OcctoDetailHtml example_detail_c)
      else if u = JSON_URL then Response 200 ''OK'' (FeedJson example_feed)
      else if u = LIST_URL then Response 200 ''OK'' (MetiListHtml example_list)
      else if u = ''https://wwws.meti.go.jp/interface/x.html''
        then Response 200 ''OK'' (MetiDetailHtml ''10:00'' ''budget'')
      else Response 404 ''Not Found'' OtherText)"

definition example_world :: world where
  "example_world =
     \<lparr>SPREADSHEET_ID = Some ''sheet-id'', sheets = Map.empty, faults = [],
      web = example_web, requests = [], stderr = [],
      clock = utc_midnight 2025 12 15,
      toISOString = (\<lambda>t. ''2025-12-15T09:00:00.000Z''),
      parseOther = (\<lambda>s. None), LocalTZA = (\<lambda>t. 0)\<rparr>"



text \<open>
  Further date/time texts: a glyph date with a month and a day of one digit before a
  colon-form range; the same with two ranges; a text with a prefix, an hour of one digit
  and the ASCII range sign. \<open>page_world t\<close> serves a detail page with the text \<open>t\<close> under
  every URL.
\<close>

definition example_short_text :: string where
  "example_short_text =
     ''2026'' @ NEN @ ''3'' @ GATSU @ ''1'' @ NICHI @ '' 15:00'' @ WAVE @ ''17:00''"

definition example_two_ranges_text :: string where
  "example_two_ranges_text =
     ''2026'' @ NEN @ ''3'' @ GATSU @ ''1'' @ NICHI @
     '' 10:00'' @ WAVE @ ''11:00, 15:00'' @ WAVE @ ''17:00''"

definition example_ascii_text :: string where
  "example_ascii_text =
     ''Date: 2026'' @ NEN @ ''12'' @ GATSU @ ''5'' @ NICHI @
     '' 9'' @ JI @ ''30'' @ FUN @ ''~11'' @ JI @ ''00'' @ FUN"

definition page_world :: "string \<Rightarrow> world" where
  "page_world t =
     example_world\<lparr>web := (\<lambda>u. Response 200 ''OK''
        (OcctoDetailHtml \<lparr>h1_text = ''Committee'', dateTimeText = t, agendaItems = []\<rparr>))\<rparr>"

text \<open>Rows and records for the examples of the reconciliation.\<close>

definition example_A :: "string list" where
  "example_A = [''Council A'', ''2026-01-10'', ''10:00'', ''agenda a'', ''https://example.org/a'']"

definition example_B :: "string list" where
  "example_B = [''Council B'', ''2026-01-11'', ''11:00'', ''agenda b'', ''https://example.org/b'']"

definition example_B_again :: "string list" where
  "example_B_again =
     [''Council B, second entry'', ''2026-01-12'', ''12:00'', ''agenda b2'', ''https://example.org/b'']"

definition example_B' :: MeetingData where
  "example_B' =
     \<lparr>name = ''Council B'', date = ''2026-02-01'', time = ''13:00'', agenda = ''new agenda'',
      detailUrl = ''https://example.org/b''\<rparr>"

definition example_C :: MeetingData where
  "example_C =
     \<lparr>name = ''Council C'', date = ''2026-02-02'', time = ''14:00'', agenda = ''agenda c'',
      detailUrl = ''https://example.org/c''\<rparr>"

definition example_no_key :: MeetingData where
  "example_no_key =
     \<lparr>name = ''Council X'', date = ''2026-03-01'', time = [], agenda = [], detailUrl = []\<rparr>"

text \<open>The example world with one tab, under the name of the METI main sheet.\<close>

definition sheet_world :: "string list list \<Rightarrow> world" where
  "sheet_world rows = example_world\<lparr>sheets := [METI_SHEET_NAME \<mapsto> rows]\<rparr>"

text \<open>States in which requests to the spreadsheet service fail.\<close>

definition example_unavailable :: thrown where
  "example_unavailable = Error ''The service is currently unavailable.''"

definition read_fails_world :: world where
  "read_fails_world =
     (sheet_world [MAIN_HEADER, example_A])\<lparr>faults := [None, None, Some example_unavailable]\<rparr>"

definition next_fails_world :: world where
  "next_fails_world = (sheet_world [MAIN_HEADER, example_A])\<lparr>faults := [Some example_unavailable]\<rparr>"

text \<open>States in which the list page of METI is not served.\<close>

definition no_web :: "string \<Rightarrow> http_response" where
  "no_web u = Response 503 ''Service Unavailable'' OtherText"

definition listing_fails_world :: world where
  "listing_fails_world = example_world\<lparr>web := no_web\<rparr>"

text \<open>
  States in which a later step fails: the first request of \<open>upsertMeetings\<close> for METI;
  the news feed of OCCTO; the first request of \<open>upsertMeetings\<close> for OCCTO, which is the
  thirteenth request to the spreadsheet service.
\<close>

definition upsert_fails_world :: world where
  "upsert_fails_world = example_world\<lparr>faults := [Some example_unavailable]\<rparr>"

definition feed_fails_web :: "string \<Rightarrow> http_response" where
  "feed_fails_web u =
     (if u = JSON_URL then Response 503 ''Service Unavailable'' OtherText else example_web u)"

definition feed_fails_world :: world where
  "feed_fails_world = example_world\<lparr>web := feed_fails_web\<rparr>"

definition second_upsert_fails_world :: world where
  "second_upsert_fails_world =
     example_world\<lparr>faults := replicate 12 None @ [Some example_unavailable]\<rparr>"

text \<open>States in which the environment variable \<open>SPREADSHEET_ID\<close> is not set.\<close>

definition unconfigured_world :: world where
  "unconfigured_world = example_world\<lparr>SPREADSHEET_ID := None\<rparr>"

definition unconfigured_sheet_world :: world where
  "unconfigured_sheet_world = (sheet_world [MAIN_HEADER, example_A])\<lparr>SPREADSHEET_ID := None\<rparr>"

section \<open>The date window of the OCCTO feed\<close>
























section \<open>The detail page of the OCCTO scraper\<close>

lemma fetch_ok:
  "web w u = Response s t b \<Longrightarrow> 200 \<le> s \<Longrightarrow> s \<le> 299 \<Longrightarrow>
   fetchWithUserAgent u w = (Inr b, w\<lparr>requests := requests w @ [u]\<rparr>)"
  by (simp add: fetchWithUserAgent_def)

lemma occto_parseDetailPage_ok:
  "web w u = Response s t b \<Longrightarrow> 200 \<le> s \<Longrightarrow> s \<le> 299 \<Longrightarrow>
   occto_parseDetailPage u w =
     (Inr (occto_parse_dom (occto_load b)), w\<lparr>requests := requests w @ [u]\<rparr>)"
  by (simp add: occto_parseDetailPage_def io_catch_def io_bind_def io_return_def fetch_ok)

lemma glyph_date: "occto_date example_glyph_text = ''2026-02-17''"
  by code_simp

lemma glyph_time:
  "occto_time example_glyph_text = ''18'' @ JI @ ''00'' @ FUN @ WAVE @ ''20'' @ JI @ ''00'' @ FUN"
  by code_simp

lemma glyph_truthy: "truthy example_glyph_text"
  by code_simp

lemma occto_time_verbatim:
  "timeMatch1 t = None \<Longrightarrow> timeMatch2 t = None \<Longrightarrow>
   (if truthy t then occto_time t else []) = t"
  by (simp add: occto_time_def truthy_def)

lemma unmatched_before_iff:
  "unmatched_before re pre rest \<longleftrightarrow> (\<forall>i<length pre. re (drop i (pre @ rest)) = None)"
  by (auto simp: unmatched_before_def list_all_iff Option.is_none_def)

lemma search_skip: "unmatched_before re pre rest \<Longrightarrow> search re (pre @ rest) = search re rest"
proof (induction pre)
  case Nil
  then show ?case by simp
next
  case (Cons c cs)
  from Cons.prems have here: "re (c # cs @ rest) = None"
    by (auto simp: unmatched_before_iff dest: spec [of _ 0])
  have "unmatched_before re cs rest"
    unfolding unmatched_before_iff
  proof (intro allI impI)
    fix i
    assume "i < length cs"
    then have "Suc i < length (c # cs)" by simp
    with Cons.prems have "re (drop (Suc i) ((c # cs) @ rest)) = None"
      unfolding unmatched_before_iff by blast
    then show "re (drop i (cs @ rest)) = None" by simp
  qed
  with Cons.IH here show ?case by simp
qed

lemma search_here: "re s = Some r \<Longrightarrow> search re s = Some r"
  by (cases s) simp_all

lemma search_first:
  "unmatched_before re pre rest \<Longrightarrow> re rest = Some r \<Longrightarrow> search re (pre @ rest) = Some r"
  by (simp add: search_skip search_here)

lemma lit_append: "lit p (p @ r) = Some r"
  by (induction p) simp_all

lemma digits_exact_append:
  "digit_string ds \<Longrightarrow> digits_exact (length ds) (ds @ r) = Some (ds, r)"
  by (induction ds) (simp_all add: digit_string_def)

lemma first_some_digits_1_2:
  assumes "digit_string h" and "length h = 1 \<or> length h = 2"
    and "r = [] \<or> \<not> is_digit (hd r)" and "f (h, r) = Some x"
  shows "first_some f (digits_1_2 (h @ r)) = Some x"
  using assms(2)
proof
  assume two: "length h = 2"
  then have "digits_exact (Suc (Suc 0)) (h @ r) = Some (h, r)"
    using digits_exact_append [OF assms(1), of r] by (simp add: numeral_2_eq_2)
  with assms(4) show ?thesis by (simp add: digits_1_2_def split: option.splits)
next
  assume one: "length h = 1"
  then obtain c where h: "h = [c]" by (cases h) auto
  with assms(1) have c: "is_digit c" by (simp add: digit_string_def)
  have none: "digits_exact (Suc (Suc 0)) (h @ r) = None"
    using assms(3) c h by (cases r) auto
  have "digits_exact (Suc 0) (h @ r) = Some (h, r)"
    using c h by simp
  with none assms(4) show ?thesis by (simp add: digits_1_2_def)
qed

lemma not_digit_glyphs [simp]:
  "\<not> is_digit (hd (NEN @ r))" "\<not> is_digit (hd (GATSU @ r))" "\<not> is_digit (hd (NICHI @ r))"
  "\<not> is_digit (hd (JI @ r))" "\<not> is_digit (hd ('':'' @ r))"
  by (simp_all add: NEN_def GATSU_def NICHI_def JI_def is_digit_def)

lemma date_re_here_shape:
  assumes "digit_string y" and "length y = 4"
    and "digit_string m" and "length m = 1 \<or> length m = 2"
    and "digit_string d" and "length d = 1 \<or> length d = 2"
  shows "date_re_here (y @ NEN @ m @ GATSU @ d @ NICHI @ post) = Some (y, m, d)"
proof -
  have y: "digits_exact 4 (y @ NEN @ m @ GATSU @ d @ NICHI @ post) =
      Some (y, NEN @ m @ GATSU @ d @ NICHI @ post)"
    using digits_exact_append [OF assms(1)] assms(2) by simp
  have d: "first_some (\<lambda>(d, s5). case lit NICHI s5 of None \<Rightarrow> None | Some s6 \<Rightarrow> Some (y, m, d))
             (digits_1_2 (d @ NICHI @ post)) = Some (y, m, d)"
    by (rule first_some_digits_1_2 [OF assms(5,6)]) (simp_all add: lit_append)
  have m: "first_some (\<lambda>(m, s3). case lit GATSU s3 of None \<Rightarrow> None | Some s4 \<Rightarrow>
             first_some (\<lambda>(d, s5). case lit NICHI s5 of None \<Rightarrow> None | Some s6 \<Rightarrow> Some (y, m, d))
               (digits_1_2 s4))
             (digits_1_2 (m @ GATSU @ d @ NICHI @ post)) = Some (y, m, d)"
    by (rule first_some_digits_1_2 [OF assms(3,4)]) (simp_all add: lit_append d)
  show ?thesis
    by (simp add: date_re_here_def y lit_append m)
qed

lemma half_range_shape:
  assumes "digit_string h" and "length h = 1 \<or> length h = 2"
    and "digit_string m" and "length m = 2"
    and "\<not> is_digit (hd (hsep @ m @ msuf @ r))" and "k (h, m) r = Some x"
  shows "half_range hsep msuf k (h @ hsep @ m @ msuf @ r) = Some x"
proof -
  have m: "digits_exact 2 (m @ msuf @ r) = Some (m, msuf @ r)"
    using digits_exact_append [OF assms(3)] assms(4) by simp
  show ?thesis
    unfolding half_range_def
    by (rule first_some_digits_1_2 [OF assms(1,2)]) (simp_all add: assms(5,6) lit_append m)
qed

lemma tilde_sign: "range_sign s \<Longrightarrow> tilde (s @ r) = Some r"
  by (auto simp: range_sign_def tilde_def lit_append WAVE_def)

lemma time_re_here_shape:
  assumes "digit_string h1" and "length h1 = 1 \<or> length h1 = 2"
    and "digit_string m1" and "length m1 = 2" and "range_sign sign"
    and "digit_string h2" and "length h2 = 1 \<or> length h2 = 2"
    and "digit_string m2" and "length m2 = 2"
    and "\<And>r. \<not> is_digit (hd (hsep @ r))"
  shows "time_re_here hsep msuf (h1 @ hsep @ m1 @ msuf @ sign @ h2 @ hsep @ m2 @ msuf @ post) =
           Some (h1, m1, h2, m2)"
proof -
  have second: "half_range hsep msuf (\<lambda>(h2, m2) s3. Some (h1, m1, h2, m2))
      (h2 @ hsep @ m2 @ msuf @ post) = Some (h1, m1, h2, m2)"
    by (rule half_range_shape [OF assms(6,7,8,9)]) (simp_all add: assms(10))
  show ?thesis
    unfolding time_re_here_def
    by (rule half_range_shape [OF assms(1,2,3,4)])
      (simp_all add: assms(10) tilde_sign [OF assms(5)] second)
qed

lemma occto_date_shape:
  assumes "digit_string y" and "length y = 4"
    and "digit_string m" and "length m = 1 \<or> length m = 2"
    and "digit_string d" and "length d = 1 \<or> length d = 2"
    and "unmatched_before date_re_here pre (y @ NEN @ m @ GATSU @ d @ NICHI @ post)"
  shows "occto_date (pre @ y @ NEN @ m @ GATSU @ d @ NICHI @ post) =
           y @ ''-'' @ padStart2 m @ ''-'' @ padStart2 d"
proof -
  have "date_re (pre @ y @ NEN @ m @ GATSU @ d @ NICHI @ post) = Some (y, m, d)"
    unfolding date_re_def
    by (rule search_first [OF assms(7)]) (rule date_re_here_shape [OF assms(1-6)])
  moreover have "y \<noteq> []" "m \<noteq> []" "d \<noteq> []" using assms(2,4,6) by auto
  ultimately show ?thesis by (simp add: occto_date_def truthy_def)
qed

lemma occto_time_glyph_shape:
  assumes "digit_string h1" and "length h1 = 1 \<or> length h1 = 2"
    and "digit_string m1" and "length m1 = 2" and "range_sign sign"
    and "digit_string h2" and "length h2 = 1 \<or> length h2 = 2"
    and "digit_string m2" and "length m2 = 2"
    and "unmatched_before (time_re_here JI FUN) pre
           (h1 @ JI @ m1 @ FUN @ sign @ h2 @ JI @ m2 @ FUN @ post)"
  shows "occto_time (pre @ h1 @ JI @ m1 @ FUN @ sign @ h2 @ JI @ m2 @ FUN @ post) =
           h1 @ JI @ m1 @ FUN @ WAVE @ h2 @ JI @ m2 @ FUN"
proof -
  have "timeMatch1 (pre @ h1 @ JI @ m1 @ FUN @ sign @ h2 @ JI @ m2 @ FUN @ post) =
      Some (h1, m1, h2, m2)"
    unfolding timeMatch1_def
    by (rule search_first [OF assms(10)]) (rule time_re_here_shape [OF assms(1-9)], simp)
  then show ?thesis by (simp add: occto_time_def)
qed

lemma occto_time_colon_shape:
  assumes "digit_string h1" and "length h1 = 1 \<or> length h1 = 2"
    and "digit_string m1" and "length m1 = 2" and "range_sign sign"
    and "digit_string h2" and "length h2 = 1 \<or> length h2 = 2"
    and "digit_string m2" and "length m2 = 2"
    and "unmatched_before (time_re_here '':'' []) pre
           (h1 @ '':'' @ m1 @ sign @ h2 @ '':'' @ m2 @ post)"
    and "timeMatch1 (pre @ h1 @ '':'' @ m1 @ sign @ h2 @ '':'' @ m2 @ post) = None"
  shows "occto_time (pre @ h1 @ '':'' @ m1 @ sign @ h2 @ '':'' @ m2 @ post) =
           h1 @ '':'' @ m1 @ WAVE @ h2 @ '':'' @ m2"
proof -
  have here: "time_re_here '':'' [] (h1 @ '':'' @ m1 @ [] @ sign @ h2 @ '':'' @ m2 @ [] @ post) =
      Some (h1, m1, h2, m2)"
    by (rule time_re_here_shape [OF assms(1-9)]) (simp add: is_digit_def)
  have "timeMatch2 (pre @ h1 @ '':'' @ m1 @ sign @ h2 @ '':'' @ m2 @ post) =
      Some (h1, m1, h2, m2)"
    unfolding timeMatch2_def
    by (rule search_first [OF assms(10)]) (use here in simp)
  with assms(11) show ?thesis by (simp add: occto_time_def)
qed


text \<open>
  C5, as stated, fails for a colon-form text that contains the range from 15:00 to 17:00
  after another range: the pattern is matched without the global flag, so the first range
  of the text is the one returned.
\<close>

theorem C5_counterexample:
  "fst (occto_parseDetailPage ''https://www.occto.or.jp/e.html'' (page_world example_two_ranges_text)) =
     Inr \<lparr>d_name = ''Committee'', d_date = ''2026-03-01'',
          d_time = ''10:00'' @ WAVE @ ''11:00'', d_agenda = []\<rparr>"
  by code_simp

text \<open>
  C5, amended. \<open>parseDetailPage\<close> of the OCCTO scraper, on a detail page that was fetched,
  returns, and with \<open>t\<close> the date/time text of the page:
  \<^item> for the text of the specification's first example (the glyph form, 17 February 2026,
    18:00 to 20:00) the date is \<open>2026-02-17\<close> and the time is the range in the glyph form;
  \<^item> when the first match of the date pattern in \<open>t\<close> is a year of four digits, a month
    and a day of one or two digits, each followed by its glyph, the date is the year, the
    month and the day joined by \<open>-\<close>, month and day padded with \<open>0\<close> to two digits;
  \<^item> when the first match of the glyph-form pattern in \<open>t\<close> is a range of two times, the
    time is that range in the glyph form, with the full-width range sign;
  \<^item> when the glyph-form pattern matches nowhere in \<open>t\<close> and the first match of the
    colon-form pattern is a range of two times, the time is that range in the colon form,
    with the full-width range sign: the first range of the text, not any range in it;
  \<^item> when neither time pattern matches, the time is \<open>t\<close> itself.
\<close>

theorem C5_occto_detail_date_time:
  assumes "web w u = Response s st (OcctoDetailHtml pg)" and "200 \<le> s" and "s \<le> 299"
  shows "\<exists>d w'. occto_parseDetailPage u w = (Inr d, w') \<and>
           (dateTimeText pg = example_glyph_text \<longrightarrow>
              d_date d = ''2026-02-17'' \<and>
              d_time d = ''18'' @ JI @ ''00'' @ FUN @ WAVE @ ''20'' @ JI @ ''00'' @ FUN) \<and>
           (\<forall>pre year month day post.
              dateTimeText pg = pre @ year @ NEN @ month @ GATSU @ day @ NICHI @ post \<and>
              digits_n 4 year \<and> digits_1_or_2 month \<and> digits_1_or_2 day \<and>
              unmatched_before date_re_here pre (year @ NEN @ month @ GATSU @ day @ NICHI @ post) \<longrightarrow>
              d_date d = year @ ''-'' @ padStart2 month @ ''-'' @ padStart2 day) \<and>
           (\<forall>pre h1 m1 sign h2 m2 post.
              dateTimeText pg = pre @ h1 @ JI @ m1 @ FUN @ sign @ h2 @ JI @ m2 @ FUN @ post \<and>
              digits_1_or_2 h1 \<and> digits_n 2 m1 \<and> range_sign sign \<and>
              digits_1_or_2 h2 \<and> digits_n 2 m2 \<and>
              unmatched_before (time_re_here JI FUN) pre
                (h1 @ JI @ m1 @ FUN @ sign @ h2 @ JI @ m2 @ FUN @ post) \<longrightarrow>
              d_time d = h1 @ JI @ m1 @ FUN @ WAVE @ h2 @ JI @ m2 @ FUN) \<and>
           (\<forall>pre h1 m1 sign h2 m2 post.
              dateTimeText pg = pre @ h1 @ '':'' @ m1 @ sign @ h2 @ '':'' @ m2 @ post \<and>
              digits_1_or_2 h1 \<and> digits_n 2 m1 \<and> range_sign sign \<and>
              digits_1_or_2 h2 \<and> digits_n 2 m2 \<and>
              unmatched_before (time_re_here '':'' []) pre
                (h1 @ '':'' @ m1 @ sign @ h2 @ '':'' @ m2 @ post) \<and>
              timeMatch1 (dateTimeText pg) = None \<longrightarrow>
              d_time d = h1 @ '':'' @ m1 @ WAVE @ h2 @ '':'' @ m2) \<and>
           (timeMatch1 (dateTimeText pg) = None \<and> timeMatch2 (dateTimeText pg) = None \<longrightarrow>
              d_time d = dateTimeText pg)"
proof -
  let ?d = "occto_parse_dom pg"
  let ?t = "dateTimeText pg"
  have run: "occto_parseDetailPage u w = (Inr ?d, w\<lparr>requests := requests w @ [u]\<rparr>)"
    using assms by (simp add: occto_parseDetailPage_ok occto_load_def)
  have a: "?t = example_glyph_text \<longrightarrow>
             d_date ?d = ''2026-02-17'' \<and>
             d_time ?d = ''18'' @ JI @ ''00'' @ FUN @ WAVE @ ''20'' @ JI @ ''00'' @ FUN"
    using glyph_date glyph_time glyph_truthy by (simp add: occto_parse_dom_def)
  have b: "\<forall>pre year month day post.
              ?t = pre @ year @ NEN @ month @ GATSU @ day @ NICHI @ post \<and>
              digits_n 4 year \<and> digits_1_or_2 month \<and> digits_1_or_2 day \<and>
              unmatched_before date_re_here pre (year @ NEN @ month @ GATSU @ day @ NICHI @ post) \<longrightarrow>
              d_date ?d = year @ ''-'' @ padStart2 month @ ''-'' @ padStart2 day"
  proof (intro allI impI)
    fix pre year month day post
    assume h: "?t = pre @ year @ NEN @ month @ GATSU @ day @ NICHI @ post \<and>
              digits_n 4 year \<and> digits_1_or_2 month \<and> digits_1_or_2 day \<and>
              unmatched_before date_re_here pre (year @ NEN @ month @ GATSU @ day @ NICHI @ post)"
    then have "truthy ?t" by (auto simp: truthy_def digits_n_def)
    moreover have "occto_date (pre @ year @ NEN @ month @ GATSU @ day @ NICHI @ post) =
        year @ ''-'' @ padStart2 month @ ''-'' @ padStart2 day"
      using h by (intro occto_date_shape) (simp_all add: digits_n_def digits_1_or_2_def)
    ultimately show "d_date ?d = year @ ''-'' @ padStart2 month @ ''-'' @ padStart2 day"
      using h by (simp add: occto_parse_dom_def)
  qed
  have c: "\<forall>pre h1 m1 sign h2 m2 post.
              ?t = pre @ h1 @ JI @ m1 @ FUN @ sign @ h2 @ JI @ m2 @ FUN @ post \<and>
              digits_1_or_2 h1 \<and> digits_n 2 m1 \<and> range_sign sign \<and>
              digits_1_or_2 h2 \<and> digits_n 2 m2 \<and>
              unmatched_before (time_re_here JI FUN) pre
                (h1 @ JI @ m1 @ FUN @ sign @ h2 @ JI @ m2 @ FUN @ post) \<longrightarrow>
              d_time ?d = h1 @ JI @ m1 @ FUN @ WAVE @ h2 @ JI @ m2 @ FUN"
  proof (intro allI impI)
    fix pre h1 m1 sign h2 m2 post
    assume h: "?t = pre @ h1 @ JI @ m1 @ FUN @ sign @ h2 @ JI @ m2 @ FUN @ post \<and>
              digits_1_or_2 h1 \<and> digits_n 2 m1 \<and> range_sign sign \<and>
              digits_1_or_2 h2 \<and> digits_n 2 m2 \<and>
              unmatched_before (time_re_here JI FUN) pre
                (h1 @ JI @ m1 @ FUN @ sign @ h2 @ JI @ m2 @ FUN @ post)"
    then have "truthy ?t" by (auto simp: truthy_def digits_n_def)
    moreover have "occto_time (pre @ h1 @ JI @ m1 @ FUN @ sign @ h2 @ JI @ m2 @ FUN @ post) =
        h1 @ JI @ m1 @ FUN @ WAVE @ h2 @ JI @ m2 @ FUN"
      using h by (intro occto_time_glyph_shape) (simp_all add: digits_n_def digits_1_or_2_def)
    ultimately show "d_time ?d = h1 @ JI @ m1 @ FUN @ WAVE @ h2 @ JI @ m2 @ FUN"
      using h by (simp add: occto_parse_dom_def)
  qed
  have d: "\<forall>pre h1 m1 sign h2 m2 post.
              ?t = pre @ h1 @ '':'' @ m1 @ sign @ h2 @ '':'' @ m2 @ post \<and>
              digits_1_or_2 h1 \<and> digits_n 2 m1 \<and> range_sign sign \<and>
              digits_1_or_2 h2 \<and> digits_n 2 m2 \<and>
              unmatched_before (time_re_here '':'' []) pre
                (h1 @ '':'' @ m1 @ sign @ h2 @ '':'' @ m2 @ post) \<and>
              timeMatch1 ?t = None \<longrightarrow>
              d_time ?d = h1 @ '':'' @ m1 @ WAVE @ h2 @ '':'' @ m2"
  proof (intro allI impI)
    fix pre h1 m1 sign h2 m2 post
    assume h: "?t = pre @ h1 @ '':'' @ m1 @ sign @ h2 @ '':'' @ m2 @ post \<and>
              digits_1_or_2 h1 \<and> digits_n 2 m1 \<and> range_sign sign \<and>
              digits_1_or_2 h2 \<and> digits_n 2 m2 \<and>
              unmatched_before (time_re_here '':'' []) pre
                (h1 @ '':'' @ m1 @ sign @ h2 @ '':'' @ m2 @ post) \<and>
              timeMatch1 ?t = None"
    then have "truthy ?t" by (auto simp: truthy_def digits_n_def)
    moreover have "occto_time (pre @ h1 @ '':'' @ m1 @ sign @ h2 @ '':'' @ m2 @ post) =
        h1 @ '':'' @ m1 @ WAVE @ h2 @ '':'' @ m2"
    proof (rule occto_time_colon_shape)
      show "timeMatch1 (pre @ h1 @ '':'' @ m1 @ sign @ h2 @ '':'' @ m2 @ post) = None"
        using h by metis
    qed (use h in \<open>simp_all add: digits_n_def digits_1_or_2_def\<close>)
    ultimately show "d_time ?d = h1 @ '':'' @ m1 @ WAVE @ h2 @ '':'' @ m2"
      using h by (simp add: occto_parse_dom_def)
  qed
  have e: "timeMatch1 ?t = None \<and> timeMatch2 ?t = None \<longrightarrow> d_time ?d = ?t"
    using occto_time_verbatim [of ?t] by (simp add: occto_parse_dom_def)
  from run a b c d e show ?thesis by blast
qed


lemma example_web_a:
  "web example_world ''https://www.occto.or.jp/a.html'' = Response 200 ''OK'' (OcctoDetailHtml example_detail_a)"
  by (simp add: example_world_def example_web_def)

lemma example_web_b:
  "web example_world ''https://www.occto.or.jp/b.html'' = Response 200 ''OK'' (OcctoDetailHtml example_detail_b)"
  by (simp add: example_world_def example_web_def)

lemma example_web_c:
  "web example_world ''https://www.occto.or.jp/c.html'' = Response 200 ''OK'' (OcctoDetailHtml example_detail_c)"
  by (simp add: example_world_def example_web_def)

lemma no_time_in_tba:
  "timeMatch1 ''to be announced'' = None" "timeMatch2 ''to be announced'' = None"
  by code_simp+

lemma page_world_web:
  "web (page_world t) u =
     Response 200 ''OK'' (OcctoDetailHtml \<lparr>h1_text = ''Committee'', dateTimeText = t, agendaItems = []\<rparr>)"
  by (simp add: page_world_def)

lemma status_ok: "(200::nat) \<le> 200" "(200::nat) \<le> 299"
  by simp_all

lemma example_digits:
  "digits_n 4 ''2026''" "digits_1_or_2 ''3''" "digits_1_or_2 ''1''" "digits_1_or_2 ''12''"
  "digits_1_or_2 ''5''" "digits_1_or_2 ''15''" "digits_n 2 ''00''" "digits_1_or_2 ''17''"
  "digits_1_or_2 ''9''" "digits_n 2 ''30''" "digits_1_or_2 ''11''"
  "range_sign WAVE" "range_sign ''~''"
  by (simp_all add: digits_1_or_2_def digits_n_def digit_string_def is_digit_def range_sign_def)

theorem C5_occto_detail_date_time_witness:
  "(\<exists>d w'. occto_parseDetailPage ''https://www.occto.or.jp/a.html'' example_world = (Inr d, w') \<and>
      d_date d = ''2026-02-17'' \<and>
      d_time d = ''18'' @ JI @ ''00'' @ FUN @ WAVE @ ''20'' @ JI @ ''00'' @ FUN) \<and>
   (\<exists>d w'. occto_parseDetailPage ''https://www.occto.or.jp/b.html'' example_world = (Inr d, w') \<and>
      d_time d = ''15:00'' @ WAVE @ ''17:00'') \<and>
   (\<exists>d w'. occto_parseDetailPage ''https://www.occto.or.jp/c.html'' example_world = (Inr d, w') \<and>
      d_time d = ''to be announced'') \<and>
   (\<exists>d w'. occto_parseDetailPage ''https://www.occto.or.jp/e.html'' (page_world example_short_text) =
        (Inr d, w') \<and>
      d_date d = ''2026-03-01'' \<and> d_time d = ''15:00'' @ WAVE @ ''17:00'') \<and>
   (\<exists>d w'. occto_parseDetailPage ''https://www.occto.or.jp/e.html'' (page_world example_ascii_text) =
        (Inr d, w') \<and>
      d_date d = ''2026-12-05'' \<and>
      d_time d = ''9'' @ JI @ ''30'' @ FUN @ WAVE @ ''11'' @ JI @ ''00'' @ FUN)"
proof (intro conjI)
  show "\<exists>d w'. occto_parseDetailPage ''https://www.occto.or.jp/a.html'' example_world = (Inr d, w') \<and>
      d_date d = ''2026-02-17'' \<and>
      d_time d = ''18'' @ JI @ ''00'' @ FUN @ WAVE @ ''20'' @ JI @ ''00'' @ FUN"
    using C5_occto_detail_date_time [OF example_web_a status_ok] by (elim exE conjE) (simp add: example_detail_a_def)
next
  let ?u = "''https://www.occto.or.jp/b.html''"
  from C5_occto_detail_date_time [OF example_web_b status_ok]
  obtain d w' where run: "occto_parseDetailPage ?u example_world = (Inr d, w')"
    and colon: "\<forall>pre h1 m1 sign h2 m2 post.
              dateTimeText example_detail_b = pre @ h1 @ '':'' @ m1 @ sign @ h2 @ '':'' @ m2 @ post \<and>
              digits_1_or_2 h1 \<and> digits_n 2 m1 \<and> range_sign sign \<and>
              digits_1_or_2 h2 \<and> digits_n 2 m2 \<and>
              unmatched_before (time_re_here '':'' []) pre
                (h1 @ '':'' @ m1 @ sign @ h2 @ '':'' @ m2 @ post) \<and>
              timeMatch1 (dateTimeText example_detail_b) = None \<longrightarrow>
              d_time d = h1 @ '':'' @ m1 @ WAVE @ h2 @ '':'' @ m2"
    by (elim exE conjE) (rule that)
  have shape: "dateTimeText example_detail_b =
      ''2026/3/1 '' @ ''15'' @ '':'' @ ''00'' @ WAVE @ ''17'' @ '':'' @ ''00'' @ []"
    by (simp add: example_detail_b_def example_colon_text_def)
  have first: "unmatched_before (time_re_here '':'' []) ''2026/3/1 ''
      (''15'' @ '':'' @ ''00'' @ WAVE @ ''17'' @ '':'' @ ''00'' @ [])"
    by code_simp
  have no_glyph: "timeMatch1 (dateTimeText example_detail_b) = None"
    unfolding example_detail_b_def by code_simp
  have "d_time d = ''15'' @ '':'' @ ''00'' @ WAVE @ ''17'' @ '':'' @ ''00''"
    by (rule colon [rule_format, of "''2026/3/1 ''" "''15''" "''00''" WAVE "''17''" "''00''" "[]"])
      (intro conjI shape example_digits first no_glyph)
  then have "d_time d = ''15:00'' @ WAVE @ ''17:00''" by simp
  with run show "\<exists>d w'. occto_parseDetailPage ?u example_world = (Inr d, w') \<and>
      d_time d = ''15:00'' @ WAVE @ ''17:00''" by blast
next
  show "\<exists>d w'. occto_parseDetailPage ''https://www.occto.or.jp/c.html'' example_world = (Inr d, w') \<and>
      d_time d = ''to be announced''"
    using C5_occto_detail_date_time [OF example_web_c status_ok] no_time_in_tba
    by (elim exE conjE) (simp add: example_detail_c_def)
next
  let ?u = "''https://www.occto.or.jp/e.html''"
  let ?pg = "\<lparr>h1_text = ''Committee'', dateTimeText = example_short_text, agendaItems = []\<rparr>"
  from C5_occto_detail_date_time [OF page_world_web [where t = example_short_text and u = ?u] status_ok]
  obtain d w' where run: "occto_parseDetailPage ?u (page_world example_short_text) = (Inr d, w')"
    and date: "\<forall>pre year month day post.
              dateTimeText ?pg = pre @ year @ NEN @ month @ GATSU @ day @ NICHI @ post \<and>
              digits_n 4 year \<and> digits_1_or_2 month \<and> digits_1_or_2 day \<and>
              unmatched_before date_re_here pre (year @ NEN @ month @ GATSU @ day @ NICHI @ post) \<longrightarrow>
              d_date d = year @ ''-'' @ padStart2 month @ ''-'' @ padStart2 day"
    and colon: "\<forall>pre h1 m1 sign h2 m2 post.
              dateTimeText ?pg = pre @ h1 @ '':'' @ m1 @ sign @ h2 @ '':'' @ m2 @ post \<and>
              digits_1_or_2 h1 \<and> digits_n 2 m1 \<and> range_sign sign \<and>
              digits_1_or_2 h2 \<and> digits_n 2 m2 \<and>
              unmatched_before (time_re_here '':'' []) pre
                (h1 @ '':'' @ m1 @ sign @ h2 @ '':'' @ m2 @ post) \<and>
              timeMatch1 (dateTimeText ?pg) = None \<longrightarrow>
              d_time d = h1 @ '':'' @ m1 @ WAVE @ h2 @ '':'' @ m2"
    by (elim exE conjE) (rule that)
  have shape1: "dateTimeText ?pg =
      [] @ ''2026'' @ NEN @ ''3'' @ GATSU @ ''1'' @ NICHI @ ('' 15:00'' @ WAVE @ ''17:00'')"
    by (simp add: example_short_text_def)
  have shape2: "dateTimeText ?pg =
      (''2026'' @ NEN @ ''3'' @ GATSU @ ''1'' @ NICHI @ '' '') @
      ''15'' @ '':'' @ ''00'' @ WAVE @ ''17'' @ '':'' @ ''00'' @ []"
    by (simp add: example_short_text_def)
  have first1: "unmatched_before date_re_here []
      (''2026'' @ NEN @ ''3'' @ GATSU @ ''1'' @ NICHI @ ('' 15:00'' @ WAVE @ ''17:00''))"
    by code_simp
  have first2: "unmatched_before (time_re_here '':'' [])
      (''2026'' @ NEN @ ''3'' @ GATSU @ ''1'' @ NICHI @ '' '')
      (''15'' @ '':'' @ ''00'' @ WAVE @ ''17'' @ '':'' @ ''00'' @ [])"
    by code_simp
  have "timeMatch1 example_short_text = None" by code_simp
  then have no_glyph: "timeMatch1 (dateTimeText ?pg) = None" by simp
  have "d_date d = ''2026'' @ ''-'' @ padStart2 ''3'' @ ''-'' @ padStart2 ''1''"
    by (rule date [rule_format, of "[]" "''2026''" "''3''" "''1''" "'' 15:00'' @ WAVE @ ''17:00''"])
      (intro conjI shape1 example_digits first1)
  then have 1: "d_date d = ''2026-03-01''" by (simp add: padStart2_def)
  have "d_time d = ''15'' @ '':'' @ ''00'' @ WAVE @ ''17'' @ '':'' @ ''00''"
    by (rule colon [rule_format, of "''2026'' @ NEN @ ''3'' @ GATSU @ ''1'' @ NICHI @ '' ''"
          "''15''" "''00''" WAVE "''17''" "''00''" "[]"])
      (intro conjI shape2 example_digits first2 no_glyph)
  then have 2: "d_time d = ''15:00'' @ WAVE @ ''17:00''" by simp
  from run 1 2 show "\<exists>d w'. occto_parseDetailPage ?u (page_world example_short_text) = (Inr d, w') \<and>
      d_date d = ''2026-03-01'' \<and> d_time d = ''15:00'' @ WAVE @ ''17:00''" by blast
next
  let ?u = "''https://www.occto.or.jp/e.html''"
  let ?pg = "\<lparr>h1_text = ''Committee'', dateTimeText = example_ascii_text, agendaItems = []\<rparr>"
  from C5_occto_detail_date_time [OF page_world_web [where t = example_ascii_text and u = ?u] status_ok]
  obtain d w' where run: "occto_parseDetailPage ?u (page_world example_ascii_text) = (Inr d, w')"
    and date: "\<forall>pre year month day post.
              dateTimeText ?pg = pre @ year @ NEN @ month @ GATSU @ day @ NICHI @ post \<and>
              digits_n 4 year \<and> digits_1_or_2 month \<and> digits_1_or_2 day \<and>
              unmatched_before date_re_here pre (year @ NEN @ month @ GATSU @ day @ NICHI @ post) \<longrightarrow>
              d_date d = year @ ''-'' @ padStart2 month @ ''-'' @ padStart2 day"
    and glyph: "\<forall>pre h1 m1 sign h2 m2 post.
              dateTimeText ?pg = pre @ h1 @ JI @ m1 @ FUN @ sign @ h2 @ JI @ m2 @ FUN @ post \<and>
              digits_1_or_2 h1 \<and> digits_n 2 m1 \<and> range_sign sign \<and>
              digits_1_or_2 h2 \<and> digits_n 2 m2 \<and>
              unmatched_before (time_re_here JI FUN) pre
                (h1 @ JI @ m1 @ FUN @ sign @ h2 @ JI @ m2 @ FUN @ post) \<longrightarrow>
              d_time d = h1 @ JI @ m1 @ FUN @ WAVE @ h2 @ JI @ m2 @ FUN"
    by (elim exE conjE) (rule that)
  let ?rest = "'' 9'' @ JI @ ''30'' @ FUN @ ''~11'' @ JI @ ''00'' @ FUN"
  have shape1: "dateTimeText ?pg =
      ''Date: '' @ ''2026'' @ NEN @ ''12'' @ GATSU @ ''5'' @ NICHI @ ?rest"
    by (simp add: example_ascii_text_def)
  have shape2: "dateTimeText ?pg =
      (''Date: 2026'' @ NEN @ ''12'' @ GATSU @ ''5'' @ NICHI @ '' '') @
      ''9'' @ JI @ ''30'' @ FUN @ ''~'' @ ''11'' @ JI @ ''00'' @ FUN @ []"
    by (simp add: example_ascii_text_def)
  have first1: "unmatched_before date_re_here ''Date: ''
      (''2026'' @ NEN @ ''12'' @ GATSU @ ''5'' @ NICHI @ ?rest)"
    by code_simp
  have first2: "unmatched_before (time_re_here JI FUN)
      (''Date: 2026'' @ NEN @ ''12'' @ GATSU @ ''5'' @ NICHI @ '' '')
      (''9'' @ JI @ ''30'' @ FUN @ ''~'' @ ''11'' @ JI @ ''00'' @ FUN @ [])"
    by code_simp
  have "d_date d = ''2026'' @ ''-'' @ padStart2 ''12'' @ ''-'' @ padStart2 ''5''"
    by (rule date [rule_format, of "''Date: ''" "''2026''" "''12''" "''5''" ?rest])
      (intro conjI shape1 example_digits first1)
  then have 1: "d_date d = ''2026-12-05''" by (simp add: padStart2_def)
  have 2: "d_time d = ''9'' @ JI @ ''30'' @ FUN @ WAVE @ ''11'' @ JI @ ''00'' @ FUN"
    by (rule glyph [rule_format, of "''Date: 2026'' @ NEN @ ''12'' @ GATSU @ ''5'' @ NICHI @ '' ''"
          "''9''" "''30''" "''~''" "''11''" "''00''" "[]"])
      (intro conjI shape2 example_digits first2)
  from run 1 2 show "\<exists>d w'. occto_parseDetailPage ?u (page_world example_ascii_text) = (Inr d, w') \<and>
      d_date d = ''2026-12-05'' \<and>
      d_time d = ''9'' @ JI @ ''30'' @ FUN @ WAVE @ ''11'' @ JI @ ''00'' @ FUN" by blast
qed

section \<open>The requests of the editor when the service is in order\<close>

lemma configured_id: "configured w \<Longrightarrow> \<exists>s. getSpreadsheetId w = (Inr s, w)"
  by (auto simp: configured_def getSpreadsheetId_def split: option.splits)

lemma healthy_id: "healthy w \<Longrightarrow> \<exists>s. getSpreadsheetId w = (Inr s, w)"
  by (simp add: healthy_def configured_id)

lemma configured_upd [simp]:
  "configured (w\<lparr>sheets := f\<rparr>) = configured w"
  "configured (w\<lparr>stderr := g\<rparr>) = configured w"
  "configured (w\<lparr>requests := h\<rparr>) = configured w"
  "configured (w\<lparr>faults := fs\<rparr>) = configured w"
  by (simp_all add: configured_def)

lemma healthy_remote: "healthy w \<Longrightarrow> remote act w = act w"
  by (simp add: healthy_def remote_def)

lemma healthy_sheets_upd [simp]: "healthy (w\<lparr>sheets := f\<rparr>) = healthy w"
  by (simp add: healthy_def)

lemma healthy_stderr_upd [simp]: "healthy (w\<lparr>stderr := f\<rparr>) = healthy w"
  by (simp add: healthy_def)

lemma healthy_requests_upd [simp]: "healthy (w\<lparr>requests := f\<rparr>) = healthy w"
  by (simp add: healthy_def)

lemma healthy_update:
  "healthy w \<Longrightarrow> sheets w n = Some rows \<Longrightarrow> k \<noteq> 0 \<Longrightarrow>
   io_bind getSpreadsheetId (\<lambda>sid. api_values_update sid n k cells) w =
     (Inr (), w\<lparr>sheets := (sheets w)(n \<mapsto> write_row rows (k - 1) cells)\<rparr>)"
  using healthy_id [of w]
  by (auto simp: io_bind_def api_values_update_def healthy_remote)

lemma healthy_append:
  "healthy w \<Longrightarrow> sheets w n = Some rows \<Longrightarrow>
   io_bind getSpreadsheetId (\<lambda>sid. api_values_append sid n cells) w =
     (Inr (), w\<lparr>sheets := (sheets w)(n \<mapsto> rows @ [cells])\<rparr>)"
  using healthy_id [of w]
  by (auto simp: io_bind_def api_values_append_def healthy_remote)

lemma healthy_client: "healthy w \<Longrightarrow> getSheetsClient w = (Inr (), w)"
  by (simp add: getSheetsClient_def healthy_remote io_return_def)

lemma write_row_empty: "write_row [] 0 cells = [cells]"
  by (simp add: write_row_def)

lemma healthy_ensure:
  assumes "healthy w"
  shows "ensureSheetExists header what n w =
     (Inr (), case sheets w n of
                None \<Rightarrow> w\<lparr>sheets := (sheets w)(n \<mapsto> [header])\<rparr>
              | Some rows \<Rightarrow> w)"
proof (cases "sheets w n")
  case None
  let ?w1 = "w\<lparr>sheets := (sheets w)(n \<mapsto> [])\<rparr>"
  from assms have h1: "healthy ?w1" by simp
  from healthy_id [OF assms] obtain s where s: "getSpreadsheetId w = (Inr s, w)" by blast
  from healthy_id [OF h1] obtain s1 where s1: "getSpreadsheetId ?w1 = (Inr s1, ?w1)" by blast
  have titles: "api_spreadsheets_get s w = (Inr (\<lambda>t. sheets w t \<noteq> None), w)"
    using assms by (simp add: api_spreadsheets_get_def healthy_remote)
  have add: "api_addSheet s n w = (Inr (), ?w1)"
    using assms None by (simp add: api_addSheet_def healthy_remote)
  have upd: "api_values_update s1 n 1 header ?w1 =
      (Inr (), w\<lparr>sheets := (sheets w)(n \<mapsto> [header])\<rparr>)"
    using h1 by (simp add: api_values_update_def healthy_remote write_row_empty)
  show ?thesis
    using None s s1 titles add upd
    by (simp add: ensureSheetExists_def io_catch_def io_bind_def)
next
  case (Some rows)
  from healthy_id [OF assms] obtain s where s: "getSpreadsheetId w = (Inr s, w)" by blast
  have titles: "api_spreadsheets_get s w = (Inr (\<lambda>t. sheets w t \<noteq> None), w)"
    using assms by (simp add: api_spreadsheets_get_def healthy_remote)
  show ?thesis
    using Some s titles
    by (simp add: ensureSheetExists_def io_catch_def io_bind_def io_return_def)
qed

lemma healthy_read:
  "healthy w \<Longrightarrow> sheets w n = Some rows \<Longrightarrow>
   getExistingData n w = (Inr (map (take 5) (drop 1 rows)), w)"
  using healthy_id [of w]
  by (auto simp: getExistingData_def io_catch_def io_bind_def api_values_get_A2E_def healthy_remote)

lemma upsert_loop_healthy:
  "healthy w \<Longrightarrow> sheets w n = Some rows \<Longrightarrow>
   (\<forall>x\<in>set ms. m (detailUrl x) \<noteq> Some 0) \<Longrightarrow>
   upsert_loop m n ms (u, i) w =
     (Inr (u + length (filter (\<lambda>x. m (detailUrl x) \<noteq> None) ms),
           i + length (filter (\<lambda>x. m (detailUrl x) = None) ms)),
      w\<lparr>sheets := (sheets w)(n \<mapsto> apply_writes m rows ms)\<rparr>)"
proof (induction ms arbitrary: u i w rows)
  case Nil
  then have "(sheets w)(n \<mapsto> rows) = sheets w" by (simp add: fun_upd_idem)
  then show ?case by simp
next
  case (Cons x xs)
  show ?case
  proof (cases "m (detailUrl x)")
    case None
    let ?w = "w\<lparr>sheets := (sheets w)(n \<mapsto> rows @ [rowData x])\<rparr>"
    have step: "io_bind getSpreadsheetId (\<lambda>sid. api_values_append sid n (rowData x)) w = (Inr (), ?w)"
      using Cons.prems by (simp add: healthy_append)
    have "upsert_loop m n xs (u, i + 1) ?w =
       (Inr (u + length (filter (\<lambda>x. m (detailUrl x) \<noteq> None) xs),
             i + 1 + length (filter (\<lambda>x. m (detailUrl x) = None) xs)),
        ?w\<lparr>sheets := (sheets ?w)(n \<mapsto> apply_writes m (rows @ [rowData x]) xs)\<rparr>)"
      using Cons.prems by (intro Cons.IH) simp_all
    with None step show ?thesis by simp (simp add: fun_upd_def)
  next
    case (Some k)
    with Cons.prems have k: "k \<noteq> 0" by auto
    let ?w = "w\<lparr>sheets := (sheets w)(n \<mapsto> write_row rows (k - 1) (rowData x))\<rparr>"
    have step: "io_bind getSpreadsheetId (\<lambda>sid. api_values_update sid n k (rowData x)) w = (Inr (), ?w)"
      using Cons.prems k by (simp add: healthy_update)
    have "upsert_loop m n xs (u + 1, i) ?w =
       (Inr (u + 1 + length (filter (\<lambda>x. m (detailUrl x) \<noteq> None) xs),
             i + length (filter (\<lambda>x. m (detailUrl x) = None) xs)),
        ?w\<lparr>sheets := (sheets ?w)(n \<mapsto> apply_writes m (write_row rows (k - 1) (rowData x)) xs)\<rparr>)"
      using Cons.prems by (intro Cons.IH) simp_all
    with Some step show ?thesis by simp (simp add: fun_upd_def)
  qed
qed


section \<open>The map from URL to row index\<close>

lemma cell_take5: "cell (take 5 r) 4 = cell r 4"
  by (simp add: cell_def)

lemma fill_snoc:
  "fill_urlToRowIndex (rows @ [r]) idx m =
     (case cell r 4 of
        None \<Rightarrow> fill_urlToRowIndex rows idx m
      | Some u \<Rightarrow> if truthy u then (fill_urlToRowIndex rows idx m)(u \<mapsto> idx + length rows + 2)
                  else fill_urlToRowIndex rows idx m)"
  by (induction rows arbitrary: idx m) (simp_all split: option.splits)

lemma urlToRowIndex_Nil: "urlToRowIndex [] = Map.empty"
  by (simp add: urlToRowIndex_def)

lemma urlToRowIndex_snoc:
  "urlToRowIndex (rows @ [r]) =
     (case cell r 4 of
        None \<Rightarrow> urlToRowIndex rows
      | Some u \<Rightarrow> if truthy u then (urlToRowIndex rows)(u \<mapsto> length rows + 2)
                  else urlToRowIndex rows)"
  by (simp add: urlToRowIndex_def fill_snoc split: option.splits)

lemma urlToRowIndex_None_iff:
  "urlToRowIndex rows u = None \<longleftrightarrow> u = [] \<or> (\<forall>r\<in>set rows. cell r 4 \<noteq> Some u)"
proof (induction rows rule: rev_induct)
  case Nil
  then show ?case by (simp add: urlToRowIndex_Nil)
next
  case (snoc r rows)
  then show ?case
    by (auto simp: urlToRowIndex_snoc truthy_def split: option.splits)
qed

lemma urlToRowIndex_SomeD:
  "urlToRowIndex rows u = Some k \<Longrightarrow>
   u \<noteq> [] \<and> 2 \<le> k \<and> k - 2 < length rows \<and> cell (rows ! (k - 2)) 4 = Some u \<and>
   (\<forall>j. k - 2 < j \<and> j < length rows \<longrightarrow> cell (rows ! j) 4 \<noteq> Some u)"
proof (induction rows arbitrary: k rule: rev_induct)
  case Nil
  then show ?case by (simp add: urlToRowIndex_Nil)
next
  case (snoc r rows)
  show ?case
  proof (cases "cell r 4 = Some u \<and> truthy u")
    case True
    with snoc.prems have k: "k = length rows + 2"
      by (simp add: urlToRowIndex_snoc)
    with True show ?thesis by (auto simp: truthy_def)
  next
    case False
    with snoc.prems have old: "urlToRowIndex rows u = Some k"
      by (auto simp: urlToRowIndex_snoc split: option.splits if_splits)
    note ih = snoc.IH [OF old]
    have last: "cell r 4 \<noteq> Some u"
      using False ih by (simp add: truthy_def)
    have "\<forall>j. k - 2 < j \<and> j < length (rows @ [r]) \<longrightarrow> cell ((rows @ [r]) ! j) 4 \<noteq> Some u"
    proof (intro allI impI)
      fix j
      assume j: "k - 2 < j \<and> j < length (rows @ [r])"
      show "cell ((rows @ [r]) ! j) 4 \<noteq> Some u"
      proof (cases "j < length rows")
        case True
        with j ih show ?thesis by (simp add: nth_append)
      next
        case False
        with j have "j = length rows" by simp
        with last show ?thesis by simp
      qed
    qed
    with ih show ?thesis by (simp add: nth_append)
  qed
qed

lemma urlToRowIndex_last:
  assumes "u \<noteq> []" and "i < length rows" and "cell (rows ! i) 4 = Some u"
    and "\<forall>j. i < j \<and> j < length rows \<longrightarrow> cell (rows ! j) 4 \<noteq> Some u"
  shows "urlToRowIndex rows u = Some (i + 2)"
proof -
  have "urlToRowIndex rows u \<noteq> None"
    using assms by (auto simp: urlToRowIndex_None_iff)
  then obtain k where k: "urlToRowIndex rows u = Some k" by auto
  note d = urlToRowIndex_SomeD [OF k]
  have "\<not> k - 2 < i" using d assms by auto
  moreover have "\<not> i < k - 2" using d assms by auto
  ultimately have "k - 2 = i" by simp
  with d k show ?thesis by auto
qed

lemma urlToRowIndex_take5: "urlToRowIndex (map (take 5) rows) = urlToRowIndex rows"
proof (induction rows rule: rev_induct)
  case Nil
  then show ?case by simp
next
  case (snoc r rows)
  then show ?case by (simp add: urlToRowIndex_snoc cell_take5 split: option.splits)
qed

section \<open>The effect of the write loop on the rows\<close>

lemma write_row_in_range:
  "i < length rows \<Longrightarrow> write_row rows i c = rows[i := c @ drop (length c) (rows ! i)]"
  by (simp add: write_row_def)

lemma cell_rowData [simp]: "cell (rowData x @ rest) 4 = Some (detailUrl x)"
  by (simp add: cell_def rowData_def)

lemma cell_rowData0 [simp]: "cell (rowData x) 4 = Some (detailUrl x)"
  by (simp add: cell_def rowData_def)

lemma length_rowData [simp]: "length (rowData x) = 5"
  by (simp add: rowData_def)

lemma fits_urlToRowIndex:
  "rows \<noteq> [] \<Longrightarrow> fits (urlToRowIndex (drop 1 rows)) rows"
proof (unfold fits_def, intro allI impI)
  fix u k
  assume rows: "rows \<noteq> []" and k: "urlToRowIndex (drop 1 rows) u = Some k"
  note d = urlToRowIndex_SomeD [OF k]
  from d rows have "2 \<le> k" "k \<le> length rows" by auto
  moreover have "carries u (rows ! (k - Suc 0))"
  proof -
    from d have "2 \<le> k" by simp
    then have "k - Suc 0 = Suc (k - 2)" by simp
    moreover from rows obtain a list where "rows = a # list" by (cases rows) auto
    ultimately show ?thesis using d by (simp add: carries_def)
  qed
  ultimately show "2 \<le> k \<and> k \<le> length rows \<and> carries u (rows ! (k - Suc 0))" by simp
qed

lemma fitsD:
  "fits m rows \<Longrightarrow> m u = Some k \<Longrightarrow>
   2 \<le> k \<and> k \<le> length rows \<and> carries u (rows ! (k - Suc 0))"
  by (simp add: fits_def)

lemma fits_append: "fits m rows \<Longrightarrow> fits m (rows @ [r])"
  by (fastforce simp: fits_def nth_append)

lemma fits_write:
  assumes "fits m rows" and "m (detailUrl x) = Some k"
  shows "fits m (write_row rows (k - Suc 0) (rowData x))"
proof (unfold fits_def, intro allI impI)
  fix u j
  assume j: "m u = Some j"
  from fitsD [OF assms]
  have k: "2 \<le> k" "k \<le> length rows" "carries (detailUrl x) (rows ! (k - Suc 0))"
    by simp_all
  from fitsD [OF assms(1) j]
  have jj: "2 \<le> j" "j \<le> length rows" "carries u (rows ! (j - Suc 0))"
    by simp_all
  have "k - Suc 0 < length rows" using k by arith
  then have w: "write_row rows (k - Suc 0) (rowData x) =
      rows[k - Suc 0 := rowData x @ drop 5 (rows ! (k - Suc 0))]"
    by (simp add: write_row_in_range)
  have "carries u (rows[k - Suc 0 := rowData x @ drop 5 (rows ! (k - Suc 0))] ! (j - Suc 0))"
  proof (cases "j = k")
    case True
    with jj k have "u = detailUrl x" by (simp add: carries_def)
    with True k show ?thesis by (simp add: carries_def)
  next
    case False
    with k jj have "j - Suc 0 \<noteq> k - Suc 0" by simp
    with jj show ?thesis by simp
  qed
  with jj w show "2 \<le> j \<and> j \<le> length (write_row rows (k - Suc 0) (rowData x)) \<and>
      carries u (write_row rows (k - Suc 0) (rowData x) ! (j - Suc 0))" by simp
qed

lemma fits_step:
  "fits m rows \<Longrightarrow>
   fits m (case m (detailUrl x) of Some k \<Rightarrow> write_row rows (k - Suc 0) (rowData x)
                                  | None \<Rightarrow> rows @ [rowData x])"
  by (simp add: fits_append fits_write split: option.splits)

lemma length_write:
  "fits m rows \<Longrightarrow> m (detailUrl x) = Some k \<Longrightarrow>
   length (write_row rows (k - Suc 0) (rowData x)) = length rows"
proof -
  assume "fits m rows" "m (detailUrl x) = Some k"
  from fitsD [OF this] have "k - Suc 0 < length rows" by arith
  then show ?thesis by (simp add: write_row_in_range)
qed

lemma apply_writes_fits: "fits m rows \<Longrightarrow> fits m (apply_writes m rows ms)"
  by (induction ms arbitrary: rows) (simp_all add: fits_step)

lemma apply_writes_length:
  "fits m rows \<Longrightarrow>
   length (apply_writes m rows ms) = length rows + length (filter (\<lambda>x. m (detailUrl x) = None) ms)"
proof (induction ms arbitrary: rows)
  case Nil
  then show ?case by simp
next
  case (Cons x xs)
  show ?case
  proof (cases "m (detailUrl x)")
    case None
    with Cons.IH [of "rows @ [rowData x]"] Cons.prems show ?thesis
      by (simp add: fits_append)
  next
    case (Some k)
    with Cons.IH [of "write_row rows (k - Suc 0) (rowData x)"] Cons.prems show ?thesis
      by (simp add: fits_write length_write)
  qed
qed

text \<open>A row that no record of the input is mapped to keeps its cells.\<close>

lemma apply_writes_untouched:
  "fits m rows \<Longrightarrow> j < length rows \<Longrightarrow> \<forall>x\<in>set ms. m (detailUrl x) \<noteq> Some (j + 1) \<Longrightarrow>
   apply_writes m rows ms ! j = rows ! j"
proof (induction ms arbitrary: rows)
  case Nil
  then show ?case by simp
next
  case (Cons x xs)
  show ?case
  proof (cases "m (detailUrl x)")
    case None
    with Cons.IH [of "rows @ [rowData x]"] Cons.prems show ?thesis
      by (simp add: fits_append nth_append)
  next
    case (Some k)
    with Cons.prems have ne: "k \<noteq> j + 1" by auto
    from fitsD [OF Cons.prems(1) Some] have k: "2 \<le> k" "k \<le> length rows" by simp_all
    have w: "write_row rows (k - Suc 0) (rowData x) = rows[k - Suc 0 := rowData x @ drop 5 (rows ! (k - Suc 0))]"
      using k by (simp add: write_row_in_range)
    have "apply_writes m (write_row rows (k - Suc 0) (rowData x)) xs ! j =
          write_row rows (k - Suc 0) (rowData x) ! j"
      using Cons.prems Some by (intro Cons.IH) (simp_all add: fits_write length_write)
    also have "\<dots> = rows ! j" using ne k by (simp add: w)
    finally show ?thesis using Some by simp
  qed
qed

text \<open>The rows added at the end are the records that the map does not know, in order.\<close>

lemma apply_writes_appended:
  "fits m rows \<Longrightarrow>
   drop (length rows) (apply_writes m rows ms) =
     map rowData (filter (\<lambda>x. m (detailUrl x) = None) ms)"
proof (induction ms arbitrary: rows)
  case Nil
  then show ?case by simp
next
  case (Cons x xs)
  show ?case
  proof (cases "m (detailUrl x)")
    case None
    have f: "fits m (rows @ [rowData x])" using Cons.prems by (simp add: fits_append)
    have "\<forall>y\<in>set xs. m (detailUrl y) \<noteq> Some (length rows + 1)"
      using fitsD [OF Cons.prems] by fastforce
    then have last: "apply_writes m (rows @ [rowData x]) xs ! length rows = rowData x"
      using apply_writes_untouched [OF f, of "length rows" xs] by simp
    have len: "length rows < length (apply_writes m (rows @ [rowData x]) xs)"
      using apply_writes_length [OF f, of xs] by simp
    have "drop (length rows) (apply_writes m (rows @ [rowData x]) xs) =
          apply_writes m (rows @ [rowData x]) xs ! length rows #
          drop (Suc (length rows)) (apply_writes m (rows @ [rowData x]) xs)"
      using len by (simp add: Cons_nth_drop_Suc)
    with last Cons.IH [OF f] None show ?thesis by simp
  next
    case (Some k)
    with Cons.IH [of "write_row rows (k - Suc 0) (rowData x)"] Cons.prems show ?thesis
      by (simp add: fits_write length_write)
  qed
qed

text \<open>A URL that some row below the header carries is carried after the loop as well.\<close>

lemma carried_step:
  assumes "fits m rows" and "1 \<le> j" and "j < length rows" and "carries u (rows ! j)"
  shows "\<exists>j'. 1 \<le> j' \<and>
           j' < length (case m (detailUrl x) of Some k \<Rightarrow> write_row rows (k - Suc 0) (rowData x)
                                               | None \<Rightarrow> rows @ [rowData x]) \<and>
           carries u ((case m (detailUrl x) of Some k \<Rightarrow> write_row rows (k - Suc 0) (rowData x)
                                             | None \<Rightarrow> rows @ [rowData x]) ! j')"
proof (cases "m (detailUrl x)")
  case None
  with assms show ?thesis by (auto simp: nth_append intro!: exI [of _ j])
next
  case (Some k)
  from fitsD [OF assms(1) Some]
  have k: "2 \<le> k" "k \<le> length rows" "carries (detailUrl x) (rows ! (k - Suc 0))"
    by simp_all
  have "k - Suc 0 < length rows" using k by arith
  then have w: "write_row rows (k - Suc 0) (rowData x) =
      rows[k - Suc 0 := rowData x @ drop 5 (rows ! (k - Suc 0))]"
    by (simp add: write_row_in_range)
  have "carries u (rows[k - Suc 0 := rowData x @ drop 5 (rows ! (k - Suc 0))] ! j)"
  proof (cases "j = k - Suc 0")
    case True
    with assms(4) k have "u = detailUrl x" by (simp add: carries_def)
    with True k show ?thesis by (simp add: carries_def)
  next
    case False
    with assms show ?thesis by simp
  qed
  with Some w assms show ?thesis by (auto intro!: exI [of _ j])
qed

lemma apply_writes_carried:
  "fits m rows \<Longrightarrow> 1 \<le> j \<Longrightarrow> j < length rows \<Longrightarrow> carries u (rows ! j) \<Longrightarrow>
   \<exists>j'. 1 \<le> j' \<and> j' < length (apply_writes m rows ms) \<and> carries u (apply_writes m rows ms ! j')"
proof (induction ms arbitrary: rows j)
  case Nil
  then show ?case by auto
next
  case (Cons x xs)
  let ?rows = "case m (detailUrl x) of Some k \<Rightarrow> write_row rows (k - Suc 0) (rowData x)
                                     | None \<Rightarrow> rows @ [rowData x]"
  from carried_step [OF Cons.prems, of x]
  obtain j' where j': "1 \<le> j'" "j' < length ?rows" "carries u (?rows ! j')" by blast
  have "fits m ?rows" using Cons.prems by (simp add: fits_step)
  from Cons.IH [OF this j'] show ?case by simp
qed

text \<open>After the loop every record of the input is carried by a row below the header.\<close>

lemma apply_writes_all_carried:
  "fits m rows \<Longrightarrow> rows \<noteq> [] \<Longrightarrow> x \<in> set ms \<Longrightarrow>
   \<exists>j. 1 \<le> j \<and> j < length (apply_writes m rows ms) \<and>
       carries (detailUrl x) (apply_writes m rows ms ! j)"
proof (induction ms arbitrary: rows)
  case Nil
  then show ?case by simp
next
  case (Cons y ys)
  let ?rows = "case m (detailUrl y) of Some k \<Rightarrow> write_row rows (k - Suc 0) (rowData y)
                                     | None \<Rightarrow> rows @ [rowData y]"
  have f: "fits m ?rows" using Cons.prems by (simp add: fits_step)
  have ne: "?rows \<noteq> []"
  proof (cases "m (detailUrl y)")
    case None
    then show ?thesis by simp
  next
    case (Some k)
    with length_write [OF Cons.prems(1) Some] Cons.prems(2) show ?thesis by auto
  qed
  show ?case
  proof (cases "x = y")
    case True
    have "\<exists>j. 1 \<le> j \<and> j < length ?rows \<and> carries (detailUrl y) (?rows ! j)"
    proof (cases "m (detailUrl y)")
      case None
      moreover from Cons.prems have "Suc 0 \<le> length rows" by (cases rows) auto
      ultimately show ?thesis
        by (auto simp: carries_def nth_append intro!: exI [of _ "length rows"])
    next
      case (Some k)
      from fitsD [OF Cons.prems(1) Some] have k: "2 \<le> k" "k \<le> length rows" by simp_all
      with Some show ?thesis
        by (auto simp: write_row_in_range carries_def intro!: exI [of _ "k - Suc 0"])
    qed
    then obtain j where "1 \<le> j" "j < length ?rows" "carries (detailUrl y) (?rows ! j)" by blast
    from apply_writes_carried [OF f this, of ys] True show ?thesis by simp
  next
    case False
    with Cons.prems have "x \<in> set ys" by simp
    from Cons.IH [OF f ne this] show ?thesis by simp
  qed
qed

section \<open>upsertMeetings when the service is in order\<close>

lemma fits_existing: "fits (urlToRowIndex (drop 1 rows)) rows"
proof (cases "rows = []")
  case True
  then show ?thesis by (simp add: fits_def urlToRowIndex_Nil)
next
  case False
  then show ?thesis by (rule fits_urlToRowIndex)
qed

lemma urlToRowIndex_not_0: "urlToRowIndex rows u \<noteq> Some 0"
  using urlToRowIndex_SomeD [of rows u 0] by auto

lemma upsertMeetings_present:
  assumes "healthy w" and "sheets w n = Some rows"
  shows "upsertMeetings ms n w =
     (Inr (length (filter (\<lambda>x. urlToRowIndex (drop 1 rows) (detailUrl x) \<noteq> None) ms),
           length (filter (\<lambda>x. urlToRowIndex (drop 1 rows) (detailUrl x) = None) ms)),
      w\<lparr>sheets := (sheets w)(n \<mapsto> apply_writes (urlToRowIndex (drop 1 rows)) rows ms)\<rparr>)"
proof -
  have "upsert_loop (urlToRowIndex (drop 1 rows)) n ms (0, 0) w =
     (Inr (0 + length (filter (\<lambda>x. urlToRowIndex (drop 1 rows) (detailUrl x) \<noteq> None) ms),
           0 + length (filter (\<lambda>x. urlToRowIndex (drop 1 rows) (detailUrl x) = None) ms)),
      w\<lparr>sheets := (sheets w)(n \<mapsto> apply_writes (urlToRowIndex (drop 1 rows)) rows ms)\<rparr>)"
    using assms by (intro upsert_loop_healthy) (simp_all add: urlToRowIndex_not_0)
  then show ?thesis
    using assms
    by (simp add: upsertMeetings_def io_bind_def healthy_client ensureMainSheetExists_def
        healthy_ensure healthy_read urlToRowIndex_take5)
qed

lemma apply_writes_empty: "apply_writes Map.empty rows ms = rows @ map rowData ms"
  by (induction ms arbitrary: rows) simp_all

lemma upsertMeetings_absent:
  assumes "healthy w" and "sheets w n = None"
  shows "upsertMeetings ms n w =
     (Inr (0, length ms), w\<lparr>sheets := (sheets w)(n \<mapsto> MAIN_HEADER # map rowData ms)\<rparr>)"
proof -
  let ?w1 = "w\<lparr>sheets := (sheets w)(n \<mapsto> [MAIN_HEADER])\<rparr>"
  have h1: "healthy ?w1" using assms by simp
  have s1: "sheets ?w1 n = Some [MAIN_HEADER]" by simp
  have loop: "upsert_loop Map.empty n ms (0, 0) ?w1 =
     (Inr (0, length ms), w\<lparr>sheets := (sheets w)(n \<mapsto> MAIN_HEADER # map rowData ms)\<rparr>)"
    using upsert_loop_healthy [OF h1 s1, of ms Map.empty 0 0]
    by (simp add: apply_writes_empty)
  have read: "getExistingData n ?w1 = (Inr [], ?w1)"
    using healthy_read [OF h1 s1] by simp
  show ?thesis
    using assms loop read
    by (simp add: upsertMeetings_def io_bind_def healthy_client ensureMainSheetExists_def
        healthy_ensure urlToRowIndex_Nil)
qed

lemma healthy_example: "healthy example_world"
  by (simp add: healthy_def configured_def example_world_def truthy_def)

lemma healthy_sheet_world: "healthy (sheet_world rows)"
  by (simp add: sheet_world_def healthy_example)

lemma sheets_sheet_world: "sheets (sheet_world rows) METI_SHEET_NAME = Some rows"
  by (simp add: sheet_world_def)

lemma carries_examples:
  "carries (detailUrl example_B') example_B"
  "carries (detailUrl example_B') example_B_again"
  "\<not> carries (detailUrl example_B') example_A"
  "\<not> carries (detailUrl example_C) example_A"
  "\<not> carries (detailUrl example_C) example_B"
  "\<not> carries (detailUrl example_C) example_B_again"
  by (simp_all add: carries_def cell_def example_A_def example_B_def example_B_again_def
      example_B'_def example_C_def)

text \<open>
  C1, as stated, fails when a row after row 3 carries the same URL as row 3: the record
  is written over the later row.
\<close>

theorem C1_counterexample:
  "row_at [MAIN_HEADER, example_A, example_B, example_B_again] 2 = Some example_A \<and>
   row_at [MAIN_HEADER, example_A, example_B, example_B_again] 3 = Some example_B \<and>
   carries (detailUrl example_B') example_B \<and>
   \<not> list_ex (carries (detailUrl example_C)) [example_A, example_B, example_B_again] \<and>
   fst (upsertMeetings [example_B', example_C] METI_SHEET_NAME
          (sheet_world [MAIN_HEADER, example_A, example_B, example_B_again])) = Inr (1, 1) \<and>
   sheets (snd (upsertMeetings [example_B', example_C] METI_SHEET_NAME
          (sheet_world [MAIN_HEADER, example_A, example_B, example_B_again]))) METI_SHEET_NAME =
     Some [MAIN_HEADER, example_A, example_B, rowData example_B', rowData example_C] \<and>
   example_B \<noteq> rowData example_B'"
proof -
  let ?rows = "[MAIN_HEADER, example_A, example_B, example_B_again]"
  have m_B: "urlToRowIndex (drop 1 ?rows) (detailUrl example_B') = Some 4"
    using urlToRowIndex_last [of "detailUrl example_B'" 2 "drop 1 ?rows"] carries_examples
    by (simp add: carries_def example_B'_def)
  have m_C: "urlToRowIndex (drop 1 ?rows) (detailUrl example_C) = None"
    using carries_examples by (simp add: urlToRowIndex_None_iff carries_def)
  have run: "upsertMeetings [example_B', example_C] METI_SHEET_NAME (sheet_world ?rows) =
     (Inr (1, 1), (sheet_world ?rows)\<lparr>sheets := (sheets (sheet_world ?rows))
        (METI_SHEET_NAME \<mapsto> [MAIN_HEADER, example_A, example_B, rowData example_B', rowData example_C])\<rparr>)"
    using upsertMeetings_present [OF healthy_sheet_world [of ?rows] sheets_sheet_world,
        where ms = "[example_B', example_C]"] m_B m_C
    by (simp add: write_row_in_range example_B_again_def)
  have "example_B \<noteq> rowData example_B'"
    by (simp add: example_B_def example_B'_def rowData_def)
  with run carries_examples show ?thesis
    by (simp add: row_at_def)
qed


text \<open>
  C1, amended. The tab has a header row, then rows A (row 2) and B (row 3) and any rows
  after them; the service is in order. The input is \<open>[B', C]\<close>, where the URL of \<open>B'\<close> is
  not empty, row 3 carries it and no row after row 3 does, and no row carries the URL of
  \<open>C\<close>. Then \<open>upsertMeetings\<close> returns one update and one insert; row 2 is as it was;
  the five cells A to E of row 3 are the five fields of \<open>B'\<close> (cells to their right, if
  any, stay); the rows after row 3 are as they were; and the fields of \<open>C\<close> are a new row
  after the last row.
\<close>

theorem C1_upsert_update_and_insert:
  assumes "healthy w" and "sheets w n = Some (header # rowA # rowB # rest)"
    and "detailUrl B' \<noteq> []" and "carries (detailUrl B') rowB"
    and "\<forall>r\<in>set rest. \<not> carries (detailUrl B') r"
    and "\<forall>r\<in>set (rowA # rowB # rest). \<not> carries (detailUrl C) r"
  shows "upsertMeetings [B', C] n w =
     (Inr (1, 1),
      w\<lparr>sheets := (sheets w)(n \<mapsto>
           header # rowA # (rowData B' @ drop 5 rowB) # rest @ [rowData C])\<rparr>)"
proof -
  let ?rows = "header # rowA # rowB # rest"
  have later: "\<forall>j. 1 < j \<and> j < length (rowA # rowB # rest) \<longrightarrow>
      cell ((rowA # rowB # rest) ! j) 4 \<noteq> Some (detailUrl B')"
  proof (intro allI impI)
    fix j
    assume j: "1 < j \<and> j < length (rowA # rowB # rest)"
    then have "(rowA # rowB # rest) ! j = rest ! (j - 2)" "j - 2 < length rest"
      by (auto simp: nth_Cons split: nat.splits)
    with assms(5) show "cell ((rowA # rowB # rest) ! j) 4 \<noteq> Some (detailUrl B')"
      by (auto simp: carries_def)
  qed
  have m_B: "urlToRowIndex (drop 1 ?rows) (detailUrl B') = Some 3"
    using urlToRowIndex_last [of "detailUrl B'" 1 "rowA # rowB # rest"] assms(3,4) later
    by (simp add: carries_def)
  have m_C: "urlToRowIndex (drop 1 ?rows) (detailUrl C) = None"
    using assms(6) by (simp add: urlToRowIndex_None_iff carries_def)
  show ?thesis
    using upsertMeetings_present [OF assms(1,2), where ms = "[B', C]"] m_B m_C
    by (simp add: write_row_in_range)
qed

theorem C1_upsert_update_and_insert_witness:
  "upsertMeetings [example_B', example_C] METI_SHEET_NAME
     (sheet_world [MAIN_HEADER, example_A, example_B]) =
   (Inr (1, 1),
    (sheet_world [MAIN_HEADER, example_A, example_B])
      \<lparr>sheets := (sheets (sheet_world [MAIN_HEADER, example_A, example_B]))
         (METI_SHEET_NAME \<mapsto> [MAIN_HEADER, example_A, rowData example_B', rowData example_C])\<rparr>)"
proof -
  have "detailUrl example_B' \<noteq> []" by (simp add: example_B'_def)
  then show ?thesis
    using C1_upsert_update_and_insert [OF healthy_sheet_world sheets_sheet_world,
        where B' = example_B' and rest = "[]" and C = example_C and rowA = example_A
        and rowB = example_B and header = MAIN_HEADER] carries_examples
    by (simp add: example_B_def)
qed

text \<open>
  C2, as stated, fails for a record whose URL is the empty string: a row with an empty
  fifth cell sets no entry in the map, so the second call inserts the record again.
\<close>

theorem C2_counterexample:
  "distinct (map detailUrl [example_no_key]) \<and>
   fst (upsertMeetings [example_no_key] METI_SHEET_NAME (sheet_world [MAIN_HEADER])) = Inr (0, 1) \<and>
   fst (upsertMeetings [example_no_key] METI_SHEET_NAME
          (snd (upsertMeetings [example_no_key] METI_SHEET_NAME (sheet_world [MAIN_HEADER])))) =
     Inr (0, 1) \<and>
   sheets (snd (upsertMeetings [example_no_key] METI_SHEET_NAME
          (snd (upsertMeetings [example_no_key] METI_SHEET_NAME (sheet_world [MAIN_HEADER])))))
      METI_SHEET_NAME =
     Some [MAIN_HEADER, rowData example_no_key, rowData example_no_key]"
proof -
  let ?w = "sheet_world [MAIN_HEADER]"
  let ?w1 = "?w\<lparr>sheets := (sheets ?w)(METI_SHEET_NAME \<mapsto> [MAIN_HEADER, rowData example_no_key])\<rparr>"
  have key: "detailUrl example_no_key = []" by (simp add: example_no_key_def)
  have no_entry: "urlToRowIndex rows [] = None" for rows
    by (simp add: urlToRowIndex_None_iff)
  have first: "upsertMeetings [example_no_key] METI_SHEET_NAME ?w = (Inr (0, 1), ?w1)"
    using upsertMeetings_present [OF healthy_sheet_world sheets_sheet_world [of "[MAIN_HEADER]"],
        where ms = "[example_no_key]"]
    by (simp add: no_entry key)
  have h1: "healthy ?w1" by (simp add: healthy_sheet_world)
  have s1: "sheets ?w1 METI_SHEET_NAME = Some [MAIN_HEADER, rowData example_no_key]" by simp
  have second: "upsertMeetings [example_no_key] METI_SHEET_NAME ?w1 =
     (Inr (0, 1), ?w1\<lparr>sheets := (sheets ?w1)(METI_SHEET_NAME \<mapsto>
        [MAIN_HEADER, rowData example_no_key, rowData example_no_key])\<rparr>)"
    using upsertMeetings_present [OF h1 s1, where ms = "[example_no_key]"]
    by (simp add: no_entry key)
  show ?thesis
    by (simp add: first second)
qed

text \<open>
  C2, amended. The records of the input have URLs that are distinct and not empty; the
  service is in order; the tab does not exist yet or has at least its header row. Then
  the first call of \<open>upsertMeetings\<close> returns, and a second call with the same input on
  the state that the first call left returns as many updates as the input has records,
  and no insert.
\<close>

theorem C2_upsert_twice:
  assumes "healthy w" and "sheets w n = None \<or> (\<exists>rows. sheets w n = Some rows \<and> rows \<noteq> [])"
    and "distinct (map detailUrl ms)" and "\<forall>x\<in>set ms. detailUrl x \<noteq> []"
  shows "\<exists>r1 w1 w2. upsertMeetings ms n w = (Inr r1, w1) \<and>
                     upsertMeetings ms n w1 = (Inr (length ms, 0), w2)"
proof -
  have second: "\<exists>w2. upsertMeetings ms n (w\<lparr>sheets := (sheets w)(n \<mapsto> apply_writes m rows ms)\<rparr>) =
                  (Inr (length ms, 0), w2)"
    if f: "fits m rows" and ne: "rows \<noteq> []" for m rows
  proof -
    let ?R = "apply_writes m rows ms"
    let ?w1 = "w\<lparr>sheets := (sheets w)(n \<mapsto> ?R)\<rparr>"
    have h1: "healthy ?w1" using assms(1) by simp
    have s1: "sheets ?w1 n = Some ?R" by simp
    have known: "urlToRowIndex (drop 1 ?R) (detailUrl x) \<noteq> None" if x: "x \<in> set ms" for x
    proof -
      from apply_writes_all_carried [OF f ne x]
      obtain j where j: "1 \<le> j" "j < length ?R" "carries (detailUrl x) (?R ! j)" by blast
      then have "?R ! j = drop 1 ?R ! (j - 1)" "j - 1 < length (drop 1 ?R)" by simp_all
      then have "?R ! j \<in> set (drop 1 ?R)" by (metis nth_mem)
      with j x assms(4) show ?thesis
        by (auto simp: urlToRowIndex_None_iff carries_def)
    qed
    then have "filter (\<lambda>x. urlToRowIndex (drop 1 ?R) (detailUrl x) \<noteq> None) ms = ms"
      and "filter (\<lambda>x. urlToRowIndex (drop 1 ?R) (detailUrl x) = None) ms = []"
      by (simp_all add: filter_id_conv filter_empty_conv)
    with upsertMeetings_present [OF h1 s1, of ms] show ?thesis by simp
  qed
  from assms(2) show ?thesis
  proof
    assume none: "sheets w n = None"
    have "MAIN_HEADER # map rowData ms = apply_writes Map.empty [MAIN_HEADER] ms"
      by (simp add: apply_writes_empty)
    with upsertMeetings_absent [OF assms(1) none, of ms]
      second [of Map.empty "[MAIN_HEADER]"]
    show ?thesis by (auto simp: fits_def)
  next
    assume "\<exists>rows. sheets w n = Some rows \<and> rows \<noteq> []"
    then obtain rows where rows: "sheets w n = Some rows" "rows \<noteq> []" by blast
    from upsertMeetings_present [OF assms(1) rows(1), of ms]
      second [OF fits_existing rows(2)]
    show ?thesis by auto
  qed
qed

theorem C2_upsert_twice_witness:
  "\<exists>r1 w1 w2.
     upsertMeetings [example_B', example_C] METI_SHEET_NAME
       (sheet_world [MAIN_HEADER, example_A, example_B]) = (Inr r1, w1) \<and>
     upsertMeetings [example_B', example_C] METI_SHEET_NAME w1 = (Inr (2, 0), w2)"
proof -
  have "distinct (map detailUrl [example_B', example_C])"
    and "\<forall>x\<in>set [example_B', example_C]. detailUrl x \<noteq> []"
    by (simp_all add: example_B'_def example_C_def)
  with C2_upsert_twice [OF healthy_sheet_world, where n = METI_SHEET_NAME
      and ms = "[example_B', example_C]" and rows1 = "[MAIN_HEADER, example_A, example_B]"]
  show ?thesis by (simp add: sheets_sheet_world numeral_2_eq_2)
qed

section \<open>Duplicate keys\<close>

lemma row_at_nth: "row_at rows k = Some r \<Longrightarrow> 1 \<le> k \<and> k \<le> length rows \<and> rows ! (k - Suc 0) = r"
  by (auto simp: row_at_def split: if_splits)

text \<open>
  C7. The tab has a header row; the rows with the 1-based indices \<open>a < b\<close> both carry the
  URL \<open>u\<close>, which is not empty, and no row after row \<open>b\<close> carries it. Then the data that
  \<open>upsertMeetings\<close> reads gives a map that sends \<open>u\<close> to \<open>b\<close>, the index of the last row
  that carries it; and after \<open>upsertMeetings\<close> with any input, the tab has no fewer rows
  than before and the earlier row \<open>a\<close> is as it was.
\<close>

theorem C7_last_row_wins:
  assumes "healthy w" and "sheets w n = Some rows"
    and "u \<noteq> []" and "2 \<le> a" and "a < b"
    and "row_at rows a = Some ra" and "carries u ra"
    and "row_at rows b = Some rb" and "carries u rb"
    and "\<forall>c r. b < c \<and> row_at rows c = Some r \<longrightarrow> \<not> carries u r"
  shows "(\<exists>existingData. getExistingData n w = (Inr existingData, w) \<and>
            urlToRowIndex existingData u = Some b) \<and>
         (\<exists>counts w' rows'. upsertMeetings ms n w = (Inr counts, w') \<and>
            sheets w' n = Some rows' \<and> length rows \<le> length rows' \<and>
            row_at rows' a = Some ra)"
proof -
  from row_at_nth [OF assms(6)] have a: "a \<le> length rows" "rows ! (a - Suc 0) = ra" by simp_all
  from row_at_nth [OF assms(8)] have b: "b \<le> length rows" "rows ! (b - Suc 0) = rb" by simp_all
  let ?data = "drop 1 rows"
  have b2: "b - 2 < length ?data" using b assms(4,5) by simp
  have at_b: "?data ! (b - 2) = rb"
  proof -
    have "Suc (b - 2) = b - Suc 0" using assms(4,5) by simp
    with b assms(4,5) show ?thesis by simp
  qed
  have later: "\<forall>j. b - 2 < j \<and> j < length ?data \<longrightarrow> cell (?data ! j) 4 \<noteq> Some u"
  proof (intro allI impI)
    fix j
    assume j: "b - 2 < j \<and> j < length ?data"
    then have "row_at rows (j + 2) = Some (?data ! j)" "b < j + 2"
      using assms(4,5) by (auto simp: row_at_def)
    with assms(10) show "cell (?data ! j) 4 \<noteq> Some u"
      by (auto simp: carries_def)
  qed
  have "urlToRowIndex ?data u = Some (b - 2 + 2)"
    using assms(3,9) b2 at_b later by (intro urlToRowIndex_last) (simp_all add: carries_def)
  then have m_u: "urlToRowIndex ?data u = Some b" using assms(4,5) by simp
  from healthy_read [OF assms(1,2)] m_u
  have first: "\<exists>existingData. getExistingData n w = (Inr existingData, w) \<and>
           urlToRowIndex existingData u = Some b"
    by (simp add: urlToRowIndex_take5)
  let ?m = "urlToRowIndex ?data"
  let ?rows' = "apply_writes ?m rows ms"
  have f: "fits ?m rows" by (rule fits_existing)
  have not_a: "\<forall>x\<in>set ms. ?m (detailUrl x) \<noteq> Some (a - Suc 0 + 1)"
  proof
    fix x
    assume "x \<in> set ms"
    show "?m (detailUrl x) \<noteq> Some (a - Suc 0 + 1)"
    proof
      assume "?m (detailUrl x) = Some (a - Suc 0 + 1)"
      then have ma: "?m (detailUrl x) = Some a" using assms(4) by simp
      from fitsD [OF f ma] a assms(7) have "detailUrl x = u" by (simp add: carries_def)
      with ma m_u assms(5) show False by simp
    qed
  qed
  have "a - Suc 0 < length rows" using a assms(4) by simp
  from apply_writes_untouched [OF f this not_a] a
  have keep: "?rows' ! (a - Suc 0) = ra" by simp
  have len: "length rows \<le> length ?rows'"
    using apply_writes_length [OF f, of ms] by simp
  with keep a assms(4) have "row_at ?rows' a = Some ra"
    by (simp add: row_at_def)
  with upsertMeetings_present [OF assms(1,2), of ms] len
  have "\<exists>counts w' rows'. upsertMeetings ms n w = (Inr counts, w') \<and>
           sheets w' n = Some rows' \<and> length rows \<le> length rows' \<and>
           row_at rows' a = Some ra"
    by simp
  with first show ?thesis by (rule conjI)
qed


theorem C7_last_row_wins_witness:
  "(\<exists>existingData.
      getExistingData METI_SHEET_NAME
        (sheet_world [MAIN_HEADER, example_A, example_B, example_B_again]) =
        (Inr existingData, sheet_world [MAIN_HEADER, example_A, example_B, example_B_again]) \<and>
      urlToRowIndex existingData ''https://example.org/b'' = Some 4) \<and>
   (\<exists>counts w' rows'.
      upsertMeetings [example_B', example_C] METI_SHEET_NAME
        (sheet_world [MAIN_HEADER, example_A, example_B, example_B_again]) = (Inr counts, w') \<and>
      sheets w' METI_SHEET_NAME = Some rows' \<and>
      length [MAIN_HEADER, example_A, example_B, example_B_again] \<le> length rows' \<and>
      row_at rows' 3 = Some example_B)"
proof -
  let ?rows = "[MAIN_HEADER, example_A, example_B, example_B_again]"
  have u: "detailUrl example_B' = ''https://example.org/b''" by (simp add: example_B'_def)
  have beyond: "\<forall>c r. 4 < c \<and> row_at ?rows c = Some r \<longrightarrow>
      \<not> carries ''https://example.org/b'' r"
    by (auto simp: row_at_def)
  have rows: "row_at ?rows 3 = Some example_B" "row_at ?rows 4 = Some example_B_again"
    by (simp_all add: row_at_def)
  show ?thesis
    using C7_last_row_wins [OF healthy_sheet_world sheets_sheet_world _ _ _ rows(1) _ rows(2) _ beyond,
        where ms = "[example_B', example_C]"] carries_examples(1,2)
    by (simp add: u)
qed

section \<open>Records of one input with the same key\<close>

lemma filter_nth_at:
  assumes "k < length xs" and "P (xs ! k)"
  shows "filter P xs ! length (filter P (take k xs)) = xs ! k"
    and "length (filter P (take k xs)) < length (filter P xs)"
proof -
  have "xs = take k xs @ xs ! k # drop (Suc k) xs"
    using assms(1) by (simp add: id_take_nth_drop)
  then have "filter P xs = filter P (take k xs @ xs ! k # drop (Suc k) xs)" by simp
  then have split: "filter P xs = filter P (take k xs) @ xs ! k # filter P (drop (Suc k) xs)"
    using assms(2) by simp
  show "filter P xs ! length (filter P (take k xs)) = xs ! k"
    by (subst split) (simp add: nth_append)
  have "length (filter P xs) =
      length (filter P (take k xs)) + 1 + length (filter P (drop (Suc k) xs))"
    using arg_cong [OF split, of length] by simp
  then show "length (filter P (take k xs)) < length (filter P xs)" by simp
qed

lemma filter_take_mono:
  assumes "i < j" and "j \<le> length xs" and "P (xs ! i)"
  shows "length (filter P (take i xs)) < length (filter P (take j xs))"
proof -
  have "i < length (take j xs)" "P (take j xs ! i)" using assms by simp_all
  with filter_nth_at(2) [of i "take j xs" P] assms(1) show ?thesis by (simp add: min_def)
qed

text \<open>
  C10. The service is in order and the tab exists. The input has two records, at the
  positions \<open>i < j\<close>, with the same URL, and no row below the header carries that URL.
  Then \<open>upsertMeetings\<close> returns; the map built before the loop has no entry for the URL;
  the number of inserts is the number of records of the input for which that map has no
  entry, which counts both records; and the fields of the two records are two rows, one
  after the other, after the rows that the tab had.
\<close>

theorem C10_same_key_inserted_twice:
  assumes "healthy w" and "sheets w n = Some rows"
    and "i < j" and "j < length ms" and "detailUrl (ms ! j) = detailUrl (ms ! i)"
    and "\<forall>r\<in>set (drop 1 rows). \<not> carries (detailUrl (ms ! i)) r"
  shows "\<exists>updated inserted w' rows' p q.
           upsertMeetings ms n w = (Inr (updated, inserted), w') \<and>
           urlToRowIndex (drop 1 rows) (detailUrl (ms ! i)) = None \<and>
           inserted = length (filter (\<lambda>x. urlToRowIndex (drop 1 rows) (detailUrl x) = None) ms) \<and>
           2 \<le> inserted \<and>
           sheets w' n = Some rows' \<and> length rows < p \<and> p < q \<and>
           row_at rows' p = Some (rowData (ms ! i)) \<and>
           row_at rows' q = Some (rowData (ms ! j))"
proof -
  let ?m = "urlToRowIndex (drop 1 rows)"
  let ?P = "\<lambda>x. ?m (detailUrl x) = None"
  let ?rows' = "apply_writes ?m rows ms"
  let ?p = "length (filter ?P (take i ms))"
  let ?q = "length (filter ?P (take j ms))"
  have none: "?m (detailUrl (ms ! i)) = None"
    using assms(6) by (simp add: urlToRowIndex_None_iff carries_def)
  then have Pi: "?P (ms ! i)" and Pj: "?P (ms ! j)" using assms(5) by simp_all
  have i: "i < length ms" using assms(3,4) by simp
  have pq: "?p < ?q" using assms(3,4) Pi by (intro filter_take_mono) simp_all
  have q: "?q < length (filter ?P ms)" using assms(4) Pj by (rule filter_nth_at(2))
  have at_p: "filter ?P ms ! ?p = ms ! i" using i Pi by (rule filter_nth_at(1))
  have at_q: "filter ?P ms ! ?q = ms ! j" using assms(4) Pj by (rule filter_nth_at(1))
  have f: "fits ?m rows" by (rule fits_existing)
  have len: "length ?rows' = length rows + length (filter ?P ms)"
    using apply_writes_length [OF f, of ms] by simp
  have tail: "drop (length rows) ?rows' = map rowData (filter ?P ms)"
    using apply_writes_appended [OF f, of ms] by simp
  have nth: "?rows' ! (length rows + k) = rowData (filter ?P ms ! k)"
    if "k < length (filter ?P ms)" for k
  proof -
    have "?rows' ! (length rows + k) = drop (length rows) ?rows' ! k"
      using len by simp
    with that tail show ?thesis by simp
  qed
  have row_p: "row_at ?rows' (length rows + ?p + 1) = Some (rowData (ms ! i))"
    using nth [of ?p] pq q at_p len by (simp add: row_at_def)
  have row_q: "row_at ?rows' (length rows + ?q + 1) = Some (rowData (ms ! j))"
    using nth [of ?q] q at_q len by (simp add: row_at_def)
  have two: "2 \<le> length (filter ?P ms)" using pq q by simp
  have run: "upsertMeetings ms n w =
      (Inr (length (filter (\<lambda>x. ?m (detailUrl x) \<noteq> None) ms), length (filter ?P ms)),
       w\<lparr>sheets := (sheets w)(n \<mapsto> ?rows')\<rparr>)"
    using upsertMeetings_present [OF assms(1,2), of ms] by simp
  have s': "sheets (w\<lparr>sheets := (sheets w)(n \<mapsto> ?rows')\<rparr>) n = Some ?rows'" by simp
  have lt: "length rows < length rows + ?p + 1" "length rows + ?p + 1 < length rows + ?q + 1"
    using pq by simp_all
  from run none two s' lt row_p row_q show ?thesis by blast
qed

theorem C10_same_key_inserted_twice_witness:
  "\<exists>updated inserted w' rows' p q.
     upsertMeetings [example_C, example_B', example_C] METI_SHEET_NAME
       (sheet_world [MAIN_HEADER, example_A, example_B]) = (Inr (updated, inserted), w') \<and>
     urlToRowIndex [example_A, example_B] (detailUrl example_C) = None \<and>
     inserted = 2 \<and>
     sheets w' METI_SHEET_NAME = Some rows' \<and> 3 < p \<and> p < q \<and>
     row_at rows' p = Some (rowData example_C) \<and>
     row_at rows' q = Some (rowData example_C)"
proof -
  have absent: "\<forall>r\<in>set (drop 1 [MAIN_HEADER, example_A, example_B]).
      \<not> carries (detailUrl ([example_C, example_B', example_C] ! 0)) r"
    using carries_examples by simp
  have known: "urlToRowIndex [example_A, example_B] (detailUrl example_B') \<noteq> None"
    using carries_examples by (auto simp: urlToRowIndex_None_iff carries_def example_B'_def)
  have count: "length (filter (\<lambda>x. urlToRowIndex (drop 1 [MAIN_HEADER, example_A, example_B])
                  (detailUrl x) = None) [example_C, example_B', example_C]) = 2"
    if "urlToRowIndex (drop 1 [MAIN_HEADER, example_A, example_B])
          (detailUrl ([example_C, example_B', example_C] ! 0)) = None"
    using that known by simp
  from C10_same_key_inserted_twice [OF healthy_sheet_world sheets_sheet_world _ _ _ absent, of 2]
  obtain updated inserted w' rows' p q where
    "upsertMeetings [example_C, example_B', example_C] METI_SHEET_NAME
       (sheet_world [MAIN_HEADER, example_A, example_B]) = (Inr (updated, inserted), w')"
    "urlToRowIndex (drop 1 [MAIN_HEADER, example_A, example_B])
       (detailUrl ([example_C, example_B', example_C] ! 0)) = None"
    "inserted = length (filter (\<lambda>x. urlToRowIndex (drop 1 [MAIN_HEADER, example_A, example_B])
                  (detailUrl x) = None) [example_C, example_B', example_C])"
    "sheets w' METI_SHEET_NAME = Some rows'" "length [MAIN_HEADER, example_A, example_B] < p" "p < q"
    "row_at rows' p = Some (rowData ([example_C, example_B', example_C] ! 0))"
    "row_at rows' q = Some (rowData ([example_C, example_B', example_C] ! 2))"
    by auto
  with count have
    "upsertMeetings [example_C, example_B', example_C] METI_SHEET_NAME
       (sheet_world [MAIN_HEADER, example_A, example_B]) = (Inr (updated, inserted), w') \<and>
     urlToRowIndex [example_A, example_B] (detailUrl example_C) = None \<and>
     inserted = 2 \<and>
     sheets w' METI_SHEET_NAME = Some rows' \<and> 3 < p \<and> p < q \<and>
     row_at rows' p = Some (rowData example_C) \<and>
     row_at rows' q = Some (rowData example_C)"
    by simp
  then show ?thesis by blast
qed

section \<open>A failing read\<close>

lemma healthy_faults_Nil: "configured w \<Longrightarrow> healthy (w\<lparr>faults := []\<rparr>)"
  by (simp add: healthy_def)

lemma healthy_stderr_faults: "configured w \<Longrightarrow> healthy (w\<lparr>faults := [], stderr := l\<rparr>)"
  by (simp add: healthy_def)

lemma getExistingData_returns:
  "\<exists>existingData w'. getExistingData n w = (Inr existingData, w')"
  by (auto simp: getExistingData_def io_catch_def io_bind_def io_return_def console_error_def
      split: prod.splits sum.splits)

lemma getExistingData_failed:
  assumes "io_bind getSpreadsheetId (\<lambda>spreadsheetId. api_values_get_A2E spreadsheetId n) w = (Inl e, w1)"
  shows "getExistingData n w =
     (Inr [], w1\<lparr>stderr := stderr w1 @ [''Failed to get existing data: '' @ render e]\<rparr>)"
  using assms
  by (simp add: getExistingData_def io_catch_def io_bind_def io_return_def console_error_def)

text \<open>
  C9, as stated, fails when the read fails for a cause that makes the writes fail as
  well: here \<open>SPREADSHEET_ID\<close> is not set. \<open>getExistingData\<close> returns the empty list,
  and the first write of the loop throws to the caller; nothing is added to the tab.
\<close>

theorem C9_counterexample:
  "fst (getExistingData METI_SHEET_NAME unconfigured_sheet_world) = Inr [] \<and>
   fst (upsertMeetings [example_B', example_C] METI_SHEET_NAME unconfigured_sheet_world) =
     Inl (Error ''SPREADSHEET_ID is not set'') \<and>
   sheets (snd (upsertMeetings [example_B', example_C] METI_SHEET_NAME unconfigured_sheet_world))
     METI_SHEET_NAME = Some [MAIN_HEADER, example_A] \<and>
   stderr (snd (upsertMeetings [example_B', example_C] METI_SHEET_NAME unconfigured_sheet_world)) =
     [''Failed to ensure main sheet exists: Error: SPREADSHEET_ID is not set'',
      ''Failed to get existing data: Error: SPREADSHEET_ID is not set'']"
  by code_simp

text \<open>
  C9, amended. \<open>getExistingData\<close> returns in every state, and when its request throws
  it writes the error to the diagnostic output and returns the empty list. In
  \<open>upsertMeetings\<close>, when the tab exists, the request for the credentials goes through,
  the request that reads the data region throws and the later requests go through, the
  call returns no update and as many inserts as the input has records, and the records
  are added after the rows of the tab, in order.
\<close>

theorem C9_failed_read_inserts_all:
  assumes "configured w" and "sheets w n = Some rows" and "faults w = [None, f, Some e]"
  shows "(\<exists>existingData w'. getExistingData n w0 = (Inr existingData, w')) \<and>
         (\<forall>e0 w1. io_bind getSpreadsheetId (\<lambda>spreadsheetId. api_values_get_A2E spreadsheetId n) w0 =
                     (Inl e0, w1) \<longrightarrow>
                  getExistingData n w0 =
                    (Inr [], w1\<lparr>stderr := stderr w1 @ [''Failed to get existing data: '' @ render e0]\<rparr>)) \<and>
         (\<exists>w'. upsertMeetings ms n w = (Inr (0, length ms), w') \<and>
               sheets w' n = Some (rows @ map rowData ms) \<and>
               last (stderr w') = ''Failed to get existing data: '' @ render e)"
proof -
  from configured_id [OF assms(1)] obtain s where s: "getSpreadsheetId w = (Inr s, w)" by blast
  have id: "getSpreadsheetId w' = (Inr s, w')"
    if "SPREADSHEET_ID w' = SPREADSHEET_ID w" for w'
    using s that by (auto simp: getSpreadsheetId_def split: option.splits if_splits)
  let ?wa = "w\<lparr>faults := [f, Some e]\<rparr>"
  have client: "getSheetsClient w = (Inr (), ?wa)"
    using assms(3) by (simp add: getSheetsClient_def remote_def io_return_def)
  obtain l where ensure: "ensureMainSheetExists n ?wa = (Inr (), w\<lparr>faults := [Some e], stderr := l\<rparr>)"
  proof (cases f)
    case None
    have "ensureMainSheetExists n ?wa = (Inr (), w\<lparr>faults := [Some e], stderr := stderr w\<rparr>)"
      using None assms(2) id [of ?wa]
      by (simp add: ensureMainSheetExists_def ensureSheetExists_def io_catch_def io_bind_def
          io_return_def api_spreadsheets_get_def remote_def)
    then show ?thesis by (rule that)
  next
    case (Some e2)
    have "ensureMainSheetExists n ?wa =
        (Inr (), w\<lparr>faults := [Some e],
                   stderr := stderr w @ [''Failed to ensure main sheet exists: '' @ render e2]\<rparr>)"
      using Some id [of ?wa]
      by (simp add: ensureMainSheetExists_def ensureSheetExists_def io_catch_def io_bind_def
          api_spreadsheets_get_def remote_def console_error_def)
    then show ?thesis by (rule that)
  qed
  let ?wb = "w\<lparr>faults := [Some e], stderr := l\<rparr>"
  let ?wc = "w\<lparr>faults := [], stderr := l @ [''Failed to get existing data: '' @ render e]\<rparr>"
  have read: "getExistingData n ?wb = (Inr [], ?wc)"
    using id [of ?wb]
    by (simp add: getExistingData_def io_catch_def io_bind_def io_return_def
        api_values_get_A2E_def remote_def console_error_def)
  have hc: "healthy ?wc" using assms(1) by (rule healthy_stderr_faults)
  have sc: "sheets ?wc n = Some rows" using assms(2) by simp
  have loop: "upsert_loop Map.empty n ms (0, 0) ?wc =
      (Inr (0, length ms), ?wc\<lparr>sheets := (sheets ?wc)(n \<mapsto> rows @ map rowData ms)\<rparr>)"
    using upsert_loop_healthy [OF hc sc, of ms Map.empty 0 0]
    by (simp add: apply_writes_empty)
  have run: "upsertMeetings ms n w =
      (Inr (0, length ms), ?wc\<lparr>sheets := (sheets ?wc)(n \<mapsto> rows @ map rowData ms)\<rparr>)"
    using client ensure read loop
    by (simp add: upsertMeetings_def io_bind_def urlToRowIndex_Nil)
  have third: "\<exists>w'. upsertMeetings ms n w = (Inr (0, length ms), w') \<and>
               sheets w' n = Some (rows @ map rowData ms) \<and>
               last (stderr w') = ''Failed to get existing data: '' @ render e"
    by (simp add: run)
  from getExistingData_returns [of n w0] getExistingData_failed [of n w0] third
  show ?thesis by blast
qed


lemma configured_sheet_world: "configured (sheet_world rows)"
  using healthy_sheet_world [of rows] by (simp add: healthy_def)

theorem C9_failed_read_inserts_all_witness:
  "(\<exists>existingData w'. getExistingData METI_SHEET_NAME next_fails_world = (Inr existingData, w')) \<and>
   getExistingData METI_SHEET_NAME next_fails_world =
     (Inr [], next_fails_world
        \<lparr>faults := [],
         stderr := [''Failed to get existing data: Error: The service is currently unavailable.'']\<rparr>) \<and>
   (\<exists>w'. upsertMeetings [example_B', example_C] METI_SHEET_NAME read_fails_world =
            (Inr (0, length [example_B', example_C]), w') \<and>
         sheets w' METI_SHEET_NAME =
           Some [MAIN_HEADER, example_A, rowData example_B', rowData example_C] \<and>
         last (stderr w') =
           ''Failed to get existing data: Error: The service is currently unavailable.'')"
proof -
  have c: "configured read_fails_world"
    using configured_sheet_world [of "[MAIN_HEADER, example_A]"]
    by (simp add: read_fails_world_def)
  have s: "sheets read_fails_world METI_SHEET_NAME = Some [MAIN_HEADER, example_A]"
    by (simp add: read_fails_world_def sheets_sheet_world)
  have f: "faults read_fails_world = [None, None, Some example_unavailable]"
    by (simp add: read_fails_world_def)
  from configured_id [OF configured_sheet_world [of "[MAIN_HEADER, example_A]"]]
  obtain i where "getSpreadsheetId (sheet_world [MAIN_HEADER, example_A]) =
      (Inr i, sheet_world [MAIN_HEADER, example_A])" by blast
  then have "getSpreadsheetId next_fails_world = (Inr i, next_fails_world)"
    by (auto simp: getSpreadsheetId_def next_fails_world_def split: option.splits if_splits)
  then have fails: "io_bind getSpreadsheetId
      (\<lambda>spreadsheetId. api_values_get_A2E spreadsheetId METI_SHEET_NAME) next_fails_world =
      (Inl example_unavailable, next_fails_world\<lparr>faults := []\<rparr>)"
    by (simp add: io_bind_def api_values_get_A2E_def remote_def next_fails_world_def)
  have err: "stderr next_fails_world = []"
    by (simp add: next_fails_world_def sheet_world_def example_world_def)
  from C9_failed_read_inserts_all [OF c s f, where ?w0.0 = next_fails_world
      and ms = "[example_B', example_C]"] fails err
  show ?thesis
    by (simp add: render_def example_unavailable_def)
qed

section \<open>The audit logger\<close>

text \<open>
  C8. In every state and for every argument, \<open>logExecution\<close> returns. When its try block
  throws, the call writes the error to the diagnostic output and returns; apart from
  that line the state is the one in which the try block threw.
\<close>

theorem C8_logExecution_never_throws:
  "(\<exists>w'. logExecution sheetName st summary errorDetail w = (Inr (), w')) \<and>
   (\<forall>e w1. logExecution_try sheetName st summary errorDetail w = (Inl e, w1) \<longrightarrow>
            logExecution sheetName st summary errorDetail w =
              (Inr (), w1\<lparr>stderr := stderr w1 @ [''Failed to log execution: '' @ render e]\<rparr>))"
  by (auto simp: logExecution_def io_catch_def console_error_def split: prod.splits sum.splits)

lemma logExecution_try_unreachable:
  "logExecution_try METI_HISTORY_SHEET_NAME Failure ''boom'' ''-'' next_fails_world =
     (Inl example_unavailable, next_fails_world\<lparr>faults := []\<rparr>)"
  by (simp add: logExecution_try_def io_bind_def getSheetsClient_def remote_def
      next_fails_world_def)

theorem C8_logExecution_never_throws_witness:
  "logExecution METI_HISTORY_SHEET_NAME Failure ''boom'' ''-'' next_fails_world =
     (Inr (), next_fails_world
        \<lparr>faults := [],
         stderr := [''Failed to log execution: Error: The service is currently unavailable.'']\<rparr>)"
proof -
  have err: "stderr next_fails_world = []"
    by (simp add: next_fails_world_def sheet_world_def example_world_def)
  from C8_logExecution_never_throws [of METI_HISTORY_SHEET_NAME Failure "''boom''" "''-''"
      next_fails_world] logExecution_try_unreachable err
  show ?thesis by (simp add: render_def example_unavailable_def)
qed

section \<open>The groups of the date pattern\<close>

lemma digits_exact_length: "digits_exact n s = Some (d, r) \<Longrightarrow> length d = n"
proof (induction n s arbitrary: d r rule: digits_exact.induct)
  case (1 s)
  then show ?case by simp
next
  case (2 n)
  then show ?case by simp
next
  case (3 n c cs)
  then show ?case by (auto split: if_splits option.splits)
qed

lemma digits_1_2_nonempty:
  assumes "(d, r) \<in> set (digits_1_2 s)"
  shows "d \<noteq> []"
proof -
  from assms have "digits_exact (Suc (Suc 0)) s = Some (d, r) \<or> digits_exact (Suc 0) s = Some (d, r)"
    by (auto simp: digits_1_2_def split: option.splits)
  then have "length d = Suc (Suc 0) \<or> length d = Suc 0"
    by (auto dest: digits_exact_length)
  then show ?thesis by auto
qed

lemma first_some_SomeD: "first_some f xs = Some r \<Longrightarrow> \<exists>x\<in>set xs. f x = Some r"
  by (induction xs) (auto split: option.splits)

lemma search_SomeD: "search re s = Some r \<Longrightarrow> \<exists>s'. re s' = Some r"
  by (induction s) (auto split: option.splits)

lemma date_re_here_groups:
  assumes "date_re_here s = Some (y, m, d)"
  shows "y \<noteq> [] \<and> m \<noteq> [] \<and> d \<noteq> []"
proof -
  from assms obtain y' s1 s2 where y': "digits_exact 4 s = Some (y', s1)"
    and rest: "first_some (\<lambda>(m, s3).
          (case lit GATSU s3 of None \<Rightarrow> None | Some s4 \<Rightarrow>
            first_some (\<lambda>(d, s5).
              (case lit NICHI s5 of None \<Rightarrow> None | Some s6 \<Rightarrow> Some (y', m, d)))
              (digits_1_2 s4)))
          (digits_1_2 s2) = Some (y, m, d)"
    by (auto simp: date_re_here_def split: option.splits)
  from first_some_SomeD [OF rest] obtain m' s3 where m': "(m', s3) \<in> set (digits_1_2 s2)"
    and inner: "(case lit GATSU s3 of None \<Rightarrow> None | Some s4 \<Rightarrow>
            first_some (\<lambda>(d, s5).
              (case lit NICHI s5 of None \<Rightarrow> None | Some s6 \<Rightarrow> Some (y', m', d)))
              (digits_1_2 s4)) = Some (y, m, d)"
    by auto
  from inner obtain s4 where day: "first_some (\<lambda>(d, s5).
              (case lit NICHI s5 of None \<Rightarrow> None | Some s6 \<Rightarrow> Some (y', m', d)))
              (digits_1_2 s4) = Some (y, m, d)"
    by (auto split: option.splits)
  from first_some_SomeD [OF day] obtain d' s5 where d': "(d', s5) \<in> set (digits_1_2 s4)"
    and eq: "(case lit NICHI s5 of None \<Rightarrow> None | Some s6 \<Rightarrow> Some (y', m', d')) = Some (y, m, d)"
    by auto
  from eq have "y = y'" "m = m'" "d = d'" by (auto split: option.splits)
  with digits_exact_length [OF y'] digits_1_2_nonempty [OF m'] digits_1_2_nonempty [OF d']
  show ?thesis by auto
qed

lemma date_re_groups: "date_re t = Some (y, m, d) \<Longrightarrow> truthy y \<and> truthy m \<and> truthy d"
  unfolding date_re_def truthy_def
  by (blast dest: search_SomeD date_re_here_groups)

lemma occto_date_nonempty_iff: "occto_date t \<noteq> [] \<longleftrightarrow> date_re t \<noteq> None"
proof (cases "date_re t")
  case None
  then show ?thesis by (simp add: occto_date_def)
next
  case (Some g)
  obtain y m d where g: "g = (y, m, d)" by (cases g)
  with Some date_re_groups [of t y m d] show ?thesis by (simp add: occto_date_def)
qed

lemma parseDate_nonempty: "dateStr \<noteq> [] \<Longrightarrow> parseDate dateStr \<noteq> []"
  by (auto simp: parseDate_def split: option.splits)

section \<open>The METI scraper\<close>

lemma parseListPage_dates: "(nm, d, u) \<in> set (parseListPage rows) \<Longrightarrow> d \<noteq> []"
proof (induction rows)
  case Nil
  then show ?case by simp
next
  case (Cons row rows)
  show ?case
  proof (cases "(nm, d, u) \<in> set (parseListPage rows)")
    case True
    then show ?thesis by (rule Cons.IH)
  next
    case False
    with Cons.prems have "d = parseDate (dateText row)" "truthy (dateText row)"
      by (auto split: option.splits if_splits)
    then show ?thesis by (simp add: truthy_def parseDate_nonempty)
  qed
qed

lemma meti_parseDetailPage_returns: "\<exists>ta w'. meti_parseDetailPage u w = (Inr ta, w')"
  by (auto simp: meti_parseDetailPage_def io_catch_def io_bind_def io_return_def console_error_def
      split: prod.splits sum.splits)

lemma meti_loop_dates:
  "\<forall>x\<in>set acc. date x \<noteq> [] \<Longrightarrow> \<forall>e\<in>set entries. fst (snd e) \<noteq> [] \<Longrightarrow>
   \<exists>ms w'. meti_loop entries acc w = (Inr ms, w') \<and> (\<forall>x\<in>set ms. date x \<noteq> []) \<and>
           map (\<lambda>x. (name x, date x, detailUrl x)) ms =
             map (\<lambda>x. (name x, date x, detailUrl x)) acc @ entries"
proof (induction entries arbitrary: acc w)
  case Nil
  then show ?case by simp
next
  case (Cons entry entries)
  from meti_parseDetailPage_returns [of "snd (snd entry)" w]
  obtain ta w1 where step: "meti_parseDetailPage (snd (snd entry)) w = (Inr ta, w1)" by blast
  let ?acc = "acc @ [\<lparr>name = fst entry, date = fst (snd entry), time = fst ta,
                       agenda = snd ta, detailUrl = snd (snd entry)\<rparr>]"
  have "\<forall>x\<in>set ?acc. date x \<noteq> []" using Cons.prems by simp
  moreover have "\<forall>e\<in>set entries. fst (snd e) \<noteq> []" using Cons.prems by simp
  ultimately obtain ms w' where "meti_loop entries ?acc w1 = (Inr ms, w')"
    "\<forall>x\<in>set ms. date x \<noteq> []"
    "map (\<lambda>x. (name x, date x, detailUrl x)) ms =
       map (\<lambda>x. (name x, date x, detailUrl x)) ?acc @ entries"
    using Cons.IH [of ?acc w1] by blast
  with step show ?case by simp
qed

lemma meti_scrape_dates:
  assumes "fetchWithUserAgent LIST_URL w = (Inr listHtml, w0)"
  shows "\<exists>ms w'. meti_scrapeMeetings w = (Inr ms, w') \<and> (\<forall>x\<in>set ms. date x \<noteq> []) \<and>
           map (\<lambda>x. (name x, date x, detailUrl x)) ms = parseListPage (meti_load_list listHtml)"
proof -
  have "\<forall>e\<in>set (parseListPage (meti_load_list listHtml)). fst (snd e) \<noteq> []"
    using parseListPage_dates by force
  from meti_loop_dates [OF _ this, of "[]"
      "w0\<lparr>stderr := stderr w0 @ parseListPage_warnings (meti_load_list listHtml)\<rparr>"] assms
  show ?thesis
    by (simp add: meti_scrapeMeetings_def io_bind_def console_lines_def)
qed

lemma meti_scrape_InrD:
  assumes "meti_scrapeMeetings w = (Inr ms, w')"
  shows "\<exists>listHtml w0. fetchWithUserAgent LIST_URL w = (Inr listHtml, w0)"
  using assms by (auto simp: meti_scrapeMeetings_def io_bind_def split: prod.splits sum.splits)

section \<open>The OCCTO scraper\<close>

lemma date_re_Nil: "date_re [] = None"
  by (simp add: date_re_def date_re_here_def eval_nat_numeral)

lemma fetch_web: "fetchWithUserAgent u w = (r, w') \<Longrightarrow> web w' = web w"
  by (auto simp: fetchWithUserAgent_def Let_def split: http_response.splits if_splits)

lemma occto_dated_cong: "web w' = web w \<Longrightarrow> occto_dated w' = occto_dated w"
  by (rule ext) (simp add: occto_dated_def)

lemma occto_parse_dom_dated:
  "d_date (occto_parse_dom pg) \<noteq> [] \<longleftrightarrow> date_re (dateTimeText pg) \<noteq> None"
  by (cases "dateTimeText pg = []")
    (simp_all add: occto_parse_dom_def truthy_def date_re_Nil occto_date_nonempty_iff)

lemma occto_load_dated:
  "d_date (occto_parse_dom (occto_load b)) \<noteq> [] \<longleftrightarrow>
   (case b of OcctoDetailHtml pg \<Rightarrow> date_re (dateTimeText pg) \<noteq> None | _ \<Rightarrow> False)"
  by (cases b) (simp_all add: occto_load_def occto_parse_dom_dated date_re_Nil)

lemma occto_detail_page:
  "\<exists>d w'. occto_parseDetailPage u w = (Inr d, w') \<and> web w' = web w \<and>
          (d_date d \<noteq> [] \<longleftrightarrow> occto_dated w u)"
proof (cases "web w u")
  case (NetworkFailure e)
  then show ?thesis
    by (simp add: occto_parseDetailPage_def io_catch_def io_bind_def io_return_def
        console_error_def fetchWithUserAgent_def occto_dated_def)
next
  case (Response status statusText b)
  show ?thesis
  proof (cases "200 \<le> status \<and> status \<le> 299")
    case True
    with Response have "occto_parseDetailPage u w =
        (Inr (occto_parse_dom (occto_load b)), w\<lparr>requests := requests w @ [u]\<rparr>)"
      by (simp add: occto_parseDetailPage_ok)
    moreover have "d_date (occto_parse_dom (occto_load b)) \<noteq> [] \<longleftrightarrow> occto_dated w u"
      using Response True by (simp add: occto_load_dated occto_dated_def split: body.splits)
    ultimately show ?thesis by simp
  next
    case False
    with Response show ?thesis
      by (auto simp: occto_parseDetailPage_def io_catch_def io_bind_def io_return_def
          console_error_def fetchWithUserAgent_def occto_dated_def split: body.splits)
  qed
qed

lemma occto_loop_dates:
  "\<forall>x\<in>set acc. date x \<noteq> [] \<Longrightarrow>
   \<exists>ms w'. occto_loop entries acc w = (Inr ms, w') \<and> (\<forall>x\<in>set ms. date x \<noteq> []) \<and>
           map detailUrl ms = map detailUrl acc @ filter (occto_dated w) (map snd entries)"
proof (induction entries arbitrary: acc w)
  case Nil
  then show ?case by simp
next
  case (Cons entry entries)
  from occto_detail_page [of "snd entry" w]
  obtain d w1 where step: "occto_parseDetailPage (snd entry) w = (Inr d, w1)"
    and web: "web w1 = web w" and dated: "d_date d \<noteq> [] \<longleftrightarrow> occto_dated w (snd entry)"
    by blast
  note same = occto_dated_cong [OF web]
  show ?case
  proof (cases "d_date d = []")
    case True
    from Cons.IH [OF Cons.prems, of w1]
    obtain ms w' where "occto_loop entries acc w1 = (Inr ms, w')" "\<forall>x\<in>set ms. date x \<noteq> []"
      "map detailUrl ms = map detailUrl acc @ filter (occto_dated w1) (map snd entries)"
      by blast
    with step True dated same show ?thesis by (simp add: truthy_def)
  next
    case False
    let ?acc = "acc @ [\<lparr>name = d_name d, date = d_date d, time = d_time d,
                         agenda = d_agenda d, detailUrl = snd entry\<rparr>]"
    have "\<forall>x\<in>set ?acc. date x \<noteq> []" using Cons.prems False by simp
    from Cons.IH [OF this, of w1]
    obtain ms w' where "occto_loop entries ?acc w1 = (Inr ms, w')" "\<forall>x\<in>set ms. date x \<noteq> []"
      "map detailUrl ms = map detailUrl ?acc @ filter (occto_dated w1) (map snd entries)"
      by blast
    with step False dated same show ?thesis by (simp add: truthy_def)
  qed
qed

lemma parseNewsJson_web: "parseNewsJson w = (Inr entries, w0) \<Longrightarrow> web w0 = web w"
  by (auto simp: parseNewsJson_def io_catch_def io_bind_def io_throw_def
      split: prod.splits sum.splits body.splits thrown.splits dest: fetch_web)

lemma occto_scrape_dates:
  assumes "parseNewsJson w = (Inr entries, w0)"
  shows "\<exists>ms w'. occto_scrapeMeetings w = (Inr ms, w') \<and> (\<forall>x\<in>set ms. date x \<noteq> []) \<and>
           map detailUrl ms = filter (occto_dated w) (map snd entries)"
  using occto_loop_dates [of "[]" entries w0] assms occto_dated_cong [OF parseNewsJson_web [OF assms]]
  by (simp add: occto_scrapeMeetings_def io_bind_def)

lemma occto_scrape_InrD:
  assumes "occto_scrapeMeetings w = (Inr ms, w')"
  shows "\<exists>entries w0. parseNewsJson w = (Inr entries, w0)"
  using assms by (auto simp: occto_scrapeMeetings_def io_bind_def split: prod.splits sum.splits)


section \<open>The dates of the scraped records\<close>

text \<open>
  C3, as stated, fails for the METI scraper: a list row whose date text does not match
  the date pattern becomes a record with that text as its date, and the record is
  returned.
\<close>

theorem C3_counterexample:
  "fst (meti_scrapeMeetings example_world) =
     Inr [\<lparr>name = ''Council X'', date = ''2026-01-19'', time = ''10:00'', agenda = ''budget'',
           detailUrl = ''https://wwws.meti.go.jp/interface/x.html''\<rparr>,
          \<lparr>name = ''Council Y'', date = ''TBD'', time = [], agenda = [],
           detailUrl = ''https://wwws.meti.go.jp/interface/honsho/committee/index.cgi/y.html''\<rparr>] \<and>
   date_re ''TBD'' = None"
  by code_simp

text \<open>
  C3, amended. Every record that either scraper returns has a date that is not empty.
  When the news feed is read, the OCCTO scraper returns, and its records are, in order,
  the candidates whose detail page yields a date: a candidate whose page cannot be
  fetched, or whose date/time text does not match the date pattern, is dropped. When the
  list page is fetched, the METI scraper returns one record for every entry of the list;
  the date of an entry whose date text does not match the date pattern is that text.
\<close>

theorem C3_scraped_dates:
  "(\<forall>ms w'. meti_scrapeMeetings w = (Inr ms, w') \<longrightarrow> (\<forall>x\<in>set ms. date x \<noteq> [])) \<and>
   (\<forall>ms w'. occto_scrapeMeetings w = (Inr ms, w') \<longrightarrow> (\<forall>x\<in>set ms. date x \<noteq> [])) \<and>
   (\<forall>entries w0. parseNewsJson w = (Inr entries, w0) \<longrightarrow>
      (\<exists>ms w'. occto_scrapeMeetings w = (Inr ms, w') \<and>
               map detailUrl ms = filter (occto_dated w) (map snd entries))) \<and>
   (\<forall>listHtml w0. fetchWithUserAgent LIST_URL w = (Inr listHtml, w0) \<longrightarrow>
      (\<exists>ms w'. meti_scrapeMeetings w = (Inr ms, w') \<and>
               map (\<lambda>x. (name x, date x, detailUrl x)) ms =
                 parseListPage (meti_load_list listHtml))) \<and>
   (\<forall>t. date_re t = None \<longrightarrow> parseDate t = t)"
proof (intro conjI allI impI)
  fix ms w'
  assume run: "meti_scrapeMeetings w = (Inr ms, w')"
  from meti_scrape_InrD [OF run] obtain listHtml w0
    where "fetchWithUserAgent LIST_URL w = (Inr listHtml, w0)" by blast
  from meti_scrape_dates [OF this] run show "\<forall>x\<in>set ms. date x \<noteq> []" by auto
next
  fix ms w'
  assume run: "occto_scrapeMeetings w = (Inr ms, w')"
  from occto_scrape_InrD [OF run] obtain entries w0
    where "parseNewsJson w = (Inr entries, w0)" by blast
  from occto_scrape_dates [OF this] run show "\<forall>x\<in>set ms. date x \<noteq> []" by auto
next
  fix entries w0
  assume "parseNewsJson w = (Inr entries, w0)"
  from occto_scrape_dates [OF this]
  show "\<exists>ms w'. occto_scrapeMeetings w = (Inr ms, w') \<and>
               map detailUrl ms = filter (occto_dated w) (map snd entries)" by blast
next
  fix listHtml w0
  assume "fetchWithUserAgent LIST_URL w = (Inr listHtml, w0)"
  from meti_scrape_dates [OF this]
  show "\<exists>ms w'. meti_scrapeMeetings w = (Inr ms, w') \<and>
               map (\<lambda>x. (name x, date x, detailUrl x)) ms =
                 parseListPage (meti_load_list listHtml)" by blast
next
  fix t
  assume "date_re t = None"
  then show "parseDate t = t" by (simp add: parseDate_def)
qed

lemma example_list_fetch:
  "\<exists>w0. fetchWithUserAgent LIST_URL example_world = (Inr (MetiListHtml example_list), w0)"
proof -
  have "web example_world LIST_URL = Response 200 ''OK'' (MetiListHtml example_list)"
    by code_simp
  from fetch_ok [OF this] show ?thesis by simp
qed

lemma example_news:
  "\<exists>w0. parseNewsJson example_world =
     (Inr [(''A'', ''https://www.occto.or.jp/a.html''), (''C'', ''https://www.occto.or.jp/c.html'')], w0)"
proof -
  have "fst (parseNewsJson example_world) =
     Inr [(''A'', ''https://www.occto.or.jp/a.html''), (''C'', ''https://www.occto.or.jp/c.html'')]"
    by code_simp
  then show ?thesis by (cases "parseNewsJson example_world") simp
qed

lemma example_dated:
  "occto_dated example_world ''https://www.occto.or.jp/a.html''"
  "\<not> occto_dated example_world ''https://www.occto.or.jp/c.html''"
  by code_simp+

lemma example_list_entries:
  "parseListPage (meti_load_list (MetiListHtml example_list)) =
     [(''Council X'', ''2026-01-19'', ''https://wwws.meti.go.jp/interface/x.html''),
      (''Council Y'', ''TBD'', ''https://wwws.meti.go.jp/interface/honsho/committee/index.cgi/y.html'')]"
  by code_simp

theorem C3_scraped_dates_witness:
  "(\<exists>ms w'. meti_scrapeMeetings example_world = (Inr ms, w') \<and>
      map (\<lambda>x. (name x, date x, detailUrl x)) ms =
        [(''Council X'', ''2026-01-19'', ''https://wwws.meti.go.jp/interface/x.html''),
         (''Council Y'', ''TBD'',
          ''https://wwws.meti.go.jp/interface/honsho/committee/index.cgi/y.html'')]) \<and>
   (\<exists>ms w'. occto_scrapeMeetings example_world = (Inr ms, w') \<and>
      map detailUrl ms = [''https://www.occto.or.jp/a.html'']) \<and>
   parseDate ''TBD'' = ''TBD''"
proof -
  note c3 = C3_scraped_dates [of example_world]
  from example_list_fetch obtain w0
    where l: "fetchWithUserAgent LIST_URL example_world = (Inr (MetiListHtml example_list), w0)"
    by blast
  from example_news obtain w1 where n: "parseNewsJson example_world =
     (Inr [(''A'', ''https://www.occto.or.jp/a.html''), (''C'', ''https://www.occto.or.jp/c.html'')], w1)"
    by blast
  have tbd: "date_re ''TBD'' = None" by code_simp
  from c3 l have "\<exists>ms w'. meti_scrapeMeetings example_world = (Inr ms, w') \<and>
      map (\<lambda>x. (name x, date x, detailUrl x)) ms =
        parseListPage (meti_load_list (MetiListHtml example_list))"
    by blast
  moreover from c3 n have "\<exists>ms w'. occto_scrapeMeetings example_world = (Inr ms, w') \<and>
      map detailUrl ms = filter (occto_dated example_world)
        (map snd [(''A'', ''https://www.occto.or.jp/a.html''), (''C'', ''https://www.occto.or.jp/c.html'')])"
    by blast
  moreover from c3 tbd have "parseDate ''TBD'' = ''TBD''" by blast
  ultimately show ?thesis
    by (simp add: example_list_entries example_dated)
qed

section \<open>What the audit logger touches\<close>

lemma touches_return: "touches_only T (io_return x)"
  by (simp add: touches_only_def io_return_def)

lemma touches_throw: "touches_only T (io_throw e)"
  by (simp add: touches_only_def io_throw_def)

lemma touches_bind:
  assumes "touches_only T m" and "\<And>x. touches_only T (f x)"
  shows "touches_only T (io_bind m f)"
  unfolding touches_only_def
proof (intro allI impI)
  fix w r w'
  assume run: "io_bind m f w = (r, w')"
  obtain r1 w1 where m: "m w = (r1, w1)" by (cases "m w")
  with assms(1) have k1: "requests w1 = requests w \<and> web w1 = web w \<and>
      SPREADSHEET_ID w1 = SPREADSHEET_ID w \<and> clock w1 = clock w \<and>
      toISOString w1 = toISOString w \<and> (\<forall>t. t \<notin> T \<longrightarrow> sheets w1 t = sheets w t)"
    by (simp add: touches_only_def)
  show "requests w' = requests w \<and> web w' = web w \<and> SPREADSHEET_ID w' = SPREADSHEET_ID w \<and>
      clock w' = clock w \<and> toISOString w' = toISOString w \<and>
      (\<forall>t. t \<notin> T \<longrightarrow> sheets w' t = sheets w t)"
  proof (cases r1)
    case (Inl e)
    with run m k1 show ?thesis by (simp add: io_bind_def)
  next
    case (Inr x)
    with run m have "f x w1 = (r, w')" by (simp add: io_bind_def)
    with assms(2) [of x] have "requests w' = requests w1 \<and> web w' = web w1 \<and>
      SPREADSHEET_ID w' = SPREADSHEET_ID w1 \<and> clock w' = clock w1 \<and>
      toISOString w' = toISOString w1 \<and> (\<forall>t. t \<notin> T \<longrightarrow> sheets w' t = sheets w1 t)"
      by (simp add: touches_only_def)
    with k1 show ?thesis by simp
  qed
qed

lemma touches_catch:
  assumes "touches_only T m" and "\<And>e. touches_only T (h e)"
  shows "touches_only T (io_catch m h)"
  unfolding touches_only_def
proof (intro allI impI)
  fix w r w'
  assume run: "io_catch m h w = (r, w')"
  obtain r1 w1 where m: "m w = (r1, w1)" by (cases "m w")
  with assms(1) have k1: "requests w1 = requests w \<and> web w1 = web w \<and>
      SPREADSHEET_ID w1 = SPREADSHEET_ID w \<and> clock w1 = clock w \<and>
      toISOString w1 = toISOString w \<and> (\<forall>t. t \<notin> T \<longrightarrow> sheets w1 t = sheets w t)"
    by (simp add: touches_only_def)
  show "requests w' = requests w \<and> web w' = web w \<and> SPREADSHEET_ID w' = SPREADSHEET_ID w \<and>
      clock w' = clock w \<and> toISOString w' = toISOString w \<and>
      (\<forall>t. t \<notin> T \<longrightarrow> sheets w' t = sheets w t)"
  proof (cases r1)
    case (Inr x)
    with run m k1 show ?thesis by (auto simp: io_catch_def)
  next
    case (Inl e)
    with run m have "h e w1 = (r, w')" by (simp add: io_catch_def)
    with assms(2) [of e] have "requests w' = requests w1 \<and> web w' = web w1 \<and>
      SPREADSHEET_ID w' = SPREADSHEET_ID w1 \<and> clock w' = clock w1 \<and>
      toISOString w' = toISOString w1 \<and> (\<forall>t. t \<notin> T \<longrightarrow> sheets w' t = sheets w1 t)"
      by (simp add: touches_only_def)
    with k1 show ?thesis by simp
  qed
qed

lemma touches_remote:
  assumes "touches_only T act"
  shows "touches_only T (remote act)"
  unfolding touches_only_def
proof (intro allI impI)
  fix w r w'
  assume run: "remote act w = (r, w')"
  show "requests w' = requests w \<and> web w' = web w \<and> SPREADSHEET_ID w' = SPREADSHEET_ID w \<and>
      clock w' = clock w \<and> toISOString w' = toISOString w \<and>
      (\<forall>t. t \<notin> T \<longrightarrow> sheets w' t = sheets w t)"
  proof (cases "faults w")
    case Nil
    with run have "act w = (r, w')" by (simp add: remote_def)
    with assms show ?thesis by (simp add: touches_only_def)
  next
    case (Cons f fs)
    show ?thesis
    proof (cases f)
      case None
      with run Cons have "act (w\<lparr>faults := fs\<rparr>) = (r, w')" by (simp add: remote_def)
      with assms have "requests w' = requests (w\<lparr>faults := fs\<rparr>) \<and> web w' = web (w\<lparr>faults := fs\<rparr>) \<and>
        SPREADSHEET_ID w' = SPREADSHEET_ID (w\<lparr>faults := fs\<rparr>) \<and> clock w' = clock (w\<lparr>faults := fs\<rparr>) \<and>
        toISOString w' = toISOString (w\<lparr>faults := fs\<rparr>) \<and>
        (\<forall>t. t \<notin> T \<longrightarrow> sheets w' t = sheets (w\<lparr>faults := fs\<rparr>) t)"
        unfolding touches_only_def by blast
      then show ?thesis by simp
    next
      case (Some e)
      with run Cons show ?thesis by (auto simp: remote_def)
    qed
  qed
qed

lemma touches_id: "touches_only T getSpreadsheetId"
  by (auto simp: touches_only_def getSpreadsheetId_def split: option.splits if_splits)

lemma touches_console: "touches_only T (console_error l)"
  by (simp add: touches_only_def console_error_def)

lemma touches_client: "touches_only T getSheetsClient"
  unfolding getSheetsClient_def by (intro touches_remote touches_return)

lemma touches_titles: "touches_only T (api_spreadsheets_get s)"
  unfolding api_spreadsheets_get_def
  by (intro touches_remote) (simp add: touches_only_def)

lemma touches_addSheet: "n \<in> T \<Longrightarrow> touches_only T (api_addSheet s n)"
  unfolding api_addSheet_def
  by (intro touches_remote) (auto simp: touches_only_def split: option.splits)

lemma touches_update: "n \<in> T \<Longrightarrow> touches_only T (api_values_update s n k cells)"
  unfolding api_values_update_def
  by (intro touches_remote) (auto simp: touches_only_def split: option.splits if_splits)

lemma touches_append: "n \<in> T \<Longrightarrow> touches_only T (api_values_append s n cells)"
  unfolding api_values_append_def
  by (intro touches_remote) (auto simp: touches_only_def split: option.splits)

lemma touches_ensure: "n \<in> T \<Longrightarrow> touches_only T (ensureSheetExists header what n)"
  unfolding ensureSheetExists_def
  by (intro touches_catch touches_bind touches_id touches_titles touches_console)
    (auto intro!: touches_bind touches_id touches_addSheet touches_update touches_return)

lemma touches_logExecution: "n \<in> T \<Longrightarrow> touches_only T (logExecution n st summary errorDetail)"
  unfolding logExecution_def logExecution_try_def ensureHistorySheetExists_def
  by (intro touches_catch touches_bind touches_client touches_ensure touches_id touches_append
      touches_console) (simp_all add: touches_only_def)

section \<open>The audit logger when the service is in order\<close>

lemma timestamp_upd [simp]:
  "timestamp (w\<lparr>sheets := f\<rparr>) = timestamp w"
  "timestamp (w\<lparr>stderr := l\<rparr>) = timestamp w"
  by (simp_all add: timestamp_def)

lemma logExecution_from:
  assumes "healthy w1" and "sheets w1 n = Some rows"
    and "healthy w" and "ensureHistorySheetExists n w = (Inr (), w1)"
  shows "logExecution n st summary errorDetail w =
     (Inr (), w1\<lparr>sheets := (sheets w1)(n \<mapsto>
        rows @ [[timestamp w1, status_text st, summary, errorDetail]])\<rparr>)"
  using assms healthy_append [OF assms(1,2), of "[timestamp w1, status_text st, summary, errorDetail]"]
  by (simp add: logExecution_def logExecution_try_def io_catch_def io_bind_def healthy_client)

lemma logExecution_healthy:
  assumes "healthy w"
  shows "logExecution n st summary errorDetail w =
     (Inr (), w\<lparr>sheets := (sheets w)(n \<mapsto>
        (case sheets w n of None \<Rightarrow> [HISTORY_HEADER] | Some rows \<Rightarrow> rows) @
        [[timestamp w, status_text st, summary, errorDetail]])\<rparr>)"
proof (cases "sheets w n")
  case None
  let ?w1 = "w\<lparr>sheets := (sheets w)(n \<mapsto> [HISTORY_HEADER])\<rparr>"
  have "ensureHistorySheetExists n w = (Inr (), ?w1)"
    using assms None by (simp add: ensureHistorySheetExists_def healthy_ensure)
  from logExecution_from [OF _ _ assms this, of "[HISTORY_HEADER]"] assms None
  show ?thesis by simp
next
  case (Some rows)
  have "ensureHistorySheetExists n w = (Inr (), w)"
    using assms Some by (simp add: ensureHistorySheetExists_def healthy_ensure)
  from logExecution_from [OF assms Some assms this] Some
  show ?thesis by simp
qed

lemma logExecution_returns: "\<exists>w'. logExecution n st summary errorDetail w = (Inr (), w')"
  by (auto simp: logExecution_def io_catch_def console_error_def split: prod.splits sum.splits)

section \<open>The orchestrator\<close>

lemma sheet_names_distinct:
  "METI_HISTORY_SHEET_NAME \<noteq> OCCTO_HISTORY_SHEET_NAME"
  "METI_SHEET_NAME \<noteq> METI_HISTORY_SHEET_NAME"
  "METI_SHEET_NAME \<noteq> OCCTO_HISTORY_SHEET_NAME"
  "OCCTO_SHEET_NAME \<noteq> METI_HISTORY_SHEET_NAME"
  "OCCTO_SHEET_NAME \<noteq> OCCTO_HISTORY_SHEET_NAME"
  by (simp_all add: METI_HISTORY_SHEET_NAME_def OCCTO_HISTORY_SHEET_NAME_def
      METI_SHEET_NAME_def OCCTO_SHEET_NAME_def HISTORY_SUFFIX_def)

lemma touches_main_catch:
  "touches_only {METI_HISTORY_SHEET_NAME, OCCTO_HISTORY_SHEET_NAME} (main_catch e)"
  unfolding main_catch_def
  by (intro touches_bind touches_catch touches_console touches_logExecution) simp_all

lemma main_catch_healthy:
  assumes "healthy w"
  shows "\<exists>w'. main_catch e w = (Inr (), w') \<and>
     (\<exists>rows. sheets w' METI_HISTORY_SHEET_NAME =
        Some (rows @ [[timestamp w, status_text Failure, errorMessage e, ''-'']])) \<and>
     (\<exists>rows. sheets w' OCCTO_HISTORY_SHEET_NAME =
        Some (rows @ [[timestamp w, status_text Failure, errorMessage e, ''-'']]))"
proof -
  let ?w2 = "w\<lparr>stderr := stderr w @ [[CHR 0x0A, CHR 0xE2, CHR 0x9D, CHR 0x8C] @ '' Scraping failed!'',
                                        ''Error details: '' @ render e]\<rparr>"
  let ?entry = "[timestamp w, status_text Failure, errorMessage e, ''-'']"
  let ?r1 = "(case sheets ?w2 METI_HISTORY_SHEET_NAME of None \<Rightarrow> [HISTORY_HEADER] | Some rows \<Rightarrow> rows)"
  let ?w3 = "?w2\<lparr>sheets := (sheets ?w2)(METI_HISTORY_SHEET_NAME \<mapsto> ?r1 @ [?entry])\<rparr>"
  let ?r2 = "(case sheets ?w3 OCCTO_HISTORY_SHEET_NAME of None \<Rightarrow> [HISTORY_HEADER] | Some rows \<Rightarrow> rows)"
  let ?w4 = "?w3\<lparr>sheets := (sheets ?w3)(OCCTO_HISTORY_SHEET_NAME \<mapsto> ?r2 @ [?entry])\<rparr>"
  have h2: "healthy ?w2" using assms by simp
  have log1: "logExecution METI_HISTORY_SHEET_NAME Failure (errorMessage e) ''-'' ?w2 = (Inr (), ?w3)"
    using logExecution_healthy [OF h2, of METI_HISTORY_SHEET_NAME Failure "errorMessage e" "''-''"]
    by simp
  have h3: "healthy ?w3" using assms by simp
  have log2: "logExecution OCCTO_HISTORY_SHEET_NAME Failure (errorMessage e) ''-'' ?w3 = (Inr (), ?w4)"
    using logExecution_healthy [OF h3, of OCCTO_HISTORY_SHEET_NAME Failure "errorMessage e" "''-''"]
    by simp
  have run: "main_catch e w = (Inr (), ?w4)"
    using log1 log2
    by (simp add: main_catch_def io_bind_def io_catch_def console_error_def)
  have "sheets ?w4 METI_HISTORY_SHEET_NAME = Some (?r1 @ [?entry])"
    using sheet_names_distinct by simp
  moreover have "sheets ?w4 OCCTO_HISTORY_SHEET_NAME = Some (?r2 @ [?entry])"
    by simp
  ultimately show ?thesis using run by blast
qed

lemma main_catch_returns: "\<exists>w'. main_catch e w = (Inr (), w')"
proof -
  obtain w1 where 1: "logExecution METI_HISTORY_SHEET_NAME Failure (errorMessage e) ''-''
      (w\<lparr>stderr := stderr w @ [[CHR 0x0A, CHR 0xE2, CHR 0x9D, CHR 0x8C] @ '' Scraping failed!'']
          @ [''Error details: '' @ render e]\<rparr>) = (Inr (), w1)"
    using logExecution_returns by blast
  obtain w2 where 2: "logExecution OCCTO_HISTORY_SHEET_NAME Failure (errorMessage e) ''-'' w1 = (Inr (), w2)"
    using logExecution_returns by blast
  from 1 2 show ?thesis
    by (simp add: main_catch_def io_bind_def io_catch_def console_error_def)
qed

lemma run_source_scrape_throws:
  "scrape w = (Inl e, w1) \<Longrightarrow> run_source scrape label mainSheet historySheet w = (Inl e, w1)"
  by (simp add: run_source_def io_bind_def)

lemma main_try_first_throws:
  "run_source meti_scrapeMeetings ''METI'' METI_SHEET_NAME METI_HISTORY_SHEET_NAME w = (Inl e, w1) \<Longrightarrow>
   main_try w = (Inl e, w1)"
  by (simp add: main_try_def io_bind_def)

lemma run_source_upsert_throws:
  assumes "scrape w = (Inr meetings, w1)" and "length meetings \<noteq> 0"
    and "upsertMeetings meetings mainSheet w1 = (Inl e, w2)"
  shows "run_source scrape label mainSheet historySheet w = (Inl e, w2)"
  using assms by (simp add: run_source_def io_bind_def)

lemma main_try_second_throws:
  assumes "run_source meti_scrapeMeetings ''METI'' METI_SHEET_NAME METI_HISTORY_SHEET_NAME w = (Inr (), w1)"
    and "run_source occto_scrapeMeetings ''OCCTO'' OCCTO_SHEET_NAME OCCTO_HISTORY_SHEET_NAME w1 = (Inl e, w2)"
  shows "main_try w = (Inl e, w2)"
  using assms by (simp add: main_try_def io_bind_def)

lemma main_after_throw:
  assumes "main_try w = (Inl e, w1)"
  shows "\<exists>w'. main w = (1, w') \<and> requests w' = requests w1 \<and>
            sheets w' METI_SHEET_NAME = sheets w1 METI_SHEET_NAME \<and>
            sheets w' OCCTO_SHEET_NAME = sheets w1 OCCTO_SHEET_NAME \<and>
            (healthy w1 \<longrightarrow>
               (\<exists>rows. sheets w' METI_HISTORY_SHEET_NAME =
                  Some (rows @ [[timestamp w1, status_text Failure, errorMessage e, ''-'']])) \<and>
               (\<exists>rows. sheets w' OCCTO_HISTORY_SHEET_NAME =
                  Some (rows @ [[timestamp w1, status_text Failure, errorMessage e, ''-'']])))"
proof -
  from main_catch_returns [of e w1] obtain w' where c: "main_catch e w1 = (Inr (), w')" by blast
  with assms have run: "main w = (1, w')" by (simp add: main_def)
  from touches_main_catch [of e] c
  have frame: "requests w' = requests w1"
    "\<forall>t. t \<notin> {METI_HISTORY_SHEET_NAME, OCCTO_HISTORY_SHEET_NAME} \<longrightarrow> sheets w' t = sheets w1 t"
    unfolding touches_only_def by blast+
  have main_tabs: "sheets w' METI_SHEET_NAME = sheets w1 METI_SHEET_NAME"
    "sheets w' OCCTO_SHEET_NAME = sheets w1 OCCTO_SHEET_NAME"
    using frame(2) sheet_names_distinct by simp_all
  have logged: "healthy w1 \<longrightarrow>
       (\<exists>rows. sheets w' METI_HISTORY_SHEET_NAME =
          Some (rows @ [[timestamp w1, status_text Failure, errorMessage e, ''-'']])) \<and>
       (\<exists>rows. sheets w' OCCTO_HISTORY_SHEET_NAME =
          Some (rows @ [[timestamp w1, status_text Failure, errorMessage e, ''-'']]))"
    using main_catch_healthy [of w1 e] c by auto
  from run frame(1) main_tabs logged show ?thesis by blast
qed

text \<open>
  C4, as stated, fails when upserting throws for a cause that also keeps the audit logger
  from writing: here \<open>SPREADSHEET_ID\<close> is not set. Scraping METI succeeds, the first
  write of \<open>upsertMeetings\<close> throws, the process exits with status 1 without fetching
  anything for OCCTO, and no history tab receives an entry: both calls of
  \<open>logExecution\<close> end in their own catch blocks.
\<close>

theorem C4_counterexample:
  "fst (meti_scrapeMeetings unconfigured_world) =
     Inr [\<lparr>name = ''Council X'', date = ''2026-01-19'', time = ''10:00'', agenda = ''budget'',
           detailUrl = ''https://wwws.meti.go.jp/interface/x.html''\<rparr>,
          \<lparr>name = ''Council Y'', date = ''TBD'', time = [], agenda = [],
           detailUrl = ''https://wwws.meti.go.jp/interface/honsho/committee/index.cgi/y.html''\<rparr>] \<and>
   fst (main_try unconfigured_world) = Inl (Error ''SPREADSHEET_ID is not set'') \<and>
   fst (main unconfigured_world) = 1 \<and>
   requests (snd (main unconfigured_world)) =
     [LIST_URL, ''https://wwws.meti.go.jp/interface/x.html'',
      ''https://wwws.meti.go.jp/interface/honsho/committee/index.cgi/y.html''] \<and>
   sheets (snd (main unconfigured_world)) METI_HISTORY_SHEET_NAME = None \<and>
   sheets (snd (main unconfigured_world)) OCCTO_HISTORY_SHEET_NAME = None \<and>
   last (stderr (snd (main unconfigured_world))) =
     ''Failed to log execution: Error: SPREADSHEET_ID is not set''"
  by code_simp

text \<open>
  C4, amended. The try block of \<open>main\<close> throws whenever scraping or upserting throws, for
  either source: when \<open>scrapeMeetings\<close> of METI throws, when \<open>upsertMeetings\<close> throws for
  the meetings found for METI, and, after METI was processed, when \<open>scrapeMeetings\<close> of
  OCCTO throws or \<open>upsertMeetings\<close> throws for the meetings found for OCCTO; the try block
  then ends with that error in the state that the failing call left. When the try block
  throws, the process exits with status 1; after the failure no URL is fetched and no
  main tab is written, so no later source is attempted; and the catch block calls
  \<open>logExecution\<close> with the status of failure and the message of the error for the history
  tab of every source. When the spreadsheet service is in order at that point, the last
  row of each history tab is then the entry with the time stamp, the status of failure,
  the message and \<open>-\<close>; otherwise a call that fails writes to the diagnostic output only.
\<close>

theorem C4_failure_is_logged_and_aborts:
  "(\<forall>e w1. meti_scrapeMeetings w = (Inl e, w1) \<longrightarrow> main_try w = (Inl e, w1)) \<and>
   (\<forall>meetings w1 e w2.
      meti_scrapeMeetings w = (Inr meetings, w1) \<and> length meetings \<noteq> 0 \<and>
      upsertMeetings meetings METI_SHEET_NAME w1 = (Inl e, w2) \<longrightarrow>
      main_try w = (Inl e, w2)) \<and>
   (\<forall>w1 e w2.
      run_source meti_scrapeMeetings ''METI'' METI_SHEET_NAME METI_HISTORY_SHEET_NAME w = (Inr (), w1) \<and>
      occto_scrapeMeetings w1 = (Inl e, w2) \<longrightarrow>
      main_try w = (Inl e, w2)) \<and>
   (\<forall>w1 meetings w2 e w3.
      run_source meti_scrapeMeetings ''METI'' METI_SHEET_NAME METI_HISTORY_SHEET_NAME w = (Inr (), w1) \<and>
      occto_scrapeMeetings w1 = (Inr meetings, w2) \<and> length meetings \<noteq> 0 \<and>
      upsertMeetings meetings OCCTO_SHEET_NAME w2 = (Inl e, w3) \<longrightarrow>
      main_try w = (Inl e, w3)) \<and>
   (\<forall>e w1. main_try w = (Inl e, w1) \<longrightarrow>
      (\<exists>w'. main w = (1, w') \<and> requests w' = requests w1 \<and>
            sheets w' METI_SHEET_NAME = sheets w1 METI_SHEET_NAME \<and>
            sheets w' OCCTO_SHEET_NAME = sheets w1 OCCTO_SHEET_NAME \<and>
            (healthy w1 \<longrightarrow>
               (\<exists>rows. sheets w' METI_HISTORY_SHEET_NAME =
                  Some (rows @ [[timestamp w1, status_text Failure, errorMessage e, ''-'']])) \<and>
               (\<exists>rows. sheets w' OCCTO_HISTORY_SHEET_NAME =
                  Some (rows @ [[timestamp w1, status_text Failure, errorMessage e, ''-'']])))))"
proof (intro conjI allI impI)
  fix e w1
  assume "meti_scrapeMeetings w = (Inl e, w1)"
  then show "main_try w = (Inl e, w1)"
    by (simp add: run_source_scrape_throws main_try_first_throws)
next
  fix meetings w1 e w2
  assume "meti_scrapeMeetings w = (Inr meetings, w1) \<and> length meetings \<noteq> 0 \<and>
      upsertMeetings meetings METI_SHEET_NAME w1 = (Inl e, w2)"
  then have "run_source meti_scrapeMeetings ''METI'' METI_SHEET_NAME METI_HISTORY_SHEET_NAME w =
      (Inl e, w2)"
    by (intro run_source_upsert_throws [where meetings = meetings and ?w1.0 = w1]) simp_all
  then show "main_try w = (Inl e, w2)" by (rule main_try_first_throws)
next
  fix w1 e w2
  assume a: "run_source meti_scrapeMeetings ''METI'' METI_SHEET_NAME METI_HISTORY_SHEET_NAME w =
      (Inr (), w1) \<and> occto_scrapeMeetings w1 = (Inl e, w2)"
  then have "run_source occto_scrapeMeetings ''OCCTO'' OCCTO_SHEET_NAME OCCTO_HISTORY_SHEET_NAME w1 =
      (Inl e, w2)"
    by (simp add: run_source_scrape_throws)
  with a show "main_try w = (Inl e, w2)" by (simp add: main_try_second_throws)
next
  fix w1 meetings w2 e w3
  assume a: "run_source meti_scrapeMeetings ''METI'' METI_SHEET_NAME METI_HISTORY_SHEET_NAME w =
      (Inr (), w1) \<and> occto_scrapeMeetings w1 = (Inr meetings, w2) \<and> length meetings \<noteq> 0 \<and>
      upsertMeetings meetings OCCTO_SHEET_NAME w2 = (Inl e, w3)"
  then have "run_source occto_scrapeMeetings ''OCCTO'' OCCTO_SHEET_NAME OCCTO_HISTORY_SHEET_NAME w1 =
      (Inl e, w3)"
    by (intro run_source_upsert_throws [where meetings = meetings and ?w1.0 = w2]) simp_all
  with a show "main_try w = (Inl e, w3)" by (simp add: main_try_second_throws)
next
  fix e w1
  assume "main_try w = (Inl e, w1)"
  then show "\<exists>w'. main w = (1, w') \<and> requests w' = requests w1 \<and>
            sheets w' METI_SHEET_NAME = sheets w1 METI_SHEET_NAME \<and>
            sheets w' OCCTO_SHEET_NAME = sheets w1 OCCTO_SHEET_NAME \<and>
            (healthy w1 \<longrightarrow>
               (\<exists>rows. sheets w' METI_HISTORY_SHEET_NAME =
                  Some (rows @ [[timestamp w1, status_text Failure, errorMessage e, ''-'']])) \<and>
               (\<exists>rows. sheets w' OCCTO_HISTORY_SHEET_NAME =
                  Some (rows @ [[timestamp w1, status_text Failure, errorMessage e, ''-'']])))"
    by (rule main_after_throw)
qed


lemma listing_fails:
  "meti_scrapeMeetings listing_fails_world =
     (Inl (Error (''Failed to fetch '' @ LIST_URL @ '': 503 Service Unavailable'')),
      listing_fails_world\<lparr>requests := [LIST_URL]\<rparr>)"
proof -
  have "show_nat 503 = ''503''" by code_simp
  then show ?thesis
    by (simp add: meti_scrapeMeetings_def io_bind_def fetchWithUserAgent_def
        listing_fails_world_def example_world_def no_web_def)
qed

lemma listing_fails_healthy: "healthy (listing_fails_world\<lparr>requests := [LIST_URL]\<rparr>)"
  by (simp add: healthy_def configured_def listing_fails_world_def example_world_def truthy_def)

lemma listing_fails_timestamp:
  "timestamp (listing_fails_world\<lparr>requests := [LIST_URL]\<rparr>) = ''2025-12-15 09:00:00''"
  by (simp add: timestamp_def listing_fails_world_def example_world_def)

theorem C4_failure_is_logged_and_aborts_witness:
  "(\<exists>w'. main listing_fails_world = (1, w') \<and> requests w' = [LIST_URL] \<and>
      sheets w' METI_SHEET_NAME = None \<and> sheets w' OCCTO_SHEET_NAME = None \<and>
      (\<exists>rows. sheets w' METI_HISTORY_SHEET_NAME =
         Some (rows @ [[''2025-12-15 09:00:00'', status_text Failure,
                        ''Failed to fetch '' @ LIST_URL @ '': 503 Service Unavailable'', ''-'']])) \<and>
      (\<exists>rows. sheets w' OCCTO_HISTORY_SHEET_NAME =
         Some (rows @ [[''2025-12-15 09:00:00'', status_text Failure,
                        ''Failed to fetch '' @ LIST_URL @ '': 503 Service Unavailable'', ''-'']]))) \<and>
   fst (main_try upsert_fails_world) = Inl example_unavailable \<and>
   fst (main upsert_fails_world) = 1 \<and>
   fst (main_try feed_fails_world) =
     Inl (Error (''Failed to parse OCCTO news JSON: Failed to fetch '' @ JSON_URL @
                 '': 503 Service Unavailable'')) \<and>
   fst (main feed_fails_world) = 1 \<and>
   fst (main_try second_upsert_fails_world) = Inl example_unavailable \<and>
   fst (main second_upsert_fails_world) = 1"
proof -
  let ?meti = "run_source meti_scrapeMeetings ''METI'' METI_SHEET_NAME METI_HISTORY_SHEET_NAME"
  let ?found = "[\<lparr>name = ''Council X'', date = ''2026-01-19'', time = ''10:00'', agenda = ''budget'',
           detailUrl = ''https://wwws.meti.go.jp/interface/x.html''\<rparr>,
          \<lparr>name = ''Council Y'', date = ''TBD'', time = [], agenda = [],
           detailUrl = ''https://wwws.meti.go.jp/interface/honsho/committee/index.cgi/y.html''\<rparr>]"
  have a: "\<exists>w'. main listing_fails_world = (1, w') \<and> requests w' = [LIST_URL] \<and>
      sheets w' METI_SHEET_NAME = None \<and> sheets w' OCCTO_SHEET_NAME = None \<and>
      (\<exists>rows. sheets w' METI_HISTORY_SHEET_NAME =
         Some (rows @ [[''2025-12-15 09:00:00'', status_text Failure,
                        ''Failed to fetch '' @ LIST_URL @ '': 503 Service Unavailable'', ''-'']])) \<and>
      (\<exists>rows. sheets w' OCCTO_HISTORY_SHEET_NAME =
         Some (rows @ [[''2025-12-15 09:00:00'', status_text Failure,
                        ''Failed to fetch '' @ LIST_URL @ '': 503 Service Unavailable'', ''-'']]))"
  proof -
    let ?e = "Error (''Failed to fetch '' @ LIST_URL @ '': 503 Service Unavailable'')"
    let ?w1 = "listing_fails_world\<lparr>requests := [LIST_URL]\<rparr>"
    have tabs: "sheets listing_fails_world METI_SHEET_NAME = None"
      "sheets listing_fails_world OCCTO_SHEET_NAME = None"
      by (simp_all add: listing_fails_world_def example_world_def)
    from C4_failure_is_logged_and_aborts [of listing_fails_world] listing_fails
    have failed: "main_try listing_fails_world = (Inl ?e, ?w1)" by blast
    with C4_failure_is_logged_and_aborts [of listing_fails_world]
    have "\<exists>w'. main listing_fails_world = (1, w') \<and> requests w' = requests ?w1 \<and>
            sheets w' METI_SHEET_NAME = sheets ?w1 METI_SHEET_NAME \<and>
            sheets w' OCCTO_SHEET_NAME = sheets ?w1 OCCTO_SHEET_NAME \<and>
            (healthy ?w1 \<longrightarrow>
               (\<exists>rows. sheets w' METI_HISTORY_SHEET_NAME =
                  Some (rows @ [[timestamp ?w1, status_text Failure, errorMessage ?e, ''-'']])) \<and>
               (\<exists>rows. sheets w' OCCTO_HISTORY_SHEET_NAME =
                  Some (rows @ [[timestamp ?w1, status_text Failure, errorMessage ?e, ''-'']])))"
      by blast
    with listing_fails_healthy show ?thesis
      by (auto simp: listing_fails_timestamp tabs errorMessage_def)
  qed
  have b: "fst (main_try upsert_fails_world) = Inl example_unavailable \<and>
           fst (main upsert_fails_world) = 1"
  proof -
    let ?w1 = "snd (meti_scrapeMeetings upsert_fails_world)"
    let ?w2 = "snd (upsertMeetings ?found METI_SHEET_NAME ?w1)"
    have "fst (meti_scrapeMeetings upsert_fails_world) = Inr ?found" by code_simp
    then have 1: "meti_scrapeMeetings upsert_fails_world = (Inr ?found, ?w1)"
      by (simp add: prod_eq_iff)
    have "fst (upsertMeetings ?found METI_SHEET_NAME ?w1) = Inl example_unavailable" by code_simp
    then have 2: "upsertMeetings ?found METI_SHEET_NAME ?w1 = (Inl example_unavailable, ?w2)"
      by (simp add: prod_eq_iff)
    have 3: "length ?found \<noteq> 0" by simp
    from C4_failure_is_logged_and_aborts [of upsert_fails_world] 1 2 3
    have failed: "main_try upsert_fails_world = (Inl example_unavailable, ?w2)" by blast
    with C4_failure_is_logged_and_aborts [of upsert_fails_world] obtain w' where "main upsert_fails_world = (1, w')" by blast
    with failed show ?thesis by simp
  qed
  have c: "fst (main_try feed_fails_world) =
             Inl (Error (''Failed to parse OCCTO news JSON: Failed to fetch '' @ JSON_URL @
                         '': 503 Service Unavailable'')) \<and>
           fst (main feed_fails_world) = 1"
  proof -
    let ?e = "Error (''Failed to parse OCCTO news JSON: Failed to fetch '' @ JSON_URL @
                         '': 503 Service Unavailable'')"
    let ?w1 = "snd (?meti feed_fails_world)"
    let ?w2 = "snd (occto_scrapeMeetings ?w1)"
    have "fst (?meti feed_fails_world) = Inr ()" by code_simp
    then have 1: "?meti feed_fails_world = (Inr (), ?w1)" by (simp add: prod_eq_iff)
    have "fst (occto_scrapeMeetings ?w1) = Inl ?e" by code_simp
    then have 2: "occto_scrapeMeetings ?w1 = (Inl ?e, ?w2)" by (simp add: prod_eq_iff)
    from C4_failure_is_logged_and_aborts [of feed_fails_world] 1 2
    have failed: "main_try feed_fails_world = (Inl ?e, ?w2)" by blast
    with C4_failure_is_logged_and_aborts [of feed_fails_world] obtain w' where "main feed_fails_world = (1, w')" by blast
    with failed show ?thesis by simp
  qed
  have d: "fst (main_try second_upsert_fails_world) = Inl example_unavailable \<and>
           fst (main second_upsert_fails_world) = 1"
  proof -
    let ?w1 = "snd (?meti second_upsert_fails_world)"
    let ?w2 = "snd (occto_scrapeMeetings ?w1)"
    let ?ms = "[\<lparr>name = ''Committee A'', date = ''2026-02-17'',
                 time = ''18'' @ JI @ ''00'' @ FUN @ WAVE @ ''20'' @ JI @ ''00'' @ FUN,
                 agenda = join_lines [''item 1'', ''item 2''],
                 detailUrl = ''https://www.occto.or.jp/a.html''\<rparr>]"
    let ?w3 = "snd (upsertMeetings ?ms OCCTO_SHEET_NAME ?w2)"
    have "fst (?meti second_upsert_fails_world) = Inr ()" by code_simp
    then have 1: "?meti second_upsert_fails_world = (Inr (), ?w1)" by (simp add: prod_eq_iff)
    have "fst (occto_scrapeMeetings ?w1) = Inr ?ms" by code_simp
    then have 2: "occto_scrapeMeetings ?w1 = (Inr ?ms, ?w2)" by (simp add: prod_eq_iff)
    have "fst (upsertMeetings ?ms OCCTO_SHEET_NAME ?w2) = Inl example_unavailable" by code_simp
    then have 3: "upsertMeetings ?ms OCCTO_SHEET_NAME ?w2 = (Inl example_unavailable, ?w3)"
      by (simp add: prod_eq_iff)
    have 4: "length ?ms \<noteq> 0" by simp
    from C4_failure_is_logged_and_aborts [of second_upsert_fails_world] 1 2 3 4
    have failed: "main_try second_upsert_fails_world = (Inl example_unavailable, ?w3)" by blast
    with C4_failure_is_logged_and_aborts [of second_upsert_fails_world] obtain w' where
      "main second_upsert_fails_world = (1, w')" by blast
    with failed show ?thesis by simp
  qed
  from a b c d show ?thesis by simp
qed

end
